theory Spec2Isabelle
  imports Complex_Main "HOL-Library.Sublist"
begin

section \<open>JavaScript strings\<close>

text \<open>
  A JavaScript string is modelled as a \<^typ>\<open>string\<close> whose characters are the UTF-16 code
  units below 256 (ASCII and Latin-1).  On these, the regular-expression class \<open>\d\<close> is the
  ten ASCII digits, and \<open>\s\<close> (which is also what \<open>String.prototype.trim\<close> strips) is TAB,
  LF, VT, FF, CR, SPACE and the no-break space U+00A0.
\<close>

definition is_digit :: "char \<Rightarrow> bool" where
  "is_digit c = (c \<in> set ''0123456789'')"

definition is_space :: "char \<Rightarrow> bool" where
  "is_space c = (c \<in> set [CHR 0x09, CHR 0x0A, CHR 0x0B, CHR 0x0C, CHR 0x0D, CHR 0x20, CHR 0xA0])"

text \<open>
  \<open>s.toLowerCase()\<close>: on these code units the letters \<open>A\<close> to \<open>Z\<close> and the Latin-1 capitals
  U+00C0 to U+00DE, the multiplication sign U+00D7 apart, move up by 32.
\<close>

definition to_lower_unit :: "char \<Rightarrow> char" where
  "to_lower_unit c =
     (let n = (of_char c :: nat) in
      if (65 \<le> n \<and> n \<le> 90) \<or> (192 \<le> n \<and> n \<le> 222 \<and> n \<noteq> 215) then char_of (n + 32) else c)"

definition toLowerCase :: "string \<Rightarrow> string" where
  "toLowerCase s = map to_lower_unit s"

text \<open>\<open>s.trim()\<close>\<close>

definition trim :: "string \<Rightarrow> string" where
  "trim s = rev (dropWhile is_space (rev (dropWhile is_space s)))"

text \<open>\<open>s.split(c)\<close> for a one-character separator: never the empty list.\<close>

fun split_on :: "char \<Rightarrow> string \<Rightarrow> string list" where
  "split_on c [] = [[]]"
| "split_on c (x # xs) =
     (if x = c then [] # split_on c xs
      else (case split_on c xs of
              [] \<Rightarrow> [[x]]
            | y # ys \<Rightarrow> (x # y) # ys))"

text \<open>\<open>/^\d+$/.test(s)\<close> and \<open>/^\d{4}$/.test(s)\<close>\<close>

definition test_digits :: "string \<Rightarrow> bool" where
  "test_digits s = (s \<noteq> [] \<and> list_all is_digit s)"

definition test_four_digits :: "string \<Rightarrow> bool" where
  "test_four_digits s = (length s = 4 \<and> list_all is_digit s)"

section \<open>The CAPTCHA answer post-processor\<close>

text \<open>
  \<open>text.match(/-?\d+/)\<close>: the leftmost match.  At a position the pattern matches when
  the character is a minus sign followed by a digit, or a digit; the digits are taken
  greedily.  \<open>None\<close> is JavaScript's \<open>null\<close>; \<open>Some m\<close> is the element 0 of the match.
\<close>

fun match_signed_int :: "string \<Rightarrow> string option" where
  "match_signed_int [] = None"
| "match_signed_int (c # cs) =
     (if c = CHR ''-'' \<and> cs \<noteq> [] \<and> is_digit (hd cs) then Some (c # takeWhile is_digit cs)
      else if is_digit c then Some (c # takeWhile is_digit cs)
      else match_signed_int cs)"

text \<open>What the pattern \<open>-?\d+\<close> accepts as a whole string.\<close>

definition is_signed_int :: "string \<Rightarrow> bool" where
  "is_signed_int m =
     (case m of
        [] \<Rightarrow> False
      | c # cs \<Rightarrow> if c = CHR ''-'' then test_digits cs else test_digits (c # cs))"

definition post_process :: "string \<Rightarrow> string option" where
  "post_process text = match_signed_int (trim text)"

section \<open>URLSearchParams\<close>

text \<open>
  \<open>params.toString()\<close> is the application/x-www-form-urlencoded serializer: each name
  and value is encoded in UTF-8; a byte that is an ASCII letter or digit or one of
  \<open>* - . _\<close> stands for itself, a space becomes \<open>+\<close>, every other byte becomes \<open>%XX\<close>
  with upper-case hexadecimal digits; the pairs are written \<open>name=value\<close> and joined by
  \<open>&\<close>.
\<close>

definition utf8_encode :: "char \<Rightarrow> string" where
  "utf8_encode c =
     (let n = (of_char c :: nat) in
      if n < 128 then [c]
      else [char_of (192 + n div 64), char_of (128 + n mod 64)])"

definition is_form_safe :: "char \<Rightarrow> bool" where
  "is_form_safe c =
     (c \<in> set ''abcdefghijklmnopqrstuvwxyzABCDEFGHIJKLMNOPQRSTUVWXYZ0123456789*-._'')"

definition hex_digit :: "nat \<Rightarrow> char" where
  "hex_digit k = ''0123456789ABCDEF'' ! (k mod 16)"

definition form_encode_byte :: "char \<Rightarrow> string" where
  "form_encode_byte b =
     (if is_form_safe b then [b]
      else if b = CHR '' '' then ''+''
      else [CHR ''%'', hex_digit ((of_char b :: nat) div 16), hex_digit ((of_char b :: nat) mod 16)])"

definition form_encode :: "string \<Rightarrow> string" where
  "form_encode s = concat (map form_encode_byte (concat (map utf8_encode s)))"

fun serialize_params :: "(string \<times> string) list \<Rightarrow> string" where
  "serialize_params [] = []"
| "serialize_params [(k, v)] = form_encode k @ ''='' @ form_encode v"
| "serialize_params ((k, v) # p # ps) =
     form_encode k @ ''='' @ form_encode v @ ''&'' @ serialize_params (p # ps)"










section \<open>The request composer\<close>

definition INITIAL_PAGE_URL :: string where
  "INITIAL_PAGE_URL = ''https://www.sci.gov.in/case-status-diary-no/''"

definition AJAX_URL_BASE :: string where
  "AJAX_URL_BASE = ''https://www.sci.gov.in/wp-admin/admin-ajax.php''"

definition CAPTCHA_IMAGE_BASE_URL :: string where
  "CAPTCHA_IMAGE_BASE_URL = ''https://www.sci.gov.in/''"

record token =
  tokenName :: string
  tokenValue :: string

text \<open>\<open>buildFinalUrl\<close> is the same in all four files.\<close>

definition append_param :: "(string \<times> string) list \<Rightarrow> string \<Rightarrow> string \<Rightarrow> (string \<times> string) list" where
  "append_param params k v = params @ [(k, v)]"

definition buildFinalParams ::
  "string \<Rightarrow> string \<Rightarrow> string \<Rightarrow> token \<Rightarrow> string \<Rightarrow> (string \<times> string) list" where
  "buildFinalParams diaryNo year scid tok captchaAnswer =
     (let params = [];
          params = append_param params ''diary_no'' diaryNo;
          params = append_param params ''year'' year;
          params = append_param params ''scid'' scid;
          params = append_param params (tokenName tok) (tokenValue tok);
          params = append_param params ''siwp_captcha_value'' captchaAnswer;
          params = append_param params ''es_ajax_request'' ''1'';
          params = append_param params ''submit'' ''Search'';
          params = append_param params ''action'' ''get_case_status_diary_no'';
          params = append_param params ''language'' ''en''
      in params)"

definition buildFinalUrl ::
  "string \<Rightarrow> string \<Rightarrow> string \<Rightarrow> token \<Rightarrow> string \<Rightarrow> string" where
  "buildFinalUrl diaryNo year scid tok captchaAnswer =
     AJAX_URL_BASE @ ''?'' @ serialize_params (buildFinalParams diaryNo year scid tok captchaAnswer)"

section \<open>JavaScript values and errors\<close>

text \<open>
  The values \<open>JSON.parse\<close> can return and the request body can hold, with \<open>undefined\<close>
  for an absent property.  An object is the list of its properties, keys distinct.
\<close>

datatype jsval =
    JUndefined
  | JNull
  | JBool bool
  | JNum real
  | JStr string
  | JArr "jsval list"
  | JObj "(string \<times> jsval) list"

text \<open>What \<open>if (v)\<close>, \<open>!v\<close>, \<open>v && ...\<close> and \<open>v || ...\<close> test.\<close>

fun truthy :: "jsval \<Rightarrow> bool" where
  "truthy JUndefined = False"
| "truthy JNull = False"
| "truthy (JBool b) = b"
| "truthy (JNum x) = (x \<noteq> 0)"
| "truthy (JStr s) = (s \<noteq> [])"
| "truthy (JArr xs) = True"
| "truthy (JObj kvs) = True"

text \<open>
  \<open>v.k\<close> for one of the property names the sources read (\<open>diaryData\<close>, \<open>success\<close>,
  \<open>data\<close>, \<open>resultsHtml\<close>, \<open>message\<close>, \<open>html\<close>, \<open>pagination\<close>), on a value that is
  neither \<open>null\<close> nor \<open>undefined\<close> (there the access throws, and the callers below say
  so).  No string, number, boolean or array has a property of one of these names.
\<close>

fun js_get :: "jsval \<Rightarrow> string \<Rightarrow> jsval" where
  "js_get (JObj kvs) k = (case map_of kvs k of Some v \<Rightarrow> v | None \<Rightarrow> JUndefined)"
| "js_get v k = JUndefined"

text \<open>
  Every \<open>Error\<close> the sources create, and \<open>Thrown name message\<close> for an exception raised by
  a primitive the sources call (\<open>fetch\<close>, \<open>response.json()\<close>, the Gemini client, \<open>new URL\<close>,
  a property read on \<open>null\<close>, a string conversion).
\<close>

datatype error =
    ProcessNotAttempted
  | Thrown string string
  | FetchHtmlHttp nat string
  | FetchImageHttp nat string
  | RequestTimeout string
  | ImageRequestTimeout string
  | AjaxTimeout
  | TokenNotFound
  | CaptchaImageIdNotFound
  | CaptchaImageNotFound
  | ScidNotFound
  | ScidEmpty
  | NoClearAnswer
  | CaptchaSolvingFailed error
  | AjaxHttp nat string
  | AjaxMalformed jsval
  | CaseDetailsParseError

text \<open>
  A template literal \<open>`...${v}...`\<close> converts \<open>v\<close> to a string.  For a value that came out of
  \<open>JSON.parse\<close> the conversion throws a \<open>TypeError\<close> in one case only: an object with an own
  property \<open>toString\<close> (its value is never a function, and the inherited \<open>valueOf\<close> returns
  the object itself).  An array is converted by joining the conversions of its elements,
  where \<open>null\<close> and \<open>undefined\<close> count as the empty string; every other object becomes
  \<open>[object Object]\<close>.  The sources only log the resulting strings, so the model keeps
  whether the conversion throws.
\<close>

fun to_string_throws :: "jsval \<Rightarrow> bool" where
  "to_string_throws (JObj kvs) = (map_of kvs ''toString'' \<noteq> None)"
| "to_string_throws (JArr xs) =
     list_ex (\<lambda>x. x \<noteq> JNull \<and> x \<noteq> JUndefined \<and> to_string_throws x) xs"
| "to_string_throws v = False"

definition template_literal :: "jsval \<Rightarrow> error + unit" where
  "template_literal v =
     (if to_string_throws v then Inl (Thrown ''TypeError'' ''Cannot convert object to primitive value'')
      else Inr ())"

section \<open>Documents and selectors\<close>

text \<open>
  The document \<open>cheerio.load\<close> builds: elements with a tag name, attributes and children,
  and text nodes.  A compound selector is a predicate on an element's position among
  the element children of its parent (for \<open>:nth-child\<close>), its tag name and its
  attributes.  \<open>select_in\<close> is a selector made of compound selectors joined by the
  descendant combinator: it returns the matching elements in document order.  The first
  argument lists the compound selectors not yet matched by an ancestor; an element is
  selected when only the last one is left and it matches.
\<close>

datatype node =
    Element string "(string \<times> string) list" "node list"
  | TextNode string

type_synonym simple_selector = "nat \<Rightarrow> string \<Rightarrow> (string \<times> string) list \<Rightarrow> bool"

fun select_in :: "simple_selector list \<Rightarrow> nat \<Rightarrow> node list \<Rightarrow> node list" where
  "select_in rs i [] = []"
| "select_in rs i (TextNode s # ns) = select_in rs i ns"
| "select_in rs i (Element t a cs # ns) =
     (case rs of
        [] \<Rightarrow> []
      | [p] \<Rightarrow> (if p i t a then [Element t a cs] else []) @ select_in [p] 1 cs
      | p # q # ps \<Rightarrow> select_in (if p i t a then q # ps else p # q # ps) 1 cs)
     @ select_in rs (Suc i) ns"

text \<open>All elements of a document, in document order.\<close>

fun elements :: "node list \<Rightarrow> node list" where
  "elements [] = []"
| "elements (TextNode s # ns) = elements ns"
| "elements (Element t a cs # ns) = Element t a cs # elements cs @ elements ns"

fun children :: "node \<Rightarrow> node list" where
  "children (Element t a cs) = cs"
| "children (TextNode s) = []"

fun text_of :: "node \<Rightarrow> string" where
  "text_of (TextNode s) = s"
| "text_of (Element t a cs) = concat (map text_of cs)"

text \<open>
  \<open>$(e).attr(k)\<close> for the attribute names the sources read (\<open>name\<close>, \<open>value\<close>, \<open>src\<close>,
  \<open>href\<close>): the attribute when the element has it; otherwise, for \<open>value\<close>, the text of an
  \<open>option\<close> and \<open>on\<close> for a radio button or checkbox; otherwise \<open>undefined\<close>.
\<close>

fun attr :: "node \<Rightarrow> string \<Rightarrow> string option" where
  "attr (Element t a cs) k =
     (case map_of a k of
        Some v \<Rightarrow> Some v
      | None \<Rightarrow>
          if t = ''option'' \<and> k = ''value'' then Some (concat (map text_of cs))
          else if t = ''input'' \<and> k = ''value''
                  \<and> (map_of a ''type'' = Some ''radio'' \<or> map_of a ''type'' = Some ''checkbox'')
          then Some ''on''
          else None)"
| "attr (TextNode s) k = None"

text \<open>
  On a selection (a list of elements): \<open>.attr(k)\<close> reads the first element and is
  \<open>undefined\<close> (\<open>None\<close>) on the empty selection; \<open>.text()\<close> joins the texts; \<open>.find(sel)\<close>
  selects among the descendants (the sources call it on one element only).
\<close>

definition sel_attr :: "node list \<Rightarrow> string \<Rightarrow> string option" where
  "sel_attr sel k = (case sel of [] \<Rightarrow> None | e # _ \<Rightarrow> attr e k)"

definition sel_text :: "node list \<Rightarrow> string" where
  "sel_text sel = concat (map text_of sel)"

definition find_in :: "node list \<Rightarrow> simple_selector list \<Rightarrow> node list" where
  "find_in sel rs = concat (map (\<lambda>e. select_in rs 1 (children e)) sel)"

text \<open>\<open>if (s)\<close> for a string that may be \<open>undefined\<close>.\<close>

definition truthy_str :: "string option \<Rightarrow> bool" where
  "truthy_str x = (case x of None \<Rightarrow> False | Some s \<Rightarrow> s \<noteq> [])"

text \<open>
  A class selector \<open>.c\<close> matches when the \<open>class\<close> attribute matches the regular expression
  \<open>(?:^|\s)c(?:$|\s)\<close>, that is, when \<open>c\<close> is one of the pieces of the attribute between
  whitespace characters (those of \<open>\s\<close>).
\<close>

fun class_names :: "string \<Rightarrow> string \<Rightarrow> string list" where
  "class_names cur [] = (if cur = [] then [] else [cur])"
| "class_names cur (c # cs) =
     (if is_space c
      then (if cur = [] then [] else [cur]) @ class_names [] cs
      else class_names (cur @ [c]) cs)"

definition has_class :: "string \<Rightarrow> (string \<times> string) list \<Rightarrow> bool" where
  "has_class c a = (case map_of a ''class'' of None \<Rightarrow> False | Some v \<Rightarrow> c \<in> set (class_names [] v))"

text \<open>
  The compound selectors of the sources.  Tag names, ids, class names and the values of
  \<open>name\<close> are compared as they stand in the document.  The value of \<open>type\<close> is one of the
  attributes that HTML compares without regard to case: \<open>[type="hidden"]\<close> matches when the
  attribute has the length of \<open>hidden\<close> and equals it after \<open>toLowerCase()\<close>.
\<close>

definition attr_equals_ignore_case :: "string \<Rightarrow> string option \<Rightarrow> bool" where
  "attr_equals_ignore_case v a =
     (case a of
        None \<Rightarrow> False
      | Some x \<Rightarrow> length x = length v \<and> toLowerCase x = toLowerCase v)"

definition sel_token_input :: simple_selector where
  \<comment> \<open>\<open>input[type="hidden"][name^="tok_"]\<close>\<close>
  "sel_token_input i t a =
     (t = ''input'' \<and> attr_equals_ignore_case ''hidden'' (map_of a ''type'')
      \<and> (case map_of a ''name'' of None \<Rightarrow> False | Some n \<Rightarrow> prefix ''tok_'' n))"

definition sel_captcha_image :: simple_selector where
  \<comment> \<open>\<open>img#siwp_captcha_image_0\<close>\<close>
  "sel_captcha_image i t a = (t = ''img'' \<and> map_of a ''id'' = Some ''siwp_captcha_image_0'')"

definition sel_scid_input :: simple_selector where
  \<comment> \<open>\<open>input#input_siwp_captcha_id_0[name="scid"]\<close>\<close>
  "sel_scid_input i t a =
     (t = ''input'' \<and> map_of a ''id'' = Some ''input_siwp_captcha_id_0''
      \<and> map_of a ''name'' = Some ''scid'')"

definition sel_tag :: "string \<Rightarrow> simple_selector" where
  "sel_tag name i t a = (t = name)"

definition sel_tag_class :: "string \<Rightarrow> string \<Rightarrow> simple_selector" where
  "sel_tag_class name c i t a = (t = name \<and> has_class c a)"

definition sel_td_nth_child :: "nat \<Rightarrow> simple_selector" where
  \<comment> \<open>\<open>td:nth-child(k)\<close>\<close>
  "sel_td_nth_child k i t a = (t = ''td'' \<and> i = k)"

definition sel_case_rows :: "simple_selector list" where
  \<comment> \<open>\<open>div.distTableContent table tbody tr\<close>\<close>
  "sel_case_rows =
     [sel_tag_class ''div'' ''distTableContent'', sel_tag ''table'', sel_tag ''tbody'', sel_tag ''tr'']"


section \<open>Regular expressions of the table parsers\<close>

text \<open>\<open>s.replace(/\s+/g, ' ')\<close>: every maximal run of whitespace becomes one space.\<close>

function collapse_ws :: "string \<Rightarrow> string" where
  "collapse_ws [] = []"
| "collapse_ws (c # cs) =
     (if is_space c then CHR '' '' # collapse_ws (dropWhile is_space cs)
      else c # collapse_ws cs)"
  by pat_completeness auto
termination
  by (relation "measure length") (auto simp: le_imp_less_Suc length_dropWhile_le)

text \<open>\<open>s.replace(/\s\s+/g, ' ')\<close>: every maximal run of two or more whitespace characters
  becomes one space.\<close>

function collapse_ws2 :: "string \<Rightarrow> string" where
  "collapse_ws2 [] = []"
| "collapse_ws2 [c] = [c]"
| "collapse_ws2 (c # d # cs) =
     (if is_space c \<and> is_space d then CHR '' '' # collapse_ws2 (dropWhile is_space cs)
      else c # collapse_ws2 (d # cs))"
  by pat_completeness auto
termination
  by (relation "measure length") (auto simp: le_imp_less_Suc length_dropWhile_le less_Suc_eq_le le_SucI)

text \<open>
  \<open>/Registered on\s*([\d]{2}-[\d]{2}-[\d]{4})/i\<close>.  Under the \<open>i\<close> flag a letter of the
  pattern matches itself in either case.  \<open>match_registered_at\<close> matches at the start of
  its argument and returns the matched text and the first group; \<open>match_registered\<close> is
  the leftmost match, as \<open>String.prototype.match\<close> returns it.
\<close>

definition ascii_upper :: "char \<Rightarrow> char" where
  "ascii_upper c =
     (if c \<in> set ''abcdefghijklmnopqrstuvwxyz'' then char_of ((of_char c :: nat) - 32) else c)"

definition is_date :: "string \<Rightarrow> bool" where
  "is_date d =
     (case d of
        [d1, d2, m1, d3, d4, m2, d5, d6, d7, d8] \<Rightarrow>
          is_digit d1 \<and> is_digit d2 \<and> m1 = CHR ''-'' \<and> is_digit d3 \<and> is_digit d4 \<and> m2 = CHR ''-''
          \<and> is_digit d5 \<and> is_digit d6 \<and> is_digit d7 \<and> is_digit d8
      | _ \<Rightarrow> False)"

definition match_registered_at :: "string \<Rightarrow> (string \<times> string) option" where
  "match_registered_at s =
     (let lit = take 13 s;
          ws = takeWhile is_space (drop 13 s);
          date = take 10 (dropWhile is_space (drop 13 s))
      in if map ascii_upper lit = ''REGISTERED ON'' \<and> is_date date
         then Some (lit @ ws @ date, date) else None)"

fun match_registered :: "string \<Rightarrow> (string \<times> string) option" where
  "match_registered [] = None"
| "match_registered (c # cs) =
     (case match_registered_at (c # cs) of
        Some m \<Rightarrow> Some m
      | None \<Rightarrow> match_registered cs)"

text \<open>\<open>s.replace(pat, '')\<close> with a string pattern: the first occurrence is removed.\<close>

fun remove_first :: "string \<Rightarrow> string \<Rightarrow> string" where
  "remove_first pat [] = []"
| "remove_first pat (c # cs) =
     (if prefix pat (c # cs) then drop (length pat) (c # cs) else c # remove_first pat cs)"

section \<open>The platform\<close>

text \<open>
  The library calls whose results the sources only pass on: \<open>cheerio.load\<close> on a string
  (it accepts every string) and on another value, \<open>new URL(rel, base).href\<close> (it throws
  on an invalid URL) and \<open>new URL(u).searchParams.get(k)\<close> (\<open>None\<close> is \<open>null\<close>).
\<close>

record platform =
  cheerio_load :: "string \<Rightarrow> node list"
  cheerio_load_other :: "jsval \<Rightarrow> error + node list"
  url_href :: "string \<Rightarrow> string \<Rightarrow> error + string"
  url_search_get :: "string \<Rightarrow> string \<Rightarrow> string option"

definition load_html :: "platform \<Rightarrow> jsval \<Rightarrow> error + node list" where
  "load_html pf v = (case v of JStr s \<Rightarrow> Inr (cheerio_load pf s) | _ \<Rightarrow> cheerio_load_other pf v)"

section \<open>The markup extractor\<close>

text \<open>\<open>extractToken\<close> (server.js 58-67, server1.js 153-167, and both other files 81-90).\<close>

definition extractToken :: "platform \<Rightarrow> string \<Rightarrow> error + token" where
  "extractToken pf html =
     (let tokenInput = select_in [sel_token_input] 1 (cheerio_load pf html) in
      if length tokenInput > 0 then
        (let tokenName = sel_attr (take 1 tokenInput) ''name'';
             tokenValue = sel_attr (take 1 tokenInput) ''value''
         in if truthy_str tokenName \<and> truthy_str tokenValue
            then Inr \<lparr>tokenName = the tokenName, tokenValue = the tokenValue\<rparr>
            else Inl TokenNotFound)
      else Inl TokenNotFound)"

record captchaInfo =
  imageUrl :: string
  imgId :: string

text \<open>\<open>extractCaptchaInfo\<close> (server.js 69-83).\<close>

definition extractCaptchaInfo :: "platform \<Rightarrow> string \<Rightarrow> error + captchaInfo" where
  "extractCaptchaInfo pf html =
     (let captchaImageElement = select_in [sel_captcha_image] 1 (cheerio_load pf html) in
      if length captchaImageElement > 0 then
        (let imgSrc = sel_attr captchaImageElement ''src'' in
         if truthy_str imgSrc then
           (case url_href pf (the imgSrc) INITIAL_PAGE_URL of
              Inl e \<Rightarrow> Inl e
            | Inr absoluteImgSrc \<Rightarrow>
                (let imgId = url_search_get pf absoluteImgSrc ''id'' in
                 if truthy_str imgId then Inr \<lparr>imageUrl = absoluteImgSrc, imgId = the imgId\<rparr>
                 else Inl CaptchaImageIdNotFound))
         else Inl CaptchaImageNotFound)
      else Inl CaptchaImageNotFound)"

text \<open>\<open>extractSCID\<close> (server1.js 172-186; inlined in the other two files, 158-165).
  On an \<open>input\<close> element \<open>.val()\<close> is \<open>.attr('value')\<close>.\<close>

definition extractSCID :: "platform \<Rightarrow> string \<Rightarrow> error + string" where
  "extractSCID pf html =
     (let scidInput = select_in [sel_scid_input] 1 (cheerio_load pf html) in
      if length scidInput = 0 then Inl ScidNotFound
      else (let scid = sel_attr scidInput ''value'' in
            if \<not> truthy_str scid then Inl ScidEmpty else Inr (the scid)))"

section \<open>The table parsers\<close>

record caseFields =
  serialNumber :: string
  diaryNumber :: string
  caseNumber :: string
  petitionerName :: string
  respondentName :: string
  status :: string

record caseData = caseFields +
  actionViewLink :: "string option"

record caseDetail = caseFields +
  registeredOn :: string
  viewDetailsLink :: string

text \<open>\<open>a || b\<close> on strings.\<close>

definition or_str :: "string \<Rightarrow> string \<Rightarrow> string" where
  "or_str a b = (if a \<noteq> [] then a else b)"

text \<open>\<open>parseCaseDetailsFromHtml\<close> (server.js 124-143): the single-record parser.\<close>

definition parseCaseDetailsFromHtml :: "platform \<Rightarrow> jsval \<Rightarrow> error + caseData" where
  "parseCaseDetailsFromHtml pf htmlString =
     (case load_html pf htmlString of
        Inl e \<Rightarrow> Inl e
      | Inr doc \<Rightarrow>
          (let caseRow = take 1 (select_in sel_case_rows 1 doc) in
           if length caseRow > 0 then
             (let cell = (\<lambda>k. trim (sel_text (find_in caseRow [sel_td_nth_child k])));
                  viewLink = sel_attr (find_in caseRow [sel_td_nth_child 7, sel_tag_class ''a'' ''viewCnrDetails'']) ''href''
              in case (if truthy_str viewLink
                       then map_sum id Some (url_href pf (the viewLink) INITIAL_PAGE_URL)
                       else Inr None) of
                   Inl e \<Rightarrow> Inl e
                 | Inr link \<Rightarrow>
                     (let caseData =
                        \<lparr>serialNumber = cell 1,
                         diaryNumber = cell 2,
                         caseNumber = cell 3,
                         petitionerName = collapse_ws2 (or_str (trim (sel_text (find_in caseRow [sel_tag_class ''td'' ''petitioners'']))) (cell 4)),
                         respondentName = collapse_ws2 (or_str (trim (sel_text (find_in caseRow [sel_tag_class ''td'' ''respondents'']))) (cell 5)),
                         status = cell 6,
                         actionViewLink = link\<rparr>
                      in if diaryNumber caseData \<noteq> [] then Inr caseData
                         else Inl CaseDetailsParseError))
           else Inl CaseDetailsParseError))"

text \<open>
  \<open>parseCaseDetailsHtml\<close> (the second unnamed file, 224-291): the normalizing parser.
  \<open>parse_row\<close> is the body of the \<open>each\<close> callback for a row with at least 7 cells, and
  \<open>each_row\<close> the \<open>each\<close> loop, with the array \<open>cases\<close> it pushes to.
\<close>

definition parse_row :: "platform \<Rightarrow> node list \<Rightarrow> caseDetail" where
  "parse_row pf cells =
     (let caseInfoFullText = trim (text_of (cells ! 2));
          registeredOnMatch = match_registered caseInfoFullText;
          viewLinkTag = find_in [cells ! 6] [sel_tag_class ''a'' ''viewCnrDetails''];
          relativeLink = sel_attr viewLinkTag ''href''
      in \<lparr>serialNumber = trim (text_of (cells ! 0)),
          diaryNumber = trim (text_of (cells ! 1)),
          caseNumber =
            (case registeredOnMatch of
               Some (m0, m1) \<Rightarrow>
                 if m1 \<noteq> [] then trim (collapse_ws (remove_first m0 caseInfoFullText))
                 else trim (collapse_ws caseInfoFullText)
             | None \<Rightarrow> trim (collapse_ws caseInfoFullText)),
          petitionerName = trim (text_of (cells ! 3)),
          respondentName = trim (text_of (cells ! 4)),
          status = trim (text_of (cells ! 5)),
          registeredOn = (case registeredOnMatch of Some (m0, m1) \<Rightarrow> m1 | None \<Rightarrow> ''''),
          viewDetailsLink =
            (if length viewLinkTag > 0 \<and> truthy_str relativeLink then
               (case url_href pf (the relativeLink) CAPTCHA_IMAGE_BASE_URL of
                  Inr href \<Rightarrow> href
                | Inl e \<Rightarrow> the relativeLink)
             else '''')\<rparr>)"

fun each_row :: "platform \<Rightarrow> node list \<Rightarrow> caseDetail list \<Rightarrow> caseDetail list" where
  "each_row pf [] cases = cases"
| "each_row pf (row # rows) cases =
     (let cells = find_in [row] [sel_tag ''td''] in
      if length cells \<ge> 7 then each_row pf rows (cases @ [parse_row pf cells])
      else each_row pf rows cases)"

definition parseCaseDetailsHtml :: "platform \<Rightarrow> jsval \<Rightarrow> error + caseDetail list" where
  "parseCaseDetailsHtml pf htmlString =
     (case load_html pf htmlString of
        Inl e \<Rightarrow> Inl e
      | Inr doc \<Rightarrow>
          (let caseRows = select_in sel_case_rows 1 doc in
           if length caseRows = 0 then
             (let contentDivText =
                    toLowerCase (sel_text (select_in [sel_tag_class ''div'' ''distTableContent''] 1 doc))
              in if sublist ''no record found'' contentDivText \<or> sublist ''no data found'' contentDivText
                 then Inr []
                 else Inr [])
           else Inr (each_row pf caseRows [])))"


section \<open>The outside world and the effects of a lookup\<close>

text \<open>
  What the network, the oracle, the clock and the random generator answer during
  attempt \<open>n\<close> of a lookup.  \<open>fetch w n url\<close> is the outcome of \<open>fetch(url)\<close>: \<open>Inl\<close> when the
  promise rejects, otherwise the response with its \<open>ok\<close> flag, its status, its body and
  what \<open>response.json()\<close> makes of the body.  \<open>generateContent w n image\<close> is the text of
  the oracle's reply, or the exception of the call.  \<open>date_now w n k\<close> is
  \<open>Date.now().toString()\<close> at its \<open>k\<close>-th use in the attempt, and \<open>math_random w n\<close> the
  value of \<open>Math.random()\<close> after attempt \<open>n\<close>.
\<close>

record response =
  resp_ok :: bool
  resp_status :: nat
  resp_text :: string
  resp_json :: "error + jsval"

record world =
  fetch :: "nat \<Rightarrow> string \<Rightarrow> error + response"
  generateContent :: "nat \<Rightarrow> string \<Rightarrow> error + string"
  date_now :: "nat \<Rightarrow> nat \<Rightarrow> string"
  math_random :: "nat \<Rightarrow> real"

text \<open>The observable effects, in the order they happen; a sleep is in seconds.\<close>

datatype event =
    EvFetchHtml string
  | EvFetchImageBuffer string
  | EvGenerateContent string
  | EvFetchAjax string
  | EvSleep real
  | EvCacheSet string jsval

type_synonym 'a eff = "(error + 'a) \<times> event list"

text \<open>Sequencing inside a \<open>try\<close> block: the first exception ends the block.\<close>

definition bind_eff :: "'a eff \<Rightarrow> ('a \<Rightarrow> 'b eff) \<Rightarrow> 'b eff" where
  "bind_eff m f =
     (case m of
        (Inl e, evs) \<Rightarrow> (Inl e, evs)
      | (Inr x, evs) \<Rightarrow> (case f x of (r, evs') \<Rightarrow> (r, evs @ evs')))"

definition pure_eff :: "error + 'a \<Rightarrow> 'a eff" where
  "pure_eff r = (r, [])"

text \<open>\<open>catch (error) { if (error.name === 'AbortError') throw new Error(...timeout...); throw error; }\<close>\<close>

definition on_abort :: "error \<Rightarrow> error \<Rightarrow> error" where
  "on_abort timeout e =
     (case e of
        Thrown name msg \<Rightarrow> if name = ''AbortError'' then timeout else e
      | _ \<Rightarrow> e)"

section \<open>The page fetcher\<close>

text \<open>
  \<open>fetchHtml\<close> and \<open>fetchImageBuffer\<close> of server.js and of the two unnamed files.  Reading
  the body of a response that has arrived (\<open>text()\<close>, \<open>arrayBuffer()\<close>) is taken to succeed.
\<close>

definition fetchHtml :: "world \<Rightarrow> nat \<Rightarrow> string \<Rightarrow> string eff" where
  "fetchHtml w n url =
     ((case fetch w n url of
         Inl e \<Rightarrow> Inl e
       | Inr response \<Rightarrow>
           if \<not> resp_ok response then Inl (FetchHtmlHttp (resp_status response) url)
           else Inr (resp_text response)),
      [EvFetchHtml url])"

definition fetchImageBuffer :: "world \<Rightarrow> nat \<Rightarrow> string \<Rightarrow> string eff" where
  "fetchImageBuffer w n url =
     ((case fetch w n url of
         Inl e \<Rightarrow> Inl e
       | Inr response \<Rightarrow>
           if \<not> resp_ok response then Inl (FetchImageHttp (resp_status response) url)
           else Inr (resp_text response)),
      [EvFetchImageBuffer url])"

text \<open>The same two of server1.js (73-148), which turn an abort into a timeout error.\<close>

definition fetchHtml1 :: "world \<Rightarrow> nat \<Rightarrow> string \<Rightarrow> string eff" where
  "fetchHtml1 w n url =
     ((case fetch w n url of
         Inl e \<Rightarrow> Inl (on_abort (RequestTimeout url) e)
       | Inr response \<Rightarrow>
           if \<not> resp_ok response then Inl (FetchHtmlHttp (resp_status response) url)
           else Inr (resp_text response)),
      [EvFetchHtml url])"

definition fetchImageBuffer1 :: "world \<Rightarrow> nat \<Rightarrow> string \<Rightarrow> string eff" where
  "fetchImageBuffer1 w n url =
     ((case fetch w n url of
         Inl e \<Rightarrow> Inl (on_abort (ImageRequestTimeout url) e)
       | Inr response \<Rightarrow>
           if \<not> resp_ok response then Inl (FetchImageHttp (resp_status response) url)
           else Inr (resp_text response)),
      [EvFetchImageBuffer url])"

text \<open>The final request: \<open>fetch(finalUrl, ...)\<close>.\<close>

definition fetchAjax :: "world \<Rightarrow> nat \<Rightarrow> string \<Rightarrow> response eff" where
  "fetchAjax w n url = (fetch w n url, [EvFetchAjax url])"

section \<open>The CAPTCHA solver adapter\<close>

text \<open>
  \<open>solveCaptchaWithGemini\<close> (the same in all four files up to the wording of its
  messages): every exception of the \<open>try\<close> block, its own included, is wrapped.
\<close>

definition solveCaptchaWithGemini :: "world \<Rightarrow> nat \<Rightarrow> string \<Rightarrow> string eff" where
  "solveCaptchaWithGemini w n imageBuffer =
     ((case generateContent w n imageBuffer of
         Inl e \<Rightarrow> Inl (CaptchaSolvingFailed e)
       | Inr text \<Rightarrow>
           (let cleanedAnswer = match_signed_int (trim text) in
            if cleanedAnswer \<noteq> None \<and> the cleanedAnswer \<noteq> [] then Inr (the cleanedAnswer)
            else Inl (CaptchaSolvingFailed NoClearAnswer))),
      [EvGenerateContent imageBuffer])"

section \<open>The retry orchestrator\<close>

text \<open>
  The \<open>while (attempts < MAX_ATTEMPTS)\<close> loop of \<open>getCaseDetailsProcess\<close>, which the four
  files share; they differ in \<open>MAX_ATTEMPTS\<close>, in the body of the \<open>try\<close> block (\<open>attempt\<close>,
  which may change a store \<open>s\<close>) and in \<open>delaySeconds\<close>.  The arguments \<open>attempts\<close> and
  \<open>lastError\<close> are the loop's two variables.
\<close>

function retry_loop ::
  "nat \<Rightarrow> (nat \<Rightarrow> 's \<Rightarrow> 'a eff \<times> 's) \<Rightarrow> (nat \<Rightarrow> real) \<Rightarrow> nat \<Rightarrow> error \<Rightarrow> 's \<Rightarrow> 'a eff \<times> 's" where
  "retry_loop MAX_ATTEMPTS attempt delaySeconds attempts lastError s =
     (if attempts < MAX_ATTEMPTS then
        (case attempt (attempts + 1) s of
           ((Inr v, evs), s') \<Rightarrow> ((Inr v, evs), s')
         | ((Inl e, evs), s') \<Rightarrow>
             (case retry_loop MAX_ATTEMPTS attempt delaySeconds (attempts + 1) e s' of
                ((r, evs'), s'') \<Rightarrow>
                  ((r, evs
                       @ (if attempts + 1 < MAX_ATTEMPTS then [EvSleep (delaySeconds (attempts + 1))] else [])
                       @ evs'), s'')))
      else ((Inl lastError, []), s))"
  by pat_completeness auto
termination
  by (relation "measure (\<lambda>(M, a, d, n, e, s). M - n)") auto

declare retry_loop.simps [simp del]

subsection \<open>server.js\<close>

text \<open>The \<open>try\<close> block up to \<open>ajaxResponse.json()\<close> (server.js 153-169) ...\<close>

definition fetchEnvelope_server :: "platform \<Rightarrow> world \<Rightarrow> string \<Rightarrow> string \<Rightarrow> nat \<Rightarrow> jsval eff" where
  "fetchEnvelope_server pf w diaryNo year n =
     bind_eff (fetchHtml w n INITIAL_PAGE_URL) (\<lambda>initialHtml.
     bind_eff (pure_eff (extractToken pf initialHtml)) (\<lambda>token.
     bind_eff (pure_eff (extractCaptchaInfo pf initialHtml)) (\<lambda>captchaInfo.
     let scid = imgId captchaInfo in
     bind_eff (fetchImageBuffer w n (imageUrl captchaInfo)) (\<lambda>imageBuffer.
     bind_eff (solveCaptchaWithGemini w n imageBuffer) (\<lambda>captchaAnswer.
     let finalUrl = buildFinalUrl diaryNo year scid token captchaAnswer in
     bind_eff (fetchAjax w n finalUrl) (\<lambda>ajaxResponse.
     if \<not> resp_ok ajaxResponse
     then pure_eff (Inl (AjaxHttp (resp_status ajaxResponse) (take 200 (resp_text ajaxResponse))))
     else pure_eff (resp_json ajaxResponse)))))))"

text \<open>... and the whole of it (153-175).\<close>

definition envelope_ok :: "jsval \<Rightarrow> bool" where
  \<comment> \<open>\<open>jsonData && jsonData.success && jsonData.data && jsonData.data.resultsHtml\<close>\<close>
  "envelope_ok jsonData =
     (truthy jsonData \<and> truthy (js_get jsonData ''success'') \<and> truthy (js_get jsonData ''data'')
      \<and> truthy (js_get (js_get jsonData ''data'') ''resultsHtml''))"

definition attempt_server :: "platform \<Rightarrow> world \<Rightarrow> string \<Rightarrow> string \<Rightarrow> nat \<Rightarrow> caseData eff" where
  "attempt_server pf w diaryNo year n =
     bind_eff (fetchEnvelope_server pf w diaryNo year n) (\<lambda>jsonData.
     if envelope_ok jsonData
     then pure_eff (parseCaseDetailsFromHtml pf (js_get (js_get jsonData ''data'') ''resultsHtml''))
     else pure_eff (Inl (AjaxMalformed jsonData)))"

definition delaySeconds_server :: "nat \<Rightarrow> real" where
  "delaySeconds_server attempts = 2 + real attempts"

definition getCaseDetailsProcess_server :: "platform \<Rightarrow> world \<Rightarrow> string \<Rightarrow> string \<Rightarrow> caseData eff" where
  "getCaseDetailsProcess_server pf w diaryNo year =
     fst (retry_loop 5 (\<lambda>n s. (attempt_server pf w diaryNo year n, s)) delaySeconds_server
            0 ProcessNotAttempted ())"

subsection \<open>The two unnamed files\<close>

text \<open>
  The URLs with their cache busters: \<open>searchParams.set\<close> rewrites the query of the URL
  as the serialized list of its pairs.
\<close>

definition initialPageUrlWithCacheBuster :: "string \<Rightarrow> string" where
  "initialPageUrlWithCacheBuster now = INITIAL_PAGE_URL @ ''?'' @ serialize_params [(''_'', now)]"

definition captchaImageUrl :: "string \<Rightarrow> string \<Rightarrow> string" where
  "captchaImageUrl scid now =
     CAPTCHA_IMAGE_BASE_URL @ ''?''
       @ serialize_params [(''_siwp_captcha'', ''''), (''id'', scid), (''ts'', now)]"

text \<open>
  Reading \<open>responseData.success\<close> for the log line throws a \<open>TypeError\<close> when the body
  was the JSON text \<open>null\<close>.  server1.js hands the value to its logger as it is
  (\<open>read_success\<close>); the two unnamed files write it into a template literal
  (\<open>log_success\<close>, line 202).
\<close>

definition read_success :: "jsval \<Rightarrow> error + jsval" where
  "read_success responseData =
     (if responseData = JNull \<or> responseData = JUndefined
      then Inl (Thrown ''TypeError'' ''Cannot read properties of null (reading success)'')
      else Inr responseData)"

definition log_success :: "jsval \<Rightarrow> error + jsval" where
  "log_success responseData =
     (case read_success responseData of
        Inl e \<Rightarrow> Inl e
      | Inr r \<Rightarrow>
          (case template_literal (js_get r ''success'') of
             Inl e \<Rightarrow> Inl e
           | Inr u \<Rightarrow> Inr responseData))"

definition exponentialBackoff :: "world \<Rightarrow> nat \<Rightarrow> real" where
  \<comment> \<open>\<open>Math.pow(2, attempts) + Math.random()\<close>\<close>
  "exponentialBackoff w attempts = 2 ^ attempts + math_random w attempts"

definition attempt_part :: "platform \<Rightarrow> world \<Rightarrow> string \<Rightarrow> string \<Rightarrow> nat \<Rightarrow> jsval eff" where
  "attempt_part pf w diaryNo year n =
     bind_eff (fetchHtml w n (initialPageUrlWithCacheBuster (date_now w n 0))) (\<lambda>initialHtml.
     bind_eff (pure_eff (extractSCID pf initialHtml)) (\<lambda>scid.
     bind_eff (pure_eff (extractToken pf initialHtml)) (\<lambda>token.
     bind_eff (fetchImageBuffer w n (captchaImageUrl scid (date_now w n 1))) (\<lambda>imageBuffer.
     bind_eff (solveCaptchaWithGemini w n imageBuffer) (\<lambda>captchaAnswer.
     let finalUrl = buildFinalUrl diaryNo year scid token captchaAnswer in
     bind_eff (fetchAjax w n finalUrl) (\<lambda>ajaxResponse.
     if \<not> resp_ok ajaxResponse
     then pure_eff (Inl (AjaxHttp (resp_status ajaxResponse) (take 500 (resp_text ajaxResponse))))
     else bind_eff (pure_eff (resp_json ajaxResponse)) (\<lambda>responseData.
          pure_eff (log_success responseData))))))))"

definition getCaseDetailsProcess_part :: "platform \<Rightarrow> world \<Rightarrow> string \<Rightarrow> string \<Rightarrow> jsval eff" where
  "getCaseDetailsProcess_part pf w diaryNo year =
     fst (retry_loop 3 (\<lambda>n s. (attempt_part pf w diaryNo year n, s)) (exponentialBackoff w)
            0 ProcessNotAttempted ())"

subsection \<open>server1.js\<close>

text \<open>
  \<open>responseCache\<close>: the entries of the NodeCache that have not expired, by key.
  \<open>get\<close> returns \<open>undefined\<close> for a key without one.
\<close>

type_synonym cache = "string \<Rightarrow> jsval option"

definition cache_get :: "cache \<Rightarrow> string \<Rightarrow> jsval" where
  "cache_get c k = (case c k of None \<Rightarrow> JUndefined | Some v \<Rightarrow> v)"

definition cache_set :: "cache \<Rightarrow> string \<Rightarrow> jsval \<Rightarrow> cache" where
  "cache_set c k v = c(k \<mapsto> v)"

definition cache_has :: "cache \<Rightarrow> string \<Rightarrow> bool" where
  "cache_has c k = (c k \<noteq> None)"

text \<open>The \<open>try\<close> block up to the response of the final request (server1.js 283-341) ...\<close>

definition fetchAjaxResponse_server1 ::
  "platform \<Rightarrow> world \<Rightarrow> string \<Rightarrow> string \<Rightarrow> nat \<Rightarrow> response eff" where
  "fetchAjaxResponse_server1 pf w diaryNo year n =
     bind_eff (fetchHtml1 w n (initialPageUrlWithCacheBuster (date_now w n 0))) (\<lambda>initialHtml.
     bind_eff (pure_eff (extractSCID pf initialHtml)) (\<lambda>scid.
     bind_eff (pure_eff (extractToken pf initialHtml)) (\<lambda>token.
     bind_eff (fetchImageBuffer1 w n (captchaImageUrl scid (date_now w n 1))) (\<lambda>imageBuffer.
     bind_eff (solveCaptchaWithGemini w n imageBuffer) (\<lambda>captchaAnswer.
     let finalUrl = buildFinalUrl diaryNo year scid token captchaAnswer in
     bind_eff (case fetchAjax w n finalUrl of
                 (Inl e, evs) \<Rightarrow> (Inl (on_abort AjaxTimeout e), evs)
               | (Inr r, evs) \<Rightarrow> (Inr r, evs)) (\<lambda>ajaxResponse.
     if \<not> resp_ok ajaxResponse
     then pure_eff (Inl (AjaxHttp (resp_status ajaxResponse) (take 500 (resp_text ajaxResponse))))
     else pure_eff (Inr ajaxResponse)))))))"

text \<open>... and the whole of it (283-361), with the store of the cache.\<close>

definition attempt_server1 ::
  "platform \<Rightarrow> world \<Rightarrow> string \<Rightarrow> string \<Rightarrow> string \<Rightarrow> nat \<Rightarrow> cache \<Rightarrow> jsval eff \<times> cache" where
  "attempt_server1 pf w diaryNo year cacheKey n responseCache =
     (case fetchAjaxResponse_server1 pf w diaryNo year n of
        (Inl e, evs) \<Rightarrow> ((Inl e, evs), responseCache)
      | (Inr ajaxResponse, evs) \<Rightarrow>
          (case resp_json ajaxResponse of
             Inl e \<Rightarrow> ((Inl (on_abort AjaxTimeout e), evs), responseCache)
           | Inr responseData \<Rightarrow>
               ((map_sum (on_abort AjaxTimeout) id (read_success responseData),
                 evs @ [EvCacheSet cacheKey responseData]),
                cache_set responseCache cacheKey responseData)))"

definition getCaseDetailsProcess_server1 ::
  "nat \<Rightarrow> platform \<Rightarrow> world \<Rightarrow> string \<Rightarrow> string \<Rightarrow> cache \<Rightarrow> jsval eff \<times> cache" where
  "getCaseDetailsProcess_server1 MAX_ATTEMPTS pf w diaryNo year responseCache =
     (let cacheKey = diaryNo @ ''/'' @ year;
          cachedData = cache_get responseCache cacheKey
      in if truthy cachedData then ((Inr cachedData, []), responseCache)
         else retry_loop MAX_ATTEMPTS (attempt_server1 pf w diaryNo year cacheKey)
                (exponentialBackoff w) 0 ProcessNotAttempted responseCache)"


section \<open>The endpoint POST /api/case-details\<close>

text \<open>
  A response is its status and the object given to \<open>res.json\<close>, as the list of its
  properties.  \<open>timeTakenMs\<close> is read from the clock when the response is built; the
  handlers take that reading as an argument: the number
  \<open>parseFloat(calculateTimeTaken(startTime))\<close>, and in server1.js the string
  \<open>calculateTimeTaken(startTime)\<close>.  A handler is given \<open>req.body\<close> and returns the response
  it sends, or the exception it throws before sending one.
\<close>

datatype api_error =
    InvalidPayload
  | InvalidFormat
  | FailedToRetrieve error
  | SourceReported jsval
  | UnexpectedStructure

datatype body_value =
    BBool bool
  | BTime real
  | BTimeText string
  | BJson jsval
  | BCaseData caseData
  | BCases "caseDetail list"
  | BError api_error

record http_response =
  http_status :: nat
  http_body :: "(string \<times> body_value) list"

text \<open>\<open>const { diaryData } = req.body\<close>: destructuring \<open>null\<close> or \<open>undefined\<close> throws.\<close>

definition destructure_diaryData :: "jsval \<Rightarrow> error + jsval" where
  "destructure_diaryData body =
     (if body = JNull \<or> body = JUndefined
      then Inl (Thrown ''TypeError'' ''Cannot destructure property diaryData'')
      else Inr (js_get body ''diaryData''))"

definition is_string :: "jsval \<Rightarrow> bool" where
  \<comment> \<open>\<open>typeof v === 'string'\<close>\<close>
  "is_string v = (case v of JStr s \<Rightarrow> True | _ \<Rightarrow> False)"

definition string_of :: "jsval \<Rightarrow> string" where
  "string_of v = (case v of JStr s \<Rightarrow> s | _ \<Rightarrow> [])"

text \<open>
  The validation of \<open>diaryData\<close>, written the same way in all four handlers
  (server.js 203-223, server1.js 458-489, the unnamed files 236-258 and 307-329).
\<close>

definition validate_diaryData :: "jsval \<Rightarrow> api_error + string \<times> string" where
  "validate_diaryData diaryData =
     (if \<not> truthy diaryData \<or> \<not> is_string diaryData then Inl InvalidPayload
      else (let parts = split_on CHR ''/'' (string_of diaryData) in
            if length parts \<noteq> 2 \<or> \<not> test_digits (parts ! 0) \<or> \<not> test_four_digits (parts ! 1)
            then Inl InvalidFormat
            else Inr (parts ! 0, parts ! 1)))"

definition bad_request :: "api_error \<Rightarrow> body_value \<Rightarrow> http_response" where
  "bad_request err timeTakenMs =
     \<lparr>http_status = 400,
      http_body = [(''success'', BBool False), (''error'', BError err), (''timeTakenMs'', timeTakenMs)]\<rparr>"

definition server_error :: "api_error \<Rightarrow> body_value \<Rightarrow> http_response" where
  "server_error err timeTakenMs =
     \<lparr>http_status = 500,
      http_body = [(''success'', BBool False), (''error'', BError err), (''timeTakenMs'', timeTakenMs)]\<rparr>"

text \<open>server.js 198-243\<close>

definition api_case_details_server :: "platform \<Rightarrow> world \<Rightarrow> real \<Rightarrow> jsval \<Rightarrow> http_response eff" where
  "api_case_details_server pf w timeTakenMs body =
     (case destructure_diaryData body of
        Inl e \<Rightarrow> (Inl e, [])
      | Inr diaryData \<Rightarrow>
          (case validate_diaryData diaryData of
             Inl err \<Rightarrow> (Inr (bad_request err (BTime timeTakenMs)), [])
           | Inr (diaryNo, year) \<Rightarrow>
               (case getCaseDetailsProcess_server pf w diaryNo year of
                  (Inr caseDetails, evs) \<Rightarrow>
                    (Inr \<lparr>http_status = 200,
                          http_body = [(''success'', BBool True), (''data'', BCaseData caseDetails),
                                       (''timeTakenMs'', BTime timeTakenMs)]\<rparr>, evs)
                | (Inl e, evs) \<Rightarrow> (Inr (server_error (FailedToRetrieve e) (BTime timeTakenMs)), evs))))"

text \<open>
  The two unnamed files log the request before they validate it (232-234 and 303-305):
  \<open>requestIdentifierLog = diaryData || `unknown_diary_data_${Date.now()}`\<close> and then a
  template literal with \<open>requestIdentifierLog\<close> and \<open>diaryData\<close>.  The second operand of
  \<open>||\<close> is a string whatever the clock says; the model leaves the reading out.
\<close>

definition log_api_call_start :: "jsval \<Rightarrow> error + unit" where
  "log_api_call_start diaryData =
     (let requestIdentifierLog = (if truthy diaryData then diaryData else JStr ''unknown_diary_data_'') in
      case template_literal requestIdentifierLog of
        Inl e \<Rightarrow> Inl e
      | Inr u \<Rightarrow> template_literal diaryData)"

text \<open>The first unnamed file, 229-279: the site's envelope is passed through.\<close>

definition api_case_details_passthrough ::
  "platform \<Rightarrow> world \<Rightarrow> real \<Rightarrow> jsval \<Rightarrow> http_response eff" where
  "api_case_details_passthrough pf w timeTakenMs body =
     (case destructure_diaryData body of
        Inl e \<Rightarrow> (Inl e, [])
      | Inr diaryData \<Rightarrow>
          (case log_api_call_start diaryData of
             Inl e \<Rightarrow> (Inl e, [])
           | Inr u \<Rightarrow>
               (case validate_diaryData diaryData of
                  Inl err \<Rightarrow> (Inr (bad_request err (BTime timeTakenMs)), [])
                | Inr (diaryNo, year) \<Rightarrow>
                    (case getCaseDetailsProcess_part pf w diaryNo year of
                       (Inr ajaxJsonResponse, evs) \<Rightarrow>
                         (Inr \<lparr>http_status = 200,
                               http_body = [(''success'', BBool True), (''data'', BJson ajaxJsonResponse),
                                            (''timeTakenMs'', BTime timeTakenMs)]\<rparr>, evs)
                     | (Inl e, evs) \<Rightarrow>
                         (Inr (server_error (FailedToRetrieve e) (BTime timeTakenMs)), evs)))))"

text \<open>
  server1.js 447-521: the same with the cache.  Its request identifier is the template
  literal \<open>`req_${Date.now()}_${diaryData || 'unknown'}`\<close> (line 450).
\<close>

definition requestIdentifier_server1 :: "jsval \<Rightarrow> error + unit" where
  "requestIdentifier_server1 diaryData =
     template_literal (if truthy diaryData then diaryData else JStr ''unknown'')"

definition api_case_details_server1 ::
  "nat \<Rightarrow> platform \<Rightarrow> world \<Rightarrow> string \<Rightarrow> jsval \<Rightarrow> cache \<Rightarrow> http_response eff \<times> cache" where
  "api_case_details_server1 MAX_ATTEMPTS pf w timeTakenMs body responseCache =
     (case destructure_diaryData body of
        Inl e \<Rightarrow> ((Inl e, []), responseCache)
      | Inr diaryData \<Rightarrow>
          (case requestIdentifier_server1 diaryData of
             Inl e \<Rightarrow> ((Inl e, []), responseCache)
           | Inr u \<Rightarrow>
               (case validate_diaryData diaryData of
                  Inl err \<Rightarrow> ((Inr (bad_request err (BTimeText timeTakenMs)), []), responseCache)
                | Inr (diaryNo, year) \<Rightarrow>
                    (case getCaseDetailsProcess_server1 MAX_ATTEMPTS pf w diaryNo year responseCache of
                       ((Inr ajaxJsonResponse, evs), responseCache') \<Rightarrow>
                         ((Inr \<lparr>http_status = 200,
                                http_body = [(''success'', BBool True), (''data'', BJson ajaxJsonResponse),
                                             (''timeTakenMs'', BTimeText timeTakenMs),
                                             (''cached'', BBool (cache_has responseCache' (diaryNo @ ''/'' @ year)))]\<rparr>,
                           evs), responseCache')
                     | ((Inl e, evs), responseCache') \<Rightarrow>
                         ((Inr (server_error (FailedToRetrieve e) (BTimeText timeTakenMs)), evs),
                          responseCache')))))"

text \<open>
  The second unnamed file, 300-377: the normalizing handler.  \<open>respond_normalized\<close> is
  the body of its \<open>try\<close> block after the lookup has returned \<open>sourceResponse\<close>.  An
  exception in it lands in the \<open>catch\<close> of the handler, which answers 500: an exception
  of the parser, and the one of the template literal that logs \<open>errorMessage\<close> (line 350)
  before the 422 is sent.
\<close>

definition source_error_message :: "jsval \<Rightarrow> jsval" where
  \<comment> \<open>\<open>(data && (data.message || data.html)) || "Failed to retrieve details: Source reported an error."\<close>\<close>
  "source_error_message sourceResponse =
     (let d = js_get sourceResponse ''data'';
          m = (if truthy d
               then (if truthy (js_get d ''message'') then js_get d ''message'' else js_get d ''html'')
               else d)
      in if truthy m then m else JStr ''Failed to retrieve details: Source reported an error.'')"

definition respond_normalized :: "platform \<Rightarrow> real \<Rightarrow> jsval \<Rightarrow> http_response" where
  "respond_normalized pf timeTakenMs sourceResponse =
     (if truthy sourceResponse \<and> js_get sourceResponse ''success'' = JBool True
         \<and> truthy (js_get sourceResponse ''data'')
         \<and> truthy (js_get (js_get sourceResponse ''data'') ''resultsHtml'')
      then
        (case parseCaseDetailsHtml pf (js_get (js_get sourceResponse ''data'') ''resultsHtml'') of
           Inr structuredCaseData \<Rightarrow>
             \<lparr>http_status = 200,
              http_body = [(''success'', BBool True), (''data'', BCases structuredCaseData),
                           (''pagination'', BJson (js_get (js_get sourceResponse ''data'') ''pagination'')),
                           (''timeTakenMs'', BTime timeTakenMs)]\<rparr>
         | Inl e \<Rightarrow> server_error (FailedToRetrieve e) (BTime timeTakenMs))
      else if truthy sourceResponse \<and> js_get sourceResponse ''success'' = JBool False
      then
        (let errorMessage = source_error_message sourceResponse in
         case template_literal errorMessage of
           Inl e \<Rightarrow> server_error (FailedToRetrieve e) (BTime timeTakenMs)
         | Inr u \<Rightarrow>
             \<lparr>http_status = 422,
              http_body = [(''success'', BBool False),
                           (''error'', BError (SourceReported errorMessage)),
                           (''timeTakenMs'', BTime timeTakenMs)]\<rparr>)
      else server_error UnexpectedStructure (BTime timeTakenMs))"

definition api_case_details_normalizing ::
  "platform \<Rightarrow> world \<Rightarrow> real \<Rightarrow> jsval \<Rightarrow> http_response eff" where
  "api_case_details_normalizing pf w timeTakenMs body =
     (case destructure_diaryData body of
        Inl e \<Rightarrow> (Inl e, [])
      | Inr diaryData \<Rightarrow>
          (case log_api_call_start diaryData of
             Inl e \<Rightarrow> (Inl e, [])
           | Inr u \<Rightarrow>
               (case validate_diaryData diaryData of
                  Inl err \<Rightarrow> (Inr (bad_request err (BTime timeTakenMs)), [])
                | Inr (diaryNo, year) \<Rightarrow>
                    (case getCaseDetailsProcess_part pf w diaryNo year of
                       (Inr sourceResponse, evs) \<Rightarrow>
                         (Inr (respond_normalized pf timeTakenMs sourceResponse), evs)
                     | (Inl e, evs) \<Rightarrow>
                         (Inr (server_error (FailedToRetrieve e) (BTime timeTakenMs)), evs)))))"

section \<open>The words of the specification\<close>

text \<open>
  The specification's side of the comparisons below.  A text contains a
  signed-integer substring when some part of it matches \<open>-?\d+\<close>.  The first such
  substring starts where no match starts earlier (no digit stands before it, and when it
  starts with a digit no minus sign stands right before it) and takes all the digits that
  follow.
\<close>

definition contains_signed_int :: "string \<Rightarrow> bool" where
  "contains_signed_int text = (\<exists>pre m post. text = pre @ m @ post \<and> is_signed_int m)"

definition first_signed_int :: "string \<Rightarrow> string \<Rightarrow> bool" where
  "first_signed_int text m =
     (\<exists>pre post. text = pre @ m @ post \<and> is_signed_int m
        \<and> \<not> list_ex is_digit pre
        \<and> \<not> (pre \<noteq> [] \<and> last pre = CHR ''-'' \<and> is_digit (hd m))
        \<and> \<not> (post \<noteq> [] \<and> is_digit (hd post)))"

text \<open>A string matches \<open>^\d+/\d{4}$\<close>: digits, at least one, a slash, and four digits.\<close>

definition matches_diary_pattern :: "string \<Rightarrow> bool" where
  "matches_diary_pattern s =
     (\<exists>d y. s = d @ ''/'' @ y \<and> d \<noteq> [] \<and> list_all is_digit d
            \<and> length y = 4 \<and> list_all is_digit y)"

text \<open>
  The hidden inputs of a document whose name begins with \<open>tok_\<close>, in document order, and
  what it is for one of them to have both a non-empty name and a non-empty value.
\<close>

definition is_token_input :: "node \<Rightarrow> bool" where
  "is_token_input e =
     (case e of Element t a cs \<Rightarrow> sel_token_input 0 t a | TextNode s \<Rightarrow> False)"

definition token_inputs :: "node list \<Rightarrow> node list" where
  "token_inputs doc = filter is_token_input (elements doc)"

definition has_name_and_value :: "node \<Rightarrow> bool" where
  "has_name_and_value e = (truthy_str (attr e ''name'') \<and> truthy_str (attr e ''value''))"

text \<open>A text contains the pattern \<open>Registered on DD-MM-YYYY\<close> when it matches somewhere.\<close>

definition contains_registered_on :: "string \<Rightarrow> bool" where
  "contains_registered_on text = (\<exists>pre rest. text = pre @ rest \<and> match_registered_at rest \<noteq> None)"

text \<open>
  A results fragment has no record for the single-record parser when its table has no
  rows, or the diary-number cell of its first row is empty.
\<close>

definition no_record :: "node list \<Rightarrow> bool" where
  "no_record doc =
     (select_in sel_case_rows 1 doc = []
      \<or> trim (sel_text (find_in (take 1 (select_in sel_case_rows 1 doc)) [sel_td_nth_child 2])) = [])"

section \<open>Sample worlds\<close>

text \<open>Concrete platforms and worlds on which the theorems below are run.\<close>

definition sample_platform :: platform where
  "sample_platform =
     \<lparr>cheerio_load = (\<lambda>s. []),
      cheerio_load_other = (\<lambda>v. Inl (Thrown ''TypeError'' ''not a string'')),
      url_href = (\<lambda>rel base. Inr (base @ rel)),
      url_search_get = (\<lambda>u k. None)\<rparr>"

definition oracle_world :: "string \<Rightarrow> world" where
  \<comment> \<open>the network is down; the oracle always replies \<open>text\<close>\<close>
  "oracle_world text =
     \<lparr>fetch = (\<lambda>n url. Inl (Thrown ''TypeError'' ''fetch failed'')),
      generateContent = (\<lambda>n image. Inr text),
      date_now = (\<lambda>n k. ''0''),
      math_random = (\<lambda>n. 0)\<rparr>"

text \<open>
  A run of the retry loop, attempt by attempt.  \<open>cycles_run MAX_ATTEMPTS ok\<close> is the number
  of attempt cycles of a run in which attempt \<open>n\<close> succeeds when \<open>ok n\<close>: the first
  successful attempt ends the run, and attempt \<open>MAX_ATTEMPTS\<close> ends it in any case.
  \<open>cycles_trace k events delaySeconds\<close> is the trace of \<open>k\<close> cycles: the events of attempt
  \<open>n\<close>, and between them and those of attempt \<open>n + 1\<close> a sleep of \<open>delaySeconds n\<close>.
\<close>

definition succeeded :: "'a eff \<Rightarrow> bool" where
  "succeeded r = (case fst r of Inr v \<Rightarrow> True | Inl e \<Rightarrow> False)"

definition cycles_run :: "nat \<Rightarrow> (nat \<Rightarrow> bool) \<Rightarrow> nat" where
  "cycles_run MAX_ATTEMPTS ok =
     (case find ok [1..<MAX_ATTEMPTS] of Some k \<Rightarrow> k | None \<Rightarrow> MAX_ATTEMPTS)"

definition cycles_trace :: "nat \<Rightarrow> (nat \<Rightarrow> event list) \<Rightarrow> (nat \<Rightarrow> real) \<Rightarrow> event list" where
  "cycles_trace k events delaySeconds =
     concat (map (\<lambda>n. events n @ (if n < k then [EvSleep (delaySeconds n)] else [])) [1..<Suc k])"

text \<open>
  The skeleton of a trace: its page fetches, one at the start of every attempt cycle,
  and its sleeps.
\<close>

fun is_sleep :: "event \<Rightarrow> bool" where
  "is_sleep (EvSleep d) = True"
| "is_sleep ev = False"

fun is_fetch_html :: "event \<Rightarrow> bool" where
  "is_fetch_html (EvFetchHtml url) = True"
| "is_fetch_html ev = False"

fun is_cache_set :: "event \<Rightarrow> bool" where
  "is_cache_set (EvCacheSet k v) = True"
| "is_cache_set ev = False"

definition skeleton :: "event list \<Rightarrow> event list" where
  "skeleton evs = filter (\<lambda>ev. is_fetch_html ev \<or> is_sleep ev) evs"

text \<open>
  The skeleton of \<open>MAX_ATTEMPTS\<close> cycles with a sleep between consecutive ones and none
  after the last: attempt \<open>n\<close> fetches the page at \<open>url n\<close>.
\<close>

definition exhausted_skeleton :: "nat \<Rightarrow> (nat \<Rightarrow> string) \<Rightarrow> (nat \<Rightarrow> real) \<Rightarrow> event list" where
  "exhausted_skeleton MAX_ATTEMPTS url delaySeconds =
     concat (map (\<lambda>n. EvFetchHtml (url n) # (if n < MAX_ATTEMPTS then [EvSleep (delaySeconds n)] else []))
                 [1..<Suc MAX_ATTEMPTS])"

definition failing_world :: world where
  \<comment> \<open>attempt \<open>n\<close> gets the status \<open>500 + n\<close> for every request\<close>
  "failing_world =
     \<lparr>fetch = (\<lambda>n url. Inr \<lparr>resp_ok = False, resp_status = 500 + n, resp_text = ''busy'',
                               resp_json = Inl (Thrown ''SyntaxError'' ''Unexpected token'')\<rparr>),
      generateContent = (\<lambda>n image. Inr ''11''),
      date_now = (\<lambda>n k. ''1700000000000''),
      math_random = (\<lambda>n. 1 / 2)\<rparr>"

definition hidden_input :: "string \<Rightarrow> string \<Rightarrow> node" where
  "hidden_input n v = Element ''input'' [(''type'', ''hidden''), (''name'', n), (''value'', v)] []"

definition token_page :: "node list" where
  \<comment> \<open>a page with a form that holds the captcha image, the captcha id and two tokens\<close>
  "token_page =
     [Element ''html'' []
        [Element ''body'' []
           [Element ''form'' []
              [Element ''img'' [(''id'', ''siwp_captcha_image_0''), (''src'', ''?_siwp_captcha&id=77'')] [],
               Element ''input'' [(''type'', ''hidden''), (''id'', ''input_siwp_captcha_id_0''),
                                  (''name'', ''scid''), (''value'', ''77'')] [],
               TextNode ''Diary No'',
               hidden_input ''tok_abc'' ''xyz'',
               hidden_input ''tok_def'' ''uvw'']]]]"

definition two_token_page :: "node list" where
  \<comment> \<open>the first token input has an empty value, the second is complete\<close>
  "two_token_page =
     [Element ''html'' []
        [Element ''body'' [] [hidden_input ''tok_a'' '''', hidden_input ''tok_b'' ''v'']]]"

definition shouting_page :: "node list" where
  \<comment> \<open>a page whose token input spells its type in capitals\<close>
  "shouting_page =
     [Element ''input'' [(''type'', ''HIDDEN''), (''name'', ''tok_abc''), (''value'', ''xyz'')] []]"

definition page_platform :: "node list \<Rightarrow> platform" where
  \<comment> \<open>every text loads as \<open>doc\<close>; every URL has the parameter \<open>id=77\<close>\<close>
  "page_platform doc =
     \<lparr>cheerio_load = (\<lambda>s. doc),
      cheerio_load_other = (\<lambda>v. Inl (Thrown ''TypeError'' ''not a string'')),
      url_href = (\<lambda>rel base. Inr (base @ rel)),
      url_search_get = (\<lambda>u k. if k = ''id'' then Some ''77'' else None)\<rparr>"

definition site_world :: "jsval \<Rightarrow> world" where
  \<comment> \<open>the site serves the page and the image, the oracle answers \<open>11\<close>, and the final
      request gets a 200 whose body parses to \<open>reply\<close>\<close>
  "site_world reply =
     \<lparr>fetch = (\<lambda>n url.
         if prefix AJAX_URL_BASE url
         then Inr \<lparr>resp_ok = True, resp_status = 200, resp_text = ''(json)'', resp_json = Inr reply\<rparr>
         else Inr \<lparr>resp_ok = True, resp_status = 200, resp_text = ''(page or image)'',
                   resp_json = Inl (Thrown ''SyntaxError'' ''Unexpected token'')\<rparr>),
      generateContent = (\<lambda>n image. Inr ''11''),
      date_now = (\<lambda>n k. ''1700000000000''),
      math_random = (\<lambda>n. 1 / 2)\<rparr>"

definition td :: "string \<Rightarrow> node" where
  "td s = Element ''td'' [] [TextNode s]"

definition no_date_cells :: "node list" where
  \<comment> \<open>seven cells; the case text has no date and two spaces in a row\<close>
  "no_date_cells =
     [td ''2'', td ''2445/2023'', td ''SLP(C)  No. 7/2021'', td ''C'', td ''D'', td ''DISPOSED'',
      td '''']"

definition results_fragment :: "node list" where
  \<comment> \<open>a results table: a full row with a registration date, a row of three cells, and a
      full row without a date\<close>
  "results_fragment =
     [Element ''div'' [(''class'', ''distTableContent'')]
        [Element ''table'' []
           [Element ''tbody'' []
              [Element ''tr'' []
                 [td ''1'', td ''2444/2023'', td '' W.P.(C) No. 123/2020 Registered on 05-01-2020 '',
                  td ''A'', td ''B'', td ''PENDING'',
                  Element ''td'' [] [Element ''a'' [(''class'', ''viewCnrDetails''), (''href'', ''view/1'')] []]],
               Element ''tr'' [] [td ''x'', td ''y'', td ''z''],
               Element ''tr'' [] no_date_cells]]]]"

definition nbsp_fragment :: "node list" where
  \<comment> \<open>a results table whose \<open>div\<close> has two class names separated by a no-break space\<close>
  "nbsp_fragment =
     [Element ''div'' [(''class'', ''x'' @ [CHR 0xA0] @ ''distTableContent'')]
        [Element ''table'' []
           [Element ''tbody'' []
              [Element ''tr'' []
                 [td ''1'', td ''2444/2023'', td ''W.P.(C) No. 123/2020'',
                  td ''A'', td ''B'', td ''PENDING'', td '''']]]]]"

definition site_token :: token where
  \<comment> \<open>the token of \<open>token_page\<close>\<close>
  "site_token = \<lparr>tokenName = ''tok_abc'', tokenValue = ''xyz''\<rparr>"

definition rejected_envelope :: jsval where
  \<comment> \<open>the site's reply to a wrong captcha\<close>
  "rejected_envelope =
     JObj [(''success'', JBool False), (''data'', JObj [(''message'', JStr ''The captcha is incorrect'')])]"

definition results_envelope :: jsval where
  \<comment> \<open>the site's reply with a results fragment\<close>
  "results_envelope =
     JObj [(''success'', JBool True),
           (''data'', JObj [(''resultsHtml'', JStr ''<div class=distTableContent>...</div>''),
                            (''pagination'', JStr ''1'')])]"

definition bare_success_envelope :: jsval where
  \<comment> \<open>a reply that reports success and carries no results fragment\<close>
  "bare_success_envelope = JObj [(''success'', JBool True), (''data'', JObj [])]"

definition unprintable_body :: jsval where
  \<comment> \<open>the request body \<open>{"diaryData": {"toString": null}}\<close>\<close>
  "unprintable_body = JObj [(''diaryData'', JObj [(''toString'', JNull)])]"

definition diary_body :: "string \<Rightarrow> jsval" where
  \<comment> \<open>the request body \<open>{"diaryData": s}\<close>\<close>
  "diary_body s = JObj [(''diaryData'', JStr s)]"

definition no_records_envelope :: jsval where
  \<comment> \<open>the site reports success and sends a fragment without table rows\<close>
  "no_records_envelope =
     JObj [(''success'', JBool True),
           (''data'', JObj [(''resultsHtml'', JStr ''<div class=distTableContent>No records found</div>'')])]"

section \<open>Properties of the answer post-processor\<close>

lemma digit_not_space: "is_digit c \<Longrightarrow> \<not> is_space c"
  unfolding is_digit_def is_space_def by (elim disjE rev_mp[of "c \<in> _"]) auto

lemma space_not_digit: "is_space c \<Longrightarrow> \<not> is_digit c"
  using digit_not_space by blast

lemma minus_not_digit: "\<not> is_digit CHR ''-''"
  by (simp add: is_digit_def)

lemma hd_digit_ex: "cs \<noteq> [] \<Longrightarrow> is_digit (hd cs) \<Longrightarrow> list_ex is_digit cs"
  by (cases cs) auto

lemma list_ex_dropWhile_space:
  "list_ex is_digit (dropWhile is_space s) = list_ex is_digit s"
  by (induction s) (auto simp: space_not_digit)

lemma list_ex_digit_trim: "list_ex is_digit (trim s) = list_ex is_digit s"
proof -
  have "list_ex is_digit (trim s) = list_ex is_digit (dropWhile is_space (rev (dropWhile is_space s)))"
    unfolding trim_def by (simp add: list_ex_iff)
  also have "\<dots> = list_ex is_digit (rev (dropWhile is_space s))"
    by (rule list_ex_dropWhile_space)
  also have "\<dots> = list_ex is_digit (dropWhile is_space s)"
    by (simp add: list_ex_iff)
  also have "\<dots> = list_ex is_digit s"
    by (rule list_ex_dropWhile_space)
  finally show ?thesis .
qed

lemma match_signed_int_None: "(match_signed_int s = None) = (\<not> list_ex is_digit s)"
  by (induction s) (auto simp: hd_digit_ex)

lemma takeWhile_digits_signed: "is_digit c \<Longrightarrow> is_signed_int (c # takeWhile is_digit cs)"
  using minus_not_digit
  by (auto simp: is_signed_int_def test_digits_def list_all_iff dest: set_takeWhileD)

lemma match_signed_int_first:
  "match_signed_int s = Some m \<Longrightarrow> first_signed_int s m"
proof (induction s)
  case Nil
  then show ?case by simp
next
  case (Cons c cs)
  show ?case
  proof (cases "c = CHR ''-'' \<and> cs \<noteq> [] \<and> is_digit (hd cs)")
    case True
    then obtain d ds where cs: "cs = d # ds" and d: "is_digit d" by (cases cs) auto
    from True Cons.prems have m: "m = c # takeWhile is_digit cs" by simp
    have "c # cs = [] @ m @ dropWhile is_digit cs" by (simp add: m)
    moreover have "is_signed_int m"
      using True d by (auto simp: m cs is_signed_int_def test_digits_def list_all_iff dest: set_takeWhileD)
    moreover have "\<not> (dropWhile is_digit cs \<noteq> [] \<and> is_digit (hd (dropWhile is_digit cs)))"
      using hd_dropWhile[of is_digit cs] by auto
    ultimately show ?thesis unfolding first_signed_int_def by (intro exI[of _ "[]"] exI[of _ "dropWhile is_digit cs"]) simp
  next
    case False
    show ?thesis
    proof (cases "is_digit c")
      case True
      with False Cons.prems have m: "m = c # takeWhile is_digit cs" by auto
      have "c # cs = [] @ m @ dropWhile is_digit cs" by (simp add: m)
      moreover have "is_signed_int m" using True by (simp add: m takeWhile_digits_signed)
      moreover have "\<not> (dropWhile is_digit cs \<noteq> [] \<and> is_digit (hd (dropWhile is_digit cs)))"
        using hd_dropWhile[of is_digit cs] by auto
      ultimately show ?thesis unfolding first_signed_int_def by (intro exI[of _ "[]"] exI[of _ "dropWhile is_digit cs"]) simp
    next
      case nd: False
      with False Cons.prems have "match_signed_int cs = Some m" by auto
      from Cons.IH[OF this] obtain pre post where
        p: "cs = pre @ m @ post" "is_signed_int m" "\<not> list_ex is_digit pre"
           "\<not> (pre \<noteq> [] \<and> last pre = CHR ''-'' \<and> is_digit (hd m))"
           "\<not> (post \<noteq> [] \<and> is_digit (hd post))"
        unfolding first_signed_int_def by blast
      have mne: "m \<noteq> []" using p(2) by (auto simp: is_signed_int_def)
      have "c # cs = (c # pre) @ m @ post" using p(1) by simp
      moreover have "\<not> list_ex is_digit (c # pre)" using nd p(3) by simp
      moreover have "\<not> (c # pre \<noteq> [] \<and> last (c # pre) = CHR ''-'' \<and> is_digit (hd m))"
      proof (cases "pre = []")
        case True
        then have "cs = m @ post" using p(1) by simp
        then have "hd cs = hd m" "cs \<noteq> []" using mne by auto
        with False show ?thesis using True by auto
      next
        case False
        then show ?thesis using p(4) by simp
      qed
      ultimately show ?thesis unfolding first_signed_int_def using p(2,5)
        by (intro exI[of _ "c # pre"] exI[of _ post]) simp
    qed
  qed
qed

lemma contains_signed_int_iff: "contains_signed_int text = list_ex is_digit text"
proof
  assume "contains_signed_int text"
  then obtain pre m post where t: "text = pre @ m @ post" and m: "is_signed_int m"
    unfolding contains_signed_int_def by blast
  from m have "list_ex is_digit m"
    by (auto simp: is_signed_int_def test_digits_def list_all_iff list_ex_iff split: list.splits if_splits) 
  then show "list_ex is_digit text" using t by (auto simp: list_ex_iff)
next
  assume "list_ex is_digit text"
  then obtain c where c: "c \<in> set text" "is_digit c" by (auto simp: list_ex_iff)
  then obtain pre post where "text = pre @ c # post" by (meson split_list)
  then have "text = pre @ [c] @ post" by simp
  moreover have "is_signed_int [c]" using c(2) minus_not_digit by (auto simp: is_signed_int_def test_digits_def)
  ultimately show "contains_signed_int text" unfolding contains_signed_int_def by blast
qed

lemma is_signed_int_nonempty: "is_signed_int m \<Longrightarrow> m \<noteq> []"
  by (auto simp: is_signed_int_def)

lemma solve_text:
  "generateContent w n img = Inr text \<Longrightarrow>
   fst (solveCaptchaWithGemini w n img) =
     (case match_signed_int (trim text) of
        Some m \<Rightarrow> if m \<noteq> [] then Inr m else Inl (CaptchaSolvingFailed NoClearAnswer)
      | None \<Rightarrow> Inl (CaptchaSolvingFailed NoClearAnswer))"
  by (auto simp: solveCaptchaWithGemini_def Let_def split: option.splits)

lemma solve_no_int:
  assumes "generateContent w n img = Inr text" and "\<not> contains_signed_int text"
  shows "fst (solveCaptchaWithGemini w n img) = Inl (CaptchaSolvingFailed NoClearAnswer)"
proof -
  have "match_signed_int (trim text) = None"
    using assms(2) by (simp add: match_signed_int_None list_ex_digit_trim contains_signed_int_iff)
  then show ?thesis by (simp add: solve_text[OF assms(1)])
qed

lemma solve_first_int:
  assumes "generateContent w n img = Inr text" and "contains_signed_int text"
  shows "\<exists>m. fst (solveCaptchaWithGemini w n img) = Inr m \<and> first_signed_int (trim text) m"
proof -
  have "match_signed_int (trim text) \<noteq> None"
    using assms(2) by (simp add: match_signed_int_None list_ex_digit_trim contains_signed_int_iff)
  then obtain m where m: "match_signed_int (trim text) = Some m" by auto
  then have f: "first_signed_int (trim text) m" by (rule match_signed_int_first)
  then have "m \<noteq> []" unfolding first_signed_int_def using is_signed_int_nonempty by blast
  then show ?thesis using m f by (simp add: solve_text[OF assms(1)])
qed

text \<open>
  C6.  The post-processor of the solver adapter returns the first substring of the
  oracle's reply that matches \<open>-?\d+\<close>: on the replies \<open>11\<close>, \<open>The answer is 11.\<close> and
  \<open>-3\<close> it returns \<open>11\<close>, \<open>11\<close> and \<open>-3\<close>; on every reply without such a substring the
  adapter fails with an error (so the attempt fails) instead of returning an answer; and
  on every reply with one it returns the first.
\<close>

theorem C6_answer_post_processor:
  "(generateContent w n img = Inr ''11'' \<longrightarrow>
      fst (solveCaptchaWithGemini w n img) = Inr ''11'')
   \<and> (generateContent w n img = Inr ''The answer is 11.'' \<longrightarrow>
      fst (solveCaptchaWithGemini w n img) = Inr ''11'')
   \<and> (generateContent w n img = Inr ''-3'' \<longrightarrow>
      fst (solveCaptchaWithGemini w n img) = Inr ''-3'')
   \<and> (generateContent w n img = Inr text \<and> \<not> contains_signed_int text \<longrightarrow>
      fst (solveCaptchaWithGemini w n img) = Inl (CaptchaSolvingFailed NoClearAnswer))
   \<and> (generateContent w n img = Inr text \<and> contains_signed_int text \<longrightarrow>
      (\<exists>m. fst (solveCaptchaWithGemini w n img) = Inr m \<and> first_signed_int (trim text) m))"
proof (intro conjI impI)
  assume a: "generateContent w n img = Inr ''11''"
  show "fst (solveCaptchaWithGemini w n img) = Inr ''11''"
    by (simp add: solve_text[OF a] trim_def is_space_def is_digit_def)
next
  assume a: "generateContent w n img = Inr ''The answer is 11.''"
  show "fst (solveCaptchaWithGemini w n img) = Inr ''11''"
    by (simp add: solve_text[OF a] trim_def is_space_def is_digit_def)
next
  assume a: "generateContent w n img = Inr ''-3''"
  show "fst (solveCaptchaWithGemini w n img) = Inr ''-3''"
    by (simp add: solve_text[OF a] trim_def is_space_def is_digit_def)
next
  assume "generateContent w n img = Inr text \<and> \<not> contains_signed_int text"
  then show "fst (solveCaptchaWithGemini w n img) = Inl (CaptchaSolvingFailed NoClearAnswer)"
    using solve_no_int by blast
next
  assume "generateContent w n img = Inr text \<and> contains_signed_int text"
  then show "\<exists>m. fst (solveCaptchaWithGemini w n img) = Inr m \<and> first_signed_int (trim text) m"
    using solve_first_int by blast
qed

theorem C6_answer_post_processor_witness:
  "fst (solveCaptchaWithGemini (oracle_world ''I cannot determine this'') 1 ''png'')
     = Inl (CaptchaSolvingFailed NoClearAnswer)
   \<and> fst (solveCaptchaWithGemini (oracle_world ''The answer is 11.'') 1 ''png'') = Inr ''11''
   \<and> (\<exists>m. fst (solveCaptchaWithGemini (oracle_world ''7 - 12 = -5'') 1 ''png'') = Inr m
          \<and> first_signed_int (trim ''7 - 12 = -5'') m)"
proof -
  have g: "\<And>t. generateContent (oracle_world t) 1 ''png'' = Inr t"
    by (simp add: oracle_world_def)
  have no: "\<not> contains_signed_int ''I cannot determine this''"
    by (simp add: contains_signed_int_iff is_digit_def)
  have yes: "contains_signed_int ''7 - 12 = -5''"
    by (simp add: contains_signed_int_iff is_digit_def)
  note a = C6_answer_post_processor[of "oracle_world ''I cannot determine this''" 1 "''png''"
            "''I cannot determine this''"]
  note b = C6_answer_post_processor[of "oracle_world ''The answer is 11.''" 1 "''png''" "''11''"]
  note c = C6_answer_post_processor[of "oracle_world ''7 - 12 = -5''" 1 "''png''" "''7 - 12 = -5''"]
  have 1: "fst (solveCaptchaWithGemini (oracle_world ''I cannot determine this'') 1 ''png'')
     = Inl (CaptchaSolvingFailed NoClearAnswer)"
    by (rule a[THEN conjunct2, THEN conjunct2, THEN conjunct2, THEN conjunct1, rule_format])
       (rule conjI[OF g no])
  have 2: "fst (solveCaptchaWithGemini (oracle_world ''The answer is 11.'') 1 ''png'') = Inr ''11''"
    by (rule b[THEN conjunct2, THEN conjunct1, rule_format]) (rule g)
  have 3: "\<exists>m. fst (solveCaptchaWithGemini (oracle_world ''7 - 12 = -5'') 1 ''png'') = Inr m
          \<and> first_signed_int (trim ''7 - 12 = -5'') m"
    by (rule c[THEN conjunct2, THEN conjunct2, THEN conjunct2, THEN conjunct2, rule_format])
       (rule conjI[OF g yes])
  show ?thesis by (rule conjI[OF 1 conjI[OF 2 3]])
qed

section \<open>Properties of the retry loop\<close>

lemma retry_loop_done:
  "\<not> attempts < M \<Longrightarrow> retry_loop M attempt delay attempts lastError s = ((Inl lastError, []), s)"
  by (subst retry_loop.simps) simp

lemma retry_loop_step_Inr:
  "attempts < M \<Longrightarrow> attempt (Suc attempts) s = ((Inr v, evs), s') \<Longrightarrow>
   retry_loop M attempt delay attempts lastError s = ((Inr v, evs), s')"
  by (subst retry_loop.simps) simp

lemma retry_loop_step_Inl:
  "attempts < M \<Longrightarrow> attempt (Suc attempts) s = ((Inl e, evs), s') \<Longrightarrow>
   retry_loop M attempt delay attempts lastError s =
     (case retry_loop M attempt delay (Suc attempts) e s' of
        ((r, evs'), s'') \<Rightarrow>
          ((r, evs @ (if Suc attempts < M then [EvSleep (delay (Suc attempts))] else []) @ evs'), s''))"
  by (subst retry_loop.simps) simp

text \<open>When every remaining attempt fails, the loop ends with the error of the last one.\<close>

lemma retry_loop_all_fail_error:
  assumes "\<And>n s. a < n \<Longrightarrow> n \<le> M \<Longrightarrow> fst (fst (attempt n s)) = Inl (err n)"
  shows "fst (fst (retry_loop M attempt delay a lastError s)) = Inl (if a < M then err M else lastError)"
  using assms
proof (induction "M - a" arbitrary: a lastError s)
  case 0
  then show ?case by (simp add: retry_loop_done)
next
  case (Suc k)
  then have lt: "a < M" by simp
  obtain r evs s' where att: "attempt (Suc a) s = ((r, evs), s')"
    by (metis surj_pair)
  have "fst (fst (attempt (Suc a) s)) = Inl (err (Suc a))"
    using Suc.prems lt by simp
  with att have r: "r = Inl (err (Suc a))" by simp
  have k: "k = M - Suc a" using Suc.hyps(2) by simp
  have IH: "fst (fst (retry_loop M attempt delay (Suc a) (err (Suc a)) s')) =
        Inl (if Suc a < M then err M else err (Suc a))"
    by (rule Suc.hyps(1)[OF k]) (use Suc.prems in simp)
  have "Suc a < M \<or> Suc a = M" using lt by auto
  then show ?case
    using IH lt by (auto simp: retry_loop_step_Inl[where attempt=attempt and attempts=a and s=s, OF lt att[unfolded r]] split: prod.splits)
qed

text \<open>... and its skeleton is one page fetch per attempt with the sleeps in between.\<close>

lemma retry_loop_all_fail_skeleton:
  assumes "\<And>n s. a < n \<Longrightarrow> n \<le> M \<Longrightarrow>
             (\<exists>e. fst (fst (attempt n s)) = Inl e) \<and> skeleton (snd (fst (attempt n s))) = [EvFetchHtml (url n)]"
  shows "skeleton (snd (fst (retry_loop M attempt delay a lastError s))) =
         concat (map (\<lambda>n. EvFetchHtml (url n) # (if n < M then [EvSleep (delay n)] else []))
                     [Suc a..<Suc M])"
  using assms
proof (induction "M - a" arbitrary: a lastError s)
  case 0
  then show ?case by (simp add: retry_loop_done skeleton_def)
next
  case (Suc k)
  then have lt: "a < M" by simp
  obtain r evs s' where att: "attempt (Suc a) s = ((r, evs), s')"
    by (metis surj_pair)
  have "(\<exists>e. fst (fst (attempt (Suc a) s)) = Inl e)
        \<and> skeleton (snd (fst (attempt (Suc a) s))) = [EvFetchHtml (url (Suc a))]"
    using Suc.prems lt by simp
  with att obtain e where r: "r = Inl e" and sk: "skeleton evs = [EvFetchHtml (url (Suc a))]" by auto
  have k: "k = M - Suc a" using Suc.hyps(2) by simp
  have IH: "skeleton (snd (fst (retry_loop M attempt delay (Suc a) e s'))) =
         concat (map (\<lambda>n. EvFetchHtml (url n) # (if n < M then [EvSleep (delay n)] else []))
                     [Suc (Suc a)..<Suc M])"
    by (rule Suc.hyps(1)[OF k]) (use Suc.prems in simp)
  have up: "[Suc a..<Suc M] = Suc a # [Suc (Suc a)..<Suc M]"
    using lt by (simp add: upt_conv_Cons)
  show ?case
    using IH sk lt unfolding up
    by (auto simp: retry_loop_step_Inl[where attempt=attempt and attempts=a and s=s, OF lt att[unfolded r]] skeleton_def split: prod.splits)
qed

text \<open>In every run, the \<open>j\<close>-th sleep lasts \<open>delaySeconds j\<close>.\<close>

lemma retry_loop_sleeps:
  assumes "\<And>n s. filter is_sleep (snd (fst (attempt n s))) = []"
  shows "\<exists>k. a + k < max M (Suc a) \<and>
           filter is_sleep (snd (fst (retry_loop M attempt delay a lastError s))) =
           map (\<lambda>n. EvSleep (delay n)) [Suc a..<Suc a + k]"
proof (induction "M - a" arbitrary: a lastError s)
  case 0
  then show ?case by (intro exI[of _ 0]) (simp add: retry_loop_done)
next
  case (Suc j)
  then have lt: "a < M" by simp
  obtain r evs s' where att: "attempt (Suc a) s = ((r, evs), s')"
    by (metis surj_pair)
  have q: "filter is_sleep evs = []" using assms[of "Suc a" s] att by simp
  show ?case
  proof (cases r)
    case (Inr v)
    then show ?thesis using q lt
      by (intro exI[of _ 0]) (simp add: retry_loop_step_Inr[where attempt=attempt and attempts=a and s=s, OF lt att[unfolded Inr]])
  next
    case (Inl e)
    have j: "j = M - Suc a" using Suc.hyps(2) by simp
    from Suc.hyps(1)[OF j, of e s'] obtain k where
      k: "Suc a + k < max M (Suc (Suc a))"
         "filter is_sleep (snd (fst (retry_loop M attempt delay (Suc a) e s'))) =
          map (\<lambda>n. EvSleep (delay n)) [Suc (Suc a)..<Suc (Suc a) + k]"
      by blast
    show ?thesis
    proof (cases "Suc a < M")
      case True
      have up: "[Suc a..<Suc a + Suc k] = Suc a # [Suc (Suc a)..<Suc (Suc a) + k]"
        by (simp add: upt_conv_Cons)
      have "a + Suc k < max M (Suc a)" using k(1) True by simp
      moreover have "filter is_sleep (snd (fst (retry_loop M attempt delay a lastError s))) =
           map (\<lambda>n. EvSleep (delay n)) [Suc a..<Suc a + Suc k]"
        unfolding up using k(2) q True
        by (auto simp: retry_loop_step_Inl[where attempt=attempt and attempts=a and s=s, OF lt att[unfolded Inl]] split: prod.splits)
      ultimately show ?thesis by blast
    next
      case False
      then have "retry_loop M attempt delay (Suc a) e s' = ((Inl e, []), s')"
        by (simp add: retry_loop_done)
      then show ?thesis using q False lt
        by (intro exI[of _ 0]) (simp add: retry_loop_step_Inl[where attempt=attempt and attempts=a and s=s, OF lt att[unfolded Inl]])
    qed
  qed
qed

section \<open>Properties of the attempt cycles\<close>

lemma fst_bind_eff:
  "fst (bind_eff m f) = (case fst m of Inl e \<Rightarrow> Inl e | Inr x \<Rightarrow> fst (f x))"
  by (auto simp: bind_eff_def split: prod.splits sum.splits)

lemma snd_bind_eff:
  "snd (bind_eff m f) = snd m @ (case fst m of Inl e \<Rightarrow> [] | Inr x \<Rightarrow> snd (f x))"
  by (auto simp: bind_eff_def split: prod.splits sum.splits)

lemma skeleton_append: "skeleton (xs @ ys) = skeleton xs @ skeleton ys"
  by (simp add: skeleton_def)

lemma skeleton_bind_eff:
  "(\<And>x. skeleton (snd (f x)) = []) \<Longrightarrow> skeleton (snd (bind_eff m f)) = skeleton (snd m)"
  by (simp add: snd_bind_eff skeleton_append split: sum.splits) (simp add: skeleton_def)

lemma skeleton_pure_eff: "skeleton (snd (pure_eff r)) = []"
  by (simp add: pure_eff_def skeleton_def)

lemma skeleton_if:
  "skeleton (snd a) = [] \<Longrightarrow> skeleton (snd b) = [] \<Longrightarrow> skeleton (snd (if c then a else b)) = []"
  by simp

lemma skeleton_fetchHtml: "skeleton (snd (fetchHtml w n url)) = [EvFetchHtml url]"
  by (simp add: fetchHtml_def skeleton_def)

lemma skeleton_fetchHtml1: "skeleton (snd (fetchHtml1 w n url)) = [EvFetchHtml url]"
  by (simp add: fetchHtml1_def skeleton_def)

lemma skeleton_fetchImageBuffer: "skeleton (snd (fetchImageBuffer w n url)) = []"
  by (simp add: fetchImageBuffer_def skeleton_def)

lemma skeleton_fetchImageBuffer1: "skeleton (snd (fetchImageBuffer1 w n url)) = []"
  by (simp add: fetchImageBuffer1_def skeleton_def)

lemma skeleton_solve: "skeleton (snd (solveCaptchaWithGemini w n img)) = []"
  by (simp add: solveCaptchaWithGemini_def skeleton_def)

lemma skeleton_fetchAjax: "skeleton (snd (fetchAjax w n url)) = []"
  by (simp add: fetchAjax_def skeleton_def)

lemma skeleton_fetchAjax1:
  "skeleton (snd (case fetchAjax w n url of
                    (Inl e, evs) \<Rightarrow> (Inl (on_abort t e), evs)
                  | (Inr r, evs) \<Rightarrow> (Inr r, evs))) = []"
  by (simp add: fetchAjax_def skeleton_def split: sum.splits)

lemmas skeleton_steps =
  skeleton_pure_eff skeleton_fetchImageBuffer skeleton_fetchImageBuffer1 skeleton_solve
  skeleton_fetchAjax skeleton_fetchAjax1

lemma skeleton_fetchEnvelope_server:
  "skeleton (snd (fetchEnvelope_server pf w diaryNo year n)) = [EvFetchHtml INITIAL_PAGE_URL]"
  unfolding fetchEnvelope_server_def Let_def
  by (simp add: skeleton_bind_eff skeleton_if skeleton_steps skeleton_fetchHtml)

lemma skeleton_attempt_server:
  "skeleton (snd (attempt_server pf w diaryNo year n)) = [EvFetchHtml INITIAL_PAGE_URL]"
  unfolding attempt_server_def
  by (simp add: skeleton_bind_eff skeleton_if skeleton_steps skeleton_fetchEnvelope_server)

lemma skeleton_attempt_part:
  "skeleton (snd (attempt_part pf w diaryNo year n)) =
     [EvFetchHtml (initialPageUrlWithCacheBuster (date_now w n 0))]"
  unfolding attempt_part_def Let_def
  by (simp add: skeleton_bind_eff skeleton_if skeleton_steps skeleton_fetchHtml)

lemma skeleton_fetchAjaxResponse_server1:
  "skeleton (snd (fetchAjaxResponse_server1 pf w diaryNo year n)) =
     [EvFetchHtml (initialPageUrlWithCacheBuster (date_now w n 0))]"
  unfolding fetchAjaxResponse_server1_def Let_def
  by (simp add: skeleton_bind_eff skeleton_if skeleton_steps skeleton_fetchHtml1)

lemma skeleton_attempt_server1:
  "skeleton (snd (fst (attempt_server1 pf w diaryNo year cacheKey n c))) =
     [EvFetchHtml (initialPageUrlWithCacheBuster (date_now w n 0))]"
  using skeleton_fetchAjaxResponse_server1[of pf w diaryNo year n]
  by (auto simp: attempt_server1_def skeleton_def split: prod.splits sum.splits)

section \<open>Retry exhaustion\<close>

lemma exhausted_skeleton_counts:
  "length (filter is_fetch_html (exhausted_skeleton M url d)) = M"
  "filter is_sleep (exhausted_skeleton M url d) = map (\<lambda>n. EvSleep (d n)) [1..<M]"
proof -
  have a: "\<And>a. length (filter is_fetch_html (concat (map (\<lambda>n. EvFetchHtml (url n) #
             (if n < M then [EvSleep (d n)] else [])) [a..<Suc M]))) = Suc M - a"
  proof -
    fix a show "length (filter is_fetch_html (concat (map (\<lambda>n. EvFetchHtml (url n) #
             (if n < M then [EvSleep (d n)] else [])) [a..<Suc M]))) = Suc M - a"
    proof (induction "Suc M - a" arbitrary: a)
      case 0 then show ?case by simp
    next
      case (Suc k)
      then have "a < Suc M" by simp
      then have up: "[a..<Suc M] = a # [Suc a..<Suc M]" by (simp add: upt_conv_Cons)
      have "k = Suc M - Suc a" using Suc.hyps(2) by simp
      from Suc.hyps(1)[OF this] show ?case unfolding up using \<open>a < Suc M\<close> by simp
    qed
  qed
  show "length (filter is_fetch_html (exhausted_skeleton M url d)) = M"
    unfolding exhausted_skeleton_def using a[of 1] by simp
  have b: "\<And>a. filter is_sleep (concat (map (\<lambda>n. EvFetchHtml (url n) #
             (if n < M then [EvSleep (d n)] else [])) [a..<Suc M])) = map (\<lambda>n. EvSleep (d n)) [a..<M]"
  proof -
    fix a show "filter is_sleep (concat (map (\<lambda>n. EvFetchHtml (url n) #
             (if n < M then [EvSleep (d n)] else [])) [a..<Suc M])) = map (\<lambda>n. EvSleep (d n)) [a..<M]"
    proof (induction "Suc M - a" arbitrary: a)
      case 0 then show ?case by simp
    next
      case (Suc k)
      then have lt: "a < Suc M" by simp
      then have up: "[a..<Suc M] = a # [Suc a..<Suc M]" by (simp add: upt_conv_Cons)
      have "k = Suc M - Suc a" using Suc.hyps(2) by simp
      from Suc.hyps(1)[OF this] show ?case unfolding up using lt
        by (cases "a < M") (simp_all add: upt_conv_Cons)
    qed
  qed
  show "filter is_sleep (exhausted_skeleton M url d) = map (\<lambda>n. EvSleep (d n)) [1..<M]"
    unfolding exhausted_skeleton_def using b[of 1] by simp
qed

text \<open>
  C1.  If every attempt of a lookup fails, with the error \<open>err n\<close> on attempt \<open>n\<close>, then
  \<open>getCaseDetailsProcess\<close> runs exactly \<open>MAX_ATTEMPTS\<close> attempt cycles (5 in server.js, 3 in
  the unnamed files, the configured number in server1.js after a cache miss), sleeps
  after each of them but the last, and raises \<open>err MAX_ATTEMPTS\<close>, the error of the final
  attempt.  (With \<open>MAX_ATTEMPTS\<close> configured as 0 there is no attempt and no sleep, and the
  error is the initial \<open>Process not attempted.\<close>)
\<close>

theorem C1_retry_exhaustion:
  "((\<forall>n. 1 \<le> n \<and> n \<le> 5 \<longrightarrow> fst (attempt_server pf w diaryNo year n) = Inl (err n)) \<longrightarrow>
      fst (getCaseDetailsProcess_server pf w diaryNo year) = Inl (err 5)
      \<and> skeleton (snd (getCaseDetailsProcess_server pf w diaryNo year))
          = exhausted_skeleton 5 (\<lambda>n. INITIAL_PAGE_URL) delaySeconds_server)
   \<and> ((\<forall>n. 1 \<le> n \<and> n \<le> 3 \<longrightarrow> fst (attempt_part pf w diaryNo year n) = Inl (err n)) \<longrightarrow>
      fst (getCaseDetailsProcess_part pf w diaryNo year) = Inl (err 3)
      \<and> skeleton (snd (getCaseDetailsProcess_part pf w diaryNo year))
          = exhausted_skeleton 3 (\<lambda>n. initialPageUrlWithCacheBuster (date_now w n 0))
              (exponentialBackoff w))
   \<and> (1 \<le> MAX_ATTEMPTS \<and> \<not> truthy (cache_get responseCache (diaryNo @ ''/'' @ year))
       \<and> (\<forall>n c. 1 \<le> n \<and> n \<le> MAX_ATTEMPTS \<longrightarrow>
             fst (fst (attempt_server1 pf w diaryNo year (diaryNo @ ''/'' @ year) n c)) = Inl (err n)) \<longrightarrow>
      fst (fst (getCaseDetailsProcess_server1 MAX_ATTEMPTS pf w diaryNo year responseCache))
          = Inl (err MAX_ATTEMPTS)
      \<and> skeleton (snd (fst (getCaseDetailsProcess_server1 MAX_ATTEMPTS pf w diaryNo year responseCache)))
          = exhausted_skeleton MAX_ATTEMPTS (\<lambda>n. initialPageUrlWithCacheBuster (date_now w n 0))
              (exponentialBackoff w))
   \<and> (\<not> truthy (cache_get responseCache (diaryNo @ ''/'' @ year)) \<longrightarrow>
      getCaseDetailsProcess_server1 0 pf w diaryNo year responseCache
        = ((Inl ProcessNotAttempted, []), responseCache))"
proof (intro conjI impI)
  assume "\<not> truthy (cache_get responseCache (diaryNo @ ''/'' @ year))"
  then show "getCaseDetailsProcess_server1 0 pf w diaryNo year responseCache
        = ((Inl ProcessNotAttempted, []), responseCache)"
    by (simp add: getCaseDetailsProcess_server1_def Let_def retry_loop_done)
next
  assume a: "\<forall>n. 1 \<le> n \<and> n \<le> 5 \<longrightarrow> fst (attempt_server pf w diaryNo year n) = Inl (err n)"
  let ?att = "\<lambda>n (s::unit). (attempt_server pf w diaryNo year n, s)"
  have "fst (fst (retry_loop 5 ?att delaySeconds_server 0 ProcessNotAttempted ()))
          = Inl (if 0 < (5::nat) then err 5 else ProcessNotAttempted)"
    by (rule retry_loop_all_fail_error) (use a in simp)
  then show "fst (getCaseDetailsProcess_server pf w diaryNo year) = Inl (err 5)"
    by (simp add: getCaseDetailsProcess_server_def)
  have "skeleton (snd (fst (retry_loop 5 ?att delaySeconds_server 0 ProcessNotAttempted ()))) =
         concat (map (\<lambda>n. EvFetchHtml ((\<lambda>n. INITIAL_PAGE_URL) n) #
                       (if n < 5 then [EvSleep (delaySeconds_server n)] else [])) [Suc 0..<Suc 5])"
    by (rule retry_loop_all_fail_skeleton) (use a in \<open>simp add: skeleton_attempt_server\<close>)
  then show "skeleton (snd (getCaseDetailsProcess_server pf w diaryNo year))
          = exhausted_skeleton 5 (\<lambda>n. INITIAL_PAGE_URL) delaySeconds_server"
    by (simp add: getCaseDetailsProcess_server_def exhausted_skeleton_def)
next
  assume a: "\<forall>n. 1 \<le> n \<and> n \<le> 3 \<longrightarrow> fst (attempt_part pf w diaryNo year n) = Inl (err n)"
  let ?att = "\<lambda>n (s::unit). (attempt_part pf w diaryNo year n, s)"
  have "fst (fst (retry_loop 3 ?att (exponentialBackoff w) 0 ProcessNotAttempted ()))
          = Inl (if 0 < (3::nat) then err 3 else ProcessNotAttempted)"
    by (rule retry_loop_all_fail_error) (use a in simp)
  then show "fst (getCaseDetailsProcess_part pf w diaryNo year) = Inl (err 3)"
    by (simp add: getCaseDetailsProcess_part_def)
  have "skeleton (snd (fst (retry_loop 3 ?att (exponentialBackoff w) 0 ProcessNotAttempted ()))) =
         concat (map (\<lambda>n. EvFetchHtml ((\<lambda>n. initialPageUrlWithCacheBuster (date_now w n 0)) n) #
                       (if n < 3 then [EvSleep (exponentialBackoff w n)] else [])) [Suc 0..<Suc 3])"
    by (rule retry_loop_all_fail_skeleton) (use a in \<open>simp add: skeleton_attempt_part\<close>)
  then show "skeleton (snd (getCaseDetailsProcess_part pf w diaryNo year))
          = exhausted_skeleton 3 (\<lambda>n. initialPageUrlWithCacheBuster (date_now w n 0))
              (exponentialBackoff w)"
    by (simp add: getCaseDetailsProcess_part_def exhausted_skeleton_def)
next
  assume a: "1 \<le> MAX_ATTEMPTS \<and> \<not> truthy (cache_get responseCache (diaryNo @ ''/'' @ year))
       \<and> (\<forall>n c. 1 \<le> n \<and> n \<le> MAX_ATTEMPTS \<longrightarrow>
             fst (fst (attempt_server1 pf w diaryNo year (diaryNo @ ''/'' @ year) n c)) = Inl (err n))"
  let ?att = "attempt_server1 pf w diaryNo year (diaryNo @ ''/'' @ year)"
  have eq: "getCaseDetailsProcess_server1 MAX_ATTEMPTS pf w diaryNo year responseCache =
        retry_loop MAX_ATTEMPTS ?att (exponentialBackoff w) 0 ProcessNotAttempted responseCache"
    using a by (simp add: getCaseDetailsProcess_server1_def Let_def)
  have "fst (fst (retry_loop MAX_ATTEMPTS ?att (exponentialBackoff w) 0 ProcessNotAttempted responseCache))
          = Inl (if 0 < MAX_ATTEMPTS then err MAX_ATTEMPTS else ProcessNotAttempted)"
    by (rule retry_loop_all_fail_error) (use a in simp)
  then show "fst (fst (getCaseDetailsProcess_server1 MAX_ATTEMPTS pf w diaryNo year responseCache))
          = Inl (err MAX_ATTEMPTS)"
    using a by (simp add: eq)
  have "skeleton (snd (fst (retry_loop MAX_ATTEMPTS ?att (exponentialBackoff w) 0 ProcessNotAttempted responseCache))) =
         concat (map (\<lambda>n. EvFetchHtml ((\<lambda>n. initialPageUrlWithCacheBuster (date_now w n 0)) n) #
                       (if n < MAX_ATTEMPTS then [EvSleep (exponentialBackoff w n)] else []))
                     [Suc 0..<Suc MAX_ATTEMPTS])"
    by (rule retry_loop_all_fail_skeleton) (use a in \<open>simp add: skeleton_attempt_server1\<close>)
  then show "skeleton (snd (fst (getCaseDetailsProcess_server1 MAX_ATTEMPTS pf w diaryNo year responseCache)))
          = exhausted_skeleton MAX_ATTEMPTS (\<lambda>n. initialPageUrlWithCacheBuster (date_now w n 0))
              (exponentialBackoff w)"
    by (simp add: eq exhausted_skeleton_def)
qed

lemma attempt_server_failing_world:
  "fst (attempt_server pf failing_world diaryNo year n) = Inl (FetchHtmlHttp (500 + n) INITIAL_PAGE_URL)"
  by (simp add: attempt_server_def fetchEnvelope_server_def fst_bind_eff fetchHtml_def failing_world_def)

lemma fetchAjaxResponse_server1_failing_world:
  "fst (fetchAjaxResponse_server1 pf failing_world diaryNo year n) =
     Inl (FetchHtmlHttp (500 + n) (initialPageUrlWithCacheBuster ''1700000000000''))"
  by (simp add: fetchAjaxResponse_server1_def fst_bind_eff fetchHtml1_def failing_world_def)

lemma attempt_server1_failing_world:
  "fst (fst (attempt_server1 pf failing_world diaryNo year k n c)) =
     Inl (FetchHtmlHttp (500 + n) (initialPageUrlWithCacheBuster ''1700000000000''))"
  using fetchAjaxResponse_server1_failing_world[of pf diaryNo year n]
  by (cases "fetchAjaxResponse_server1 pf failing_world diaryNo year n")
     (auto simp: attempt_server1_def)

theorem C1_retry_exhaustion_witness:
  "fst (getCaseDetailsProcess_server sample_platform failing_world ''2444'' ''2023'')
     = Inl (FetchHtmlHttp 505 INITIAL_PAGE_URL)
   \<and> skeleton (snd (getCaseDetailsProcess_server sample_platform failing_world ''2444'' ''2023''))
     = [EvFetchHtml INITIAL_PAGE_URL, EvSleep 3, EvFetchHtml INITIAL_PAGE_URL, EvSleep 4,
        EvFetchHtml INITIAL_PAGE_URL, EvSleep 5, EvFetchHtml INITIAL_PAGE_URL, EvSleep 6,
        EvFetchHtml INITIAL_PAGE_URL]
   \<and> fst (fst (getCaseDetailsProcess_server1 2 sample_platform failing_world ''2444'' ''2023'' Map.empty))
     = Inl (FetchHtmlHttp 502 (initialPageUrlWithCacheBuster ''1700000000000''))
   \<and> skeleton (snd (fst (getCaseDetailsProcess_server1 2 sample_platform failing_world ''2444'' ''2023'' Map.empty)))
     = [EvFetchHtml (initialPageUrlWithCacheBuster ''1700000000000''), EvSleep (5 / 2),
        EvFetchHtml (initialPageUrlWithCacheBuster ''1700000000000'')]"
proof -
  let ?err = "\<lambda>n. FetchHtmlHttp (500 + n) INITIAL_PAGE_URL"
  let ?err1 = "\<lambda>n. FetchHtmlHttp (500 + n) (initialPageUrlWithCacheBuster ''1700000000000'')"
  have h: "\<forall>n. 1 \<le> n \<and> n \<le> 5 \<longrightarrow>
             fst (attempt_server sample_platform failing_world ''2444'' ''2023'' n) = Inl (?err n)"
    by (simp add: attempt_server_failing_world)
  have h1: "1 \<le> (2::nat) \<and> \<not> truthy (cache_get Map.empty (''2444'' @ ''/'' @ ''2023''))
       \<and> (\<forall>n c. 1 \<le> n \<and> n \<le> 2 \<longrightarrow>
             fst (fst (attempt_server1 sample_platform failing_world ''2444'' ''2023''
                         (''2444'' @ ''/'' @ ''2023'') n c)) = Inl (?err1 n))"
    by (simp add: attempt_server1_failing_world cache_get_def)
  have a: "fst (getCaseDetailsProcess_server sample_platform failing_world ''2444'' ''2023'') = Inl (?err 5)
      \<and> skeleton (snd (getCaseDetailsProcess_server sample_platform failing_world ''2444'' ''2023''))
          = exhausted_skeleton 5 (\<lambda>n. INITIAL_PAGE_URL) delaySeconds_server"
    by (rule C1_retry_exhaustion[of sample_platform failing_world "''2444''" "''2023''" ?err,
          THEN conjunct1, rule_format]) (rule h[rule_format])
  have b: "fst (fst (getCaseDetailsProcess_server1 2 sample_platform failing_world ''2444'' ''2023'' Map.empty))
          = Inl (?err1 2)
      \<and> skeleton (snd (fst (getCaseDetailsProcess_server1 2 sample_platform failing_world ''2444'' ''2023'' Map.empty)))
          = exhausted_skeleton 2 (\<lambda>n. initialPageUrlWithCacheBuster (date_now failing_world n 0))
              (exponentialBackoff failing_world)"
    by (rule C1_retry_exhaustion[of sample_platform failing_world "''2444''" "''2023''" ?err1 2 Map.empty,
          THEN conjunct2, THEN conjunct2, THEN conjunct1, rule_format]) (rule h1)
  have e5: "exhausted_skeleton 5 (\<lambda>n. INITIAL_PAGE_URL) delaySeconds_server =
     [EvFetchHtml INITIAL_PAGE_URL, EvSleep 3, EvFetchHtml INITIAL_PAGE_URL, EvSleep 4,
        EvFetchHtml INITIAL_PAGE_URL, EvSleep 5, EvFetchHtml INITIAL_PAGE_URL, EvSleep 6,
        EvFetchHtml INITIAL_PAGE_URL]"
    by (simp add: exhausted_skeleton_def delaySeconds_server_def upt_conv_Cons)
  have e2: "exhausted_skeleton 2 (\<lambda>n. initialPageUrlWithCacheBuster (date_now failing_world n 0))
              (exponentialBackoff failing_world) =
     [EvFetchHtml (initialPageUrlWithCacheBuster ''1700000000000''), EvSleep (5 / 2),
        EvFetchHtml (initialPageUrlWithCacheBuster ''1700000000000'')]"
    by (simp add: exhausted_skeleton_def exponentialBackoff_def failing_world_def upt_conv_Cons)
  show ?thesis using a b by (simp add: e5 e2)
qed

section \<open>The backoff delays\<close>

lemma filter_sleep_skeleton: "filter is_sleep (skeleton evs) = filter is_sleep evs"
  by (auto simp: skeleton_def intro: filter_cong)

lemma filter_sleep_attempt_server: "filter is_sleep (snd (attempt_server pf w diaryNo year n)) = []"
proof -
  have "filter is_sleep (skeleton (snd (attempt_server pf w diaryNo year n))) = []"
    by (simp add: skeleton_attempt_server)
  then show ?thesis by (simp only: filter_sleep_skeleton)
qed

lemma filter_sleep_attempt_part: "filter is_sleep (snd (attempt_part pf w diaryNo year n)) = []"
proof -
  have "filter is_sleep (skeleton (snd (attempt_part pf w diaryNo year n))) = []"
    by (simp add: skeleton_attempt_part)
  then show ?thesis by (simp only: filter_sleep_skeleton)
qed

lemma filter_sleep_attempt_server1:
  "filter is_sleep (snd (fst (attempt_server1 pf w diaryNo year k n c))) = []"
proof -
  have "filter is_sleep (skeleton (snd (fst (attempt_server1 pf w diaryNo year k n c)))) = []"
    by (simp add: skeleton_attempt_server1)
  then show ?thesis by (simp only: filter_sleep_skeleton)
qed

text \<open>What an attempt of server1.js does and returns does not depend on the cache.\<close>

lemma attempt_server1_cache:
  "fst (attempt_server1 pf w diaryNo year k n c) = fst (attempt_server1 pf w diaryNo year k n c')"
  by (simp add: attempt_server1_def split: prod.splits sum.splits)

lemma find_upt_Some: "find P [i..<M] = Some k \<Longrightarrow> i \<le> k \<and> k < M \<and> P k"
  by (auto simp: find_Some_iff)

lemma find_upt_None: "find P [i..<M] = None \<Longrightarrow> i \<le> n \<Longrightarrow> n < M \<Longrightarrow> \<not> P n"
  by (auto simp: find_None_iff)

lemma find_upt_first: "find P [i..<M] = Some k \<Longrightarrow> i \<le> n \<Longrightarrow> n < k \<Longrightarrow> \<not> P n"
proof -
  assume f: "find P [i..<M] = Some k" and n: "i \<le> n" "n < k"
  from f obtain idx where idx: "idx < length [i..<M]" "k = [i..<M] ! idx"
    "\<forall>j<idx. \<not> P ([i..<M] ! j)"
    by (auto simp: find_Some_iff)
  then have k: "k = i + idx" by simp
  have "n - i < idx" using n k by simp
  moreover have "[i..<M] ! (n - i) = n" using n k idx(1) by simp
  ultimately show "\<not> P n" using idx(3) by metis
qed

text \<open>The number of cycles of a run is what its definition says in words.\<close>

lemma cycles_run_bounds: "1 \<le> M \<Longrightarrow> 1 \<le> cycles_run M ok \<and> cycles_run M ok \<le> M"
  by (auto simp: cycles_run_def split: option.splits dest: find_upt_Some)

lemma cycles_run_failed: "1 \<le> n \<Longrightarrow> n < cycles_run M ok \<Longrightarrow> \<not> ok n"
  by (auto simp: cycles_run_def split: option.splits dest: find_upt_None find_upt_first)

lemma cycles_run_last: "cycles_run M ok < M \<Longrightarrow> ok (cycles_run M ok)"
  by (auto simp: cycles_run_def split: option.splits dest: find_upt_Some)

text \<open>
  The trace of the loop from attempt \<open>a + 1\<close> on: the events of each attempt it runs, with
  the sleep of \<open>delaySeconds n\<close> between those of attempt \<open>n\<close> and those of attempt \<open>n + 1\<close>.
\<close>

lemma retry_loop_trace:
  assumes indep: "\<And>n s s'. fst (attempt n s) = fst (attempt n s')"
  shows "snd (fst (retry_loop M attempt delay a e s)) =
     concat (map (\<lambda>n. snd (fst (attempt n s0))
                      @ (if n < (case find (\<lambda>n. succeeded (fst (attempt n s0))) [Suc a..<M] of
                                   Some k \<Rightarrow> k | None \<Rightarrow> M)
                         then [EvSleep (delay n)] else []))
        [Suc a..<Suc (case find (\<lambda>n. succeeded (fst (attempt n s0))) [Suc a..<M] of
                        Some k \<Rightarrow> k | None \<Rightarrow> M)])"
proof (induction "M - a" arbitrary: a e s)
  case 0
  then have "[Suc a..<M] = []" and "[Suc a..<Suc M] = []" by simp_all
  then show ?case using 0 by (simp add: retry_loop_done)
next
  case (Suc j)
  let ?ok = "\<lambda>n. succeeded (fst (attempt n s0))"
  let ?K = "\<lambda>a. case find ?ok [Suc a..<M] of Some k \<Rightarrow> k | None \<Rightarrow> M"
  from Suc have lt: "a < M" by simp
  obtain r evs s' where att: "attempt (Suc a) s = ((r, evs), s')"
    by (metis surj_pair)
  have att0: "fst (attempt (Suc a) s0) = (r, evs)"
    using indep[of "Suc a" s0 s] att by simp
  show ?case
  proof (cases r)
    case (Inr v)
    have ok: "?ok (Suc a)" using att0 Inr by (simp add: succeeded_def)
    have K: "?K a = Suc a"
    proof (cases "Suc a < M")
      case True
      then have "[Suc a..<M] = Suc a # [Suc (Suc a)..<M]" by (simp add: upt_conv_Cons)
      then show ?thesis using ok by simp
    next
      case False
      then have "[Suc a..<M] = []" and "M = Suc a" using lt by simp_all
      then show ?thesis by simp
    qed
    have "retry_loop M attempt delay a e s = ((Inr v, evs), s')"
      by (rule retry_loop_step_Inr[where attempt=attempt and attempts=a and s=s, OF lt att[unfolded Inr]])
    then show ?thesis unfolding K using att0 by simp
  next
    case (Inl x)
    have nok: "\<not> ?ok (Suc a)" using att0 Inl by (simp add: succeeded_def)
    have j: "j = M - Suc a" using Suc.hyps(2) by simp
    note IH = Suc.hyps(1)[OF j, of x s']
    have step: "snd (fst (retry_loop M attempt delay a e s)) =
        evs @ (if Suc a < M then [EvSleep (delay (Suc a))] else [])
            @ snd (fst (retry_loop M attempt delay (Suc a) x s'))"
      by (simp add: retry_loop_step_Inl[where attempt=attempt and attempts=a and s=s, OF lt att[unfolded Inl]]
            split: prod.splits)
    show ?thesis
    proof (cases "Suc a < M")
      case True
      then have up: "[Suc a..<M] = Suc a # [Suc (Suc a)..<M]" by (simp add: upt_conv_Cons)
      have K: "?K a = ?K (Suc a)" unfolding up using nok by simp
      have gt: "Suc a < ?K (Suc a)"
        using True by (auto split: option.splits dest: find_upt_Some)
      then have upK: "[Suc a..<Suc (?K (Suc a))] = Suc a # [Suc (Suc a)..<Suc (?K (Suc a))]"
        by (simp add: upt_conv_Cons)
      show ?thesis unfolding step K upK using IH True gt att0 by simp
    next
      case False
      then have M: "M = Suc a" using lt by simp
      have e0: "[Suc a..<M] = []" using M by simp
      have K: "?K a = Suc a" unfolding e0 using M by simp
      have "retry_loop M attempt delay (Suc a) x s' = ((Inl x, []), s')"
        using False by (simp add: retry_loop_done)
      then show ?thesis unfolding step K using False att0 by simp
    qed
  qed
qed

lemma trace_part:
  "snd (getCaseDetailsProcess_part pf w diaryNo year) =
     cycles_trace (cycles_run 3 (\<lambda>n. succeeded (attempt_part pf w diaryNo year n)))
       (\<lambda>n. snd (attempt_part pf w diaryNo year n)) (exponentialBackoff w)"
proof -
  let ?att = "\<lambda>n (s::unit). (attempt_part pf w diaryNo year n, s)"
  show ?thesis
    unfolding getCaseDetailsProcess_part_def cycles_trace_def cycles_run_def
    using retry_loop_trace[where attempt="?att" and M=3 and a=0 and delay="exponentialBackoff w"
            and e=ProcessNotAttempted and s="()" and ?s0.0="()"]
    by simp
qed

lemma trace_server:
  "snd (getCaseDetailsProcess_server pf w diaryNo year) =
     cycles_trace (cycles_run 5 (\<lambda>n. succeeded (attempt_server pf w diaryNo year n)))
       (\<lambda>n. snd (attempt_server pf w diaryNo year n)) delaySeconds_server"
proof -
  let ?att = "\<lambda>n (s::unit). (attempt_server pf w diaryNo year n, s)"
  show ?thesis
    unfolding getCaseDetailsProcess_server_def cycles_trace_def cycles_run_def
    using retry_loop_trace[where attempt="?att" and M=5 and a=0 and delay=delaySeconds_server
            and e=ProcessNotAttempted and s="()" and ?s0.0="()"]
    by simp
qed

lemma trace_server1:
  assumes "\<not> truthy (cache_get c (diaryNo @ ''/'' @ year))"
  shows "snd (fst (getCaseDetailsProcess_server1 M pf w diaryNo year c)) =
     cycles_trace
       (cycles_run M (\<lambda>n. succeeded (fst (attempt_server1 pf w diaryNo year (diaryNo @ ''/'' @ year) n c))))
       (\<lambda>n. snd (fst (attempt_server1 pf w diaryNo year (diaryNo @ ''/'' @ year) n c)))
       (exponentialBackoff w)"
proof -
  let ?att = "attempt_server1 pf w diaryNo year (diaryNo @ ''/'' @ year)"
  have eq: "getCaseDetailsProcess_server1 M pf w diaryNo year c =
        retry_loop M ?att (exponentialBackoff w) 0 ProcessNotAttempted c"
    using assms by (simp add: getCaseDetailsProcess_server1_def Let_def)
  show ?thesis
    unfolding eq cycles_trace_def cycles_run_def
    using retry_loop_trace[where attempt="?att" and M=M and a=0 and delay="exponentialBackoff w"
            and e=ProcessNotAttempted and s=c and ?s0.0=c, OF attempt_server1_cache]
    by simp
qed

lemma exponentialBackoff_bounds:
  assumes "0 \<le> math_random w n" "math_random w n < 1"
  shows "2 ^ n \<le> exponentialBackoff w n" "exponentialBackoff w n < 2 ^ n + 1"
  using assms by (simp_all add: exponentialBackoff_def)

lemma exponentialBackoff_increasing:
  assumes "math_random w n < 1" "0 \<le> math_random w (Suc n)"
  shows "exponentialBackoff w n < exponentialBackoff w (Suc n)"
proof -
  have "(1::real) \<le> 2 ^ n" by simp
  then have "math_random w n < 2 ^ n + math_random w (Suc n)" using assms by linarith
  then show ?thesis by (simp add: exponentialBackoff_def)
qed

text \<open>
  C2, as amended.  A lookup runs its attempts in order until one succeeds, at most
  \<open>MAX_ATTEMPTS\<close> of them (\<open>cycles_run\<close>), and its trace is the events of attempt 1, a sleep,
  the events of attempt 2, a sleep, and so on (\<open>cycles_trace\<close>): the sleep between the
  failed attempt \<open>n\<close> and attempt \<open>n + 1\<close> lasts \<open>delaySeconds n\<close>, no sleep follows the last
  attempt, and no attempt sleeps by itself.  In server1.js and the two unnamed files
  \<open>delaySeconds n\<close> is \<open>2^n\<close> seconds plus the value of \<open>Math.random()\<close>; when that value
  lies in \<open>[0,1)\<close> the delay lies in \<open>[2^n, 2^n + 1)\<close> and is smaller than the next one.
  In server.js \<open>delaySeconds n\<close> is \<open>2 + n\<close> seconds, without jitter, which also increases.
\<close>

theorem C2_backoff_delays:
  "((\<forall>n. 0 \<le> math_random w n \<and> math_random w n < 1) \<longrightarrow>
      (\<forall>n. 2 ^ n \<le> exponentialBackoff w n \<and> exponentialBackoff w n < 2 ^ n + 1
           \<and> exponentialBackoff w n < exponentialBackoff w (Suc n)))
   \<and> (\<forall>n. exponentialBackoff w n - 2 ^ n = math_random w n)
   \<and> snd (getCaseDetailsProcess_part pf w diaryNo year) =
       cycles_trace (cycles_run 3 (\<lambda>n. succeeded (attempt_part pf w diaryNo year n)))
         (\<lambda>n. snd (attempt_part pf w diaryNo year n)) (exponentialBackoff w)
   \<and> (\<not> truthy (cache_get c (diaryNo @ ''/'' @ year)) \<longrightarrow>
      snd (fst (getCaseDetailsProcess_server1 MAX_ATTEMPTS pf w diaryNo year c)) =
        cycles_trace
          (cycles_run MAX_ATTEMPTS
             (\<lambda>n. succeeded (fst (attempt_server1 pf w diaryNo year (diaryNo @ ''/'' @ year) n c))))
          (\<lambda>n. snd (fst (attempt_server1 pf w diaryNo year (diaryNo @ ''/'' @ year) n c)))
          (exponentialBackoff w))
   \<and> (\<forall>n. delaySeconds_server n = 2 + real n \<and> delaySeconds_server n < delaySeconds_server (Suc n))
   \<and> snd (getCaseDetailsProcess_server pf w diaryNo year) =
       cycles_trace (cycles_run 5 (\<lambda>n. succeeded (attempt_server pf w diaryNo year n)))
         (\<lambda>n. snd (attempt_server pf w diaryNo year n)) delaySeconds_server
   \<and> (\<forall>n. filter is_sleep (snd (attempt_part pf w diaryNo year n)) = []
          \<and> filter is_sleep (snd (fst (attempt_server1 pf w diaryNo year (diaryNo @ ''/'' @ year) n c))) = []
          \<and> filter is_sleep (snd (attempt_server pf w diaryNo year n)) = [])
   \<and> (\<forall>M ok. (1 \<le> M \<longrightarrow> 1 \<le> cycles_run M ok \<and> cycles_run M ok \<le> M)
          \<and> (\<forall>n. 1 \<le> n \<and> n < cycles_run M ok \<longrightarrow> \<not> ok n)
          \<and> (cycles_run M ok < M \<longrightarrow> ok (cycles_run M ok)))"
proof (intro conjI impI allI)
  fix n
  assume a: "\<forall>n. 0 \<le> math_random w n \<and> math_random w n < 1"
  show "2 ^ n \<le> exponentialBackoff w n" using a by (simp add: exponentialBackoff_bounds)
  show "exponentialBackoff w n < 2 ^ n + 1" using a by (simp add: exponentialBackoff_bounds)
  show "exponentialBackoff w n < exponentialBackoff w (Suc n)"
    using a by (simp add: exponentialBackoff_increasing)
next
  fix n show "exponentialBackoff w n - 2 ^ n = math_random w n"
    by (simp add: exponentialBackoff_def)
next
  show "snd (getCaseDetailsProcess_part pf w diaryNo year) =
       cycles_trace (cycles_run 3 (\<lambda>n. succeeded (attempt_part pf w diaryNo year n)))
         (\<lambda>n. snd (attempt_part pf w diaryNo year n)) (exponentialBackoff w)"
    by (rule trace_part)
next
  assume "\<not> truthy (cache_get c (diaryNo @ ''/'' @ year))"
  then show "snd (fst (getCaseDetailsProcess_server1 MAX_ATTEMPTS pf w diaryNo year c)) =
        cycles_trace
          (cycles_run MAX_ATTEMPTS
             (\<lambda>n. succeeded (fst (attempt_server1 pf w diaryNo year (diaryNo @ ''/'' @ year) n c))))
          (\<lambda>n. snd (fst (attempt_server1 pf w diaryNo year (diaryNo @ ''/'' @ year) n c)))
          (exponentialBackoff w)"
    by (rule trace_server1)
next
  fix n show "delaySeconds_server n = 2 + real n" by (simp add: delaySeconds_server_def)
  show "delaySeconds_server n < delaySeconds_server (Suc n)" by (simp add: delaySeconds_server_def)
next
  show "snd (getCaseDetailsProcess_server pf w diaryNo year) =
       cycles_trace (cycles_run 5 (\<lambda>n. succeeded (attempt_server pf w diaryNo year n)))
         (\<lambda>n. snd (attempt_server pf w diaryNo year n)) delaySeconds_server"
    by (rule trace_server)
next
  fix n
  show "filter is_sleep (snd (attempt_part pf w diaryNo year n)) = []"
    by (rule filter_sleep_attempt_part)
  show "filter is_sleep (snd (fst (attempt_server1 pf w diaryNo year (diaryNo @ ''/'' @ year) n c))) = []"
    by (rule filter_sleep_attempt_server1)
  show "filter is_sleep (snd (attempt_server pf w diaryNo year n)) = []"
    by (rule filter_sleep_attempt_server)
next
  fix M :: nat and ok :: "nat \<Rightarrow> bool"
  assume "1 \<le> M"
  then show "1 \<le> cycles_run M ok" and "cycles_run M ok \<le> M"
    using cycles_run_bounds by blast+
next
  fix M :: nat and ok :: "nat \<Rightarrow> bool" and n :: nat
  assume "1 \<le> n \<and> n < cycles_run M ok"
  then show "\<not> ok n" using cycles_run_failed by blast
next
  fix M :: nat and ok :: "nat \<Rightarrow> bool"
  assume "cycles_run M ok < M"
  then show "ok (cycles_run M ok)" by (rule cycles_run_last)
qed

lemma snd_attempt_part_failing_world:
  "attempt_part pf failing_world d y n =
     (Inl (FetchHtmlHttp (500 + n) (initialPageUrlWithCacheBuster ''1700000000000'')),
      [EvFetchHtml (initialPageUrlWithCacheBuster ''1700000000000'')])"
  by (simp add: attempt_part_def bind_eff_def fetchHtml_def failing_world_def)

lemma fst_attempt_server1_failing_world:
  "fst (attempt_server1 pf failing_world d y k n c) =
     (Inl (FetchHtmlHttp (500 + n) (initialPageUrlWithCacheBuster ''1700000000000'')),
      [EvFetchHtml (initialPageUrlWithCacheBuster ''1700000000000'')])"
proof -
  have "fetchAjaxResponse_server1 pf failing_world d y n =
     (Inl (FetchHtmlHttp (500 + n) (initialPageUrlWithCacheBuster ''1700000000000'')),
      [EvFetchHtml (initialPageUrlWithCacheBuster ''1700000000000'')])"
    by (simp add: fetchAjaxResponse_server1_def bind_eff_def fetchHtml1_def failing_world_def)
  then show ?thesis by (simp add: attempt_server1_def)
qed

lemma cycles_trace_three:
  "cycles_trace (cycles_run 3 (\<lambda>n. False)) ev delay =
     ev 1 @ [EvSleep (delay 1)] @ ev 2 @ [EvSleep (delay 2)] @ ev 3"
proof -
  have u: "[1..<Suc 3] = [1, 2, 3::nat]" by code_simp
  have c: "cycles_run 3 (\<lambda>n. False) = 3" by code_simp
  show ?thesis unfolding c cycles_trace_def u by simp
qed

theorem C2_backoff_delays_witness:
  "2 ^ 1 \<le> exponentialBackoff failing_world 1 \<and> exponentialBackoff failing_world 1 < 2 ^ 1 + 1
   \<and> exponentialBackoff failing_world 1 < exponentialBackoff failing_world 2
   \<and> snd (getCaseDetailsProcess_part sample_platform failing_world ''2444'' ''2023'')
     = [EvFetchHtml (initialPageUrlWithCacheBuster ''1700000000000''), EvSleep (5 / 2),
        EvFetchHtml (initialPageUrlWithCacheBuster ''1700000000000''), EvSleep (9 / 2),
        EvFetchHtml (initialPageUrlWithCacheBuster ''1700000000000'')]
   \<and> snd (fst (getCaseDetailsProcess_server1 3 sample_platform failing_world ''2444'' ''2023'' Map.empty))
     = [EvFetchHtml (initialPageUrlWithCacheBuster ''1700000000000''), EvSleep (5 / 2),
        EvFetchHtml (initialPageUrlWithCacheBuster ''1700000000000''), EvSleep (9 / 2),
        EvFetchHtml (initialPageUrlWithCacheBuster ''1700000000000'')]"
proof -
  note T = C2_backoff_delays[of failing_world sample_platform "''2444''" "''2023''" Map.empty 3]
  have h: "\<forall>n. 0 \<le> math_random failing_world n \<and> math_random failing_world n < 1"
    by (simp add: failing_world_def)
  have 1: "2 ^ 1 \<le> exponentialBackoff failing_world 1 \<and> exponentialBackoff failing_world 1 < 2 ^ 1 + 1
           \<and> exponentialBackoff failing_world 1 < exponentialBackoff failing_world (Suc 1)"
    by (rule T[THEN conjunct1, rule_format, OF h[rule_format]])
  have d: "exponentialBackoff failing_world 1 = 5 / 2" "exponentialBackoff failing_world 2 = 9 / 2"
    "exponentialBackoff failing_world (Suc 0) = 5 / 2"
    by (simp_all add: exponentialBackoff_def failing_world_def)
  have 2: "snd (getCaseDetailsProcess_part sample_platform failing_world ''2444'' ''2023'')
     = [EvFetchHtml (initialPageUrlWithCacheBuster ''1700000000000''), EvSleep (5 / 2),
        EvFetchHtml (initialPageUrlWithCacheBuster ''1700000000000''), EvSleep (9 / 2),
        EvFetchHtml (initialPageUrlWithCacheBuster ''1700000000000'')]"
    unfolding T[THEN conjunct2, THEN conjunct2, THEN conjunct1]
    by (simp add: snd_attempt_part_failing_world succeeded_def cycles_trace_three d)
  have miss: "\<not> truthy (cache_get Map.empty (''2444'' @ ''/'' @ ''2023''))"
    by (simp add: cache_get_def)
  have 3: "snd (fst (getCaseDetailsProcess_server1 3 sample_platform failing_world ''2444'' ''2023'' Map.empty))
     = [EvFetchHtml (initialPageUrlWithCacheBuster ''1700000000000''), EvSleep (5 / 2),
        EvFetchHtml (initialPageUrlWithCacheBuster ''1700000000000''), EvSleep (9 / 2),
        EvFetchHtml (initialPageUrlWithCacheBuster ''1700000000000'')]"
    unfolding T[THEN conjunct2, THEN conjunct2, THEN conjunct2, THEN conjunct1, rule_format, OF miss]
    by (simp add: fst_attempt_server1_failing_world succeeded_def cycles_trace_three d)
  have s: "Suc 1 = 2" by simp
  note b = 1[unfolded s]
  show ?thesis
    by (intro conjI b[THEN conjunct1] b[THEN conjunct2, THEN conjunct1]
          b[THEN conjunct2, THEN conjunct2] 2 3)
qed

text \<open>
  The claim as stated fails on server.js: when every attempt fails, the sleeps last 3,
  4, 5 and 6 seconds, and 3 is not \<open>2^1\<close> plus a jitter below 1.
\<close>

theorem C2_backoff_delays_counterexample:
  "filter is_sleep (snd (getCaseDetailsProcess_server sample_platform failing_world ''2444'' ''2023''))
     = [EvSleep 3, EvSleep 4, EvSleep 5, EvSleep 6]
   \<and> \<not> ((3::real) < 2 ^ 1 + 1)"
proof -
  let ?att = "\<lambda>n (s::unit). (attempt_server sample_platform failing_world ''2444'' ''2023'' n, s)"
  have sk: "skeleton (snd (fst (retry_loop 5 ?att delaySeconds_server 0 ProcessNotAttempted ()))) =
         concat (map (\<lambda>n. EvFetchHtml ((\<lambda>n. INITIAL_PAGE_URL) n) #
                       (if n < 5 then [EvSleep (delaySeconds_server n)] else [])) [Suc 0..<Suc 5])"
    by (rule retry_loop_all_fail_skeleton)
       (simp add: skeleton_attempt_server attempt_server_failing_world)
  have "filter is_sleep (snd (getCaseDetailsProcess_server sample_platform failing_world ''2444'' ''2023''))
     = [EvSleep 3, EvSleep 4, EvSleep 5, EvSleep 6]"
    unfolding getCaseDetailsProcess_server_def
    by (subst filter_sleep_skeleton[symmetric]) (simp add: sk delaySeconds_server_def upt_conv_Cons)
  then show ?thesis by simp
qed

section \<open>Properties of the input validator\<close>

lemma split_on_nonempty: "split_on c s \<noteq> []"
  by (induction s) (auto split: list.splits)

lemma split_on_no_sep: "c \<notin> set a \<Longrightarrow> split_on c a = [a]"
  by (induction a) auto

lemma split_on_append: "c \<notin> set a \<Longrightarrow> split_on c (a @ c # b) = a # split_on c b"
  by (induction a) auto

lemma split_on_single: "split_on c s = [b] \<Longrightarrow> s = b \<and> c \<notin> set b"
proof (induction s arbitrary: b)
  case Nil
  then show ?case by simp
next
  case (Cons x xs)
  show ?case
  proof (cases "x = c")
    case True
    with Cons.prems show ?thesis by (simp add: split_on_nonempty)
  next
    case False
    with Cons.prems obtain y where y: "split_on c xs = [y]" and b: "b = x # y"
      by (auto simp: split_on_nonempty split: list.splits)
    from Cons.IH[OF y] show ?thesis using False b by simp
  qed
qed

lemma split_on_pair: "split_on c s = [a, b] \<Longrightarrow> s = a @ c # b \<and> c \<notin> set a \<and> c \<notin> set b"
proof (induction s arbitrary: a)
  case Nil
  then show ?case by simp
next
  case (Cons x xs)
  show ?case
  proof (cases "x = c")
    case True
    with Cons.prems have "a = []" and "split_on c xs = [b]" by auto
    then show ?thesis using True split_on_single[of c xs b] by simp
  next
    case False
    with Cons.prems obtain y where y: "split_on c xs = [y, b]" and a: "a = x # y"
      by (auto simp: split_on_nonempty split: list.splits)
    from Cons.IH[OF y] show ?thesis using False a by simp
  qed
qed

lemma slash_not_digit: "\<not> is_digit CHR ''/''"
  by (simp add: is_digit_def)

lemma digits_no_slash: "list_all is_digit d \<Longrightarrow> CHR ''/'' \<notin> set d"
  using slash_not_digit by (auto simp: list_all_iff)

lemma validate_accepts_iff:
  "(validate_diaryData v = Inr (d, y)) =
   (v = JStr (d @ ''/'' @ y) \<and> test_digits d \<and> test_four_digits y)"
proof
  assume a: "validate_diaryData v = Inr (d, y)"
  then obtain s where v: "v = JStr s"
    by (cases v) (auto simp: validate_diaryData_def is_string_def)
  from a v have len: "length (split_on CHR ''/'' s) = 2"
    and d: "test_digits (split_on CHR ''/'' s ! 0)" and y: "test_four_digits (split_on CHR ''/'' s ! 1)"
    and dy: "d = split_on CHR ''/'' s ! 0" "y = split_on CHR ''/'' s ! 1"
    by (auto simp: validate_diaryData_def is_string_def string_of_def Let_def split: if_splits)
  from len obtain p0 p1 where p: "split_on CHR ''/'' s = [p0, p1]"
    by (cases "split_on CHR ''/'' s") (auto simp: length_Suc_conv)
  with dy have "p0 = d" "p1 = y" by auto
  with p have "s = d @ CHR ''/'' # y" using split_on_pair by blast
  then show "v = JStr (d @ ''/'' @ y) \<and> test_digits d \<and> test_four_digits y"
    using v d y dy by simp
next
  assume a: "v = JStr (d @ ''/'' @ y) \<and> test_digits d \<and> test_four_digits y"
  then have "CHR ''/'' \<notin> set d" "CHR ''/'' \<notin> set y"
    by (auto simp: test_digits_def test_four_digits_def dest: digits_no_slash)
  then have "split_on CHR ''/'' (d @ CHR ''/'' # y) = [d, y]"
    by (simp add: split_on_append split_on_no_sep)
  then show "validate_diaryData v = Inr (d, y)"
    using a by (simp add: validate_diaryData_def is_string_def string_of_def)
qed

lemma validate_accepts_pattern:
  "(\<exists>d y. validate_diaryData v = Inr (d, y)) = (\<exists>s. v = JStr s \<and> matches_diary_pattern s)"
  unfolding validate_accepts_iff matches_diary_pattern_def test_digits_def test_four_digits_def
  by blast

lemma validate_rejects:
  "\<not> (\<exists>s. v = JStr s \<and> matches_diary_pattern s) \<Longrightarrow>
   validate_diaryData v = Inl InvalidPayload \<or> validate_diaryData v = Inl InvalidFormat"
proof -
  assume "\<not> (\<exists>s. v = JStr s \<and> matches_diary_pattern s)"
  then have "\<not> (\<exists>d y. validate_diaryData v = Inr (d, y))"
    using validate_accepts_pattern[of v] by blast
  moreover have "validate_diaryData v = Inl InvalidPayload \<or> validate_diaryData v = Inl InvalidFormat
      \<or> (\<exists>d y. validate_diaryData v = Inr (d, y))"
    by (simp add: validate_diaryData_def Let_def)
  ultimately show ?thesis by blast
qed

lemma retry_loop_first:
  "a < M \<Longrightarrow>
   \<exists>rest. snd (fst (retry_loop M attempt delay a e s)) = snd (fst (attempt (Suc a) s)) @ rest"
proof -
  assume lt: "a < M"
  obtain r evs s' where att: "attempt (Suc a) s = ((r, evs), s')"
    by (metis surj_pair)
  show ?thesis
  proof (cases r)
    case (Inl x)
    show ?thesis
      by (simp add: retry_loop_step_Inl[where attempt=attempt and attempts=a and s=s, OF lt att[unfolded Inl]]
            att split: prod.splits)
  next
    case (Inr v)
    show ?thesis
      by (simp add: retry_loop_step_Inr[where attempt=attempt and attempts=a and s=s, OF lt att[unfolded Inr]] att)
  qed
qed

lemma attempt_server_first:
  "\<exists>rest. snd (attempt_server pf w diaryNo year n) = EvFetchHtml INITIAL_PAGE_URL # rest"
  by (simp add: attempt_server_def fetchEnvelope_server_def snd_bind_eff fetchHtml_def)

lemma getCaseDetailsProcess_server_first:
  "take 1 (snd (getCaseDetailsProcess_server pf w diaryNo year)) = [EvFetchHtml INITIAL_PAGE_URL]"
proof -
  let ?att = "\<lambda>n (s::unit). (attempt_server pf w diaryNo year n, s)"
  have "\<exists>rest. snd (fst (retry_loop 5 ?att delaySeconds_server 0 ProcessNotAttempted ())) =
          snd (fst (?att (Suc 0) ())) @ rest"
    by (rule retry_loop_first) simp
  then obtain rest where "snd (getCaseDetailsProcess_server pf w diaryNo year) =
          snd (attempt_server pf w diaryNo year (Suc 0)) @ rest"
    by (auto simp: getCaseDetailsProcess_server_def)
  moreover obtain rest' where "snd (attempt_server pf w diaryNo year (Suc 0)) = EvFetchHtml INITIAL_PAGE_URL # rest'"
    using attempt_server_first by blast
  ultimately show ?thesis by simp
qed

lemma respond_normalized_status:
  "http_status (respond_normalized pf t r) = 200 \<or> http_status (respond_normalized pf t r) = 422
   \<or> http_status (respond_normalized pf t r) = 500"
  by (simp add: respond_normalized_def server_error_def Let_def split: sum.splits)

lemma respond_normalized_not_400: "http_status (respond_normalized pf t r) \<noteq> 400"
  using respond_normalized_status[of pf t r] by auto

text \<open>A string, and every falsy value, is written into a template literal without an exception.\<close>

lemma template_literal_string: "template_literal (JStr s) = Inr ()"
  by (simp add: template_literal_def)

lemma log_lines_pass:
  assumes "\<not> to_string_throws v"
  shows "log_api_call_start v = Inr ()" and "requestIdentifier_server1 v = Inr ()"
  using assms
  by (simp_all add: log_api_call_start_def requestIdentifier_server1_def template_literal_def Let_def)

lemma destructure_diary_body: "destructure_diaryData (diary_body s) = Inr (JStr s)"
  by (simp add: destructure_diaryData_def diary_body_def)

text \<open>
  What does hold.  A value that reaches the validator and is not a string of the form
  \<open>digits/dddd\<close> is answered with 400 and nothing is fetched, solved or slept; in
  server.js every value reaches the validator, in the other three files every value
  whose string conversion does not throw.
\<close>

lemma handlers_reject:
  assumes "destructure_diaryData body = Inr v" and "validate_diaryData v = Inl e"
  shows "api_case_details_server pf w t body = (Inr (bad_request e (BTime t)), [])"
    and "\<not> to_string_throws v \<Longrightarrow>
         api_case_details_server1 M pf w ts body c = ((Inr (bad_request e (BTimeText ts)), []), c)"
    and "\<not> to_string_throws v \<Longrightarrow>
         api_case_details_passthrough pf w t body = (Inr (bad_request e (BTime t)), [])"
    and "\<not> to_string_throws v \<Longrightarrow>
         api_case_details_normalizing pf w t body = (Inr (bad_request e (BTime t)), [])"
  using assms
  by (simp_all add: api_case_details_server_def api_case_details_server1_def
        api_case_details_passthrough_def api_case_details_normalizing_def log_lines_pass)

lemma validate_Inr_string: "validate_diaryData v = Inr p \<Longrightarrow> \<not> to_string_throws v"
  by (cases v) (auto simp: validate_diaryData_def is_string_def)

lemma handlers_accept:
  assumes "destructure_diaryData body = Inr v" and "validate_diaryData v = Inr (d, y)"
  shows "api_case_details_server pf w t body =
           (case getCaseDetailsProcess_server pf w d y of
              (Inr caseDetails, evs) \<Rightarrow>
                (Inr \<lparr>http_status = 200,
                      http_body = [(''success'', BBool True), (''data'', BCaseData caseDetails),
                                   (''timeTakenMs'', BTime t)]\<rparr>, evs)
            | (Inl e, evs) \<Rightarrow> (Inr (server_error (FailedToRetrieve e) (BTime t)), evs))"
    and "api_case_details_server1 M pf w ts body c =
           (case getCaseDetailsProcess_server1 M pf w d y c of
              ((Inr ajaxJsonResponse, evs), c') \<Rightarrow>
                ((Inr \<lparr>http_status = 200,
                       http_body = [(''success'', BBool True), (''data'', BJson ajaxJsonResponse),
                                    (''timeTakenMs'', BTimeText ts),
                                    (''cached'', BBool (cache_has c' (d @ ''/'' @ y)))]\<rparr>, evs), c')
            | ((Inl e, evs), c') \<Rightarrow> ((Inr (server_error (FailedToRetrieve e) (BTimeText ts)), evs), c'))"
    and "api_case_details_passthrough pf w t body =
           (case getCaseDetailsProcess_part pf w d y of
              (Inr ajaxJsonResponse, evs) \<Rightarrow>
                (Inr \<lparr>http_status = 200,
                      http_body = [(''success'', BBool True), (''data'', BJson ajaxJsonResponse),
                                   (''timeTakenMs'', BTime t)]\<rparr>, evs)
            | (Inl e, evs) \<Rightarrow> (Inr (server_error (FailedToRetrieve e) (BTime t)), evs))"
    and "api_case_details_normalizing pf w t body =
           (case getCaseDetailsProcess_part pf w d y of
              (Inr sourceResponse, evs) \<Rightarrow> (Inr (respond_normalized pf t sourceResponse), evs)
            | (Inl e, evs) \<Rightarrow> (Inr (server_error (FailedToRetrieve e) (BTime t)), evs))"
  using assms validate_Inr_string[OF assms(2)]
  by (simp_all add: api_case_details_server_def api_case_details_server1_def
        api_case_details_passthrough_def api_case_details_normalizing_def log_lines_pass)

lemma handlers_accept_trace:
  assumes "destructure_diaryData body = Inr v" and "validate_diaryData v = Inr (d, y)"
  shows "snd (api_case_details_server pf w t body) = snd (getCaseDetailsProcess_server pf w d y)"
    and "snd (fst (api_case_details_server1 M pf w ts body c)) = snd (fst (getCaseDetailsProcess_server1 M pf w d y c))"
    and "snd (api_case_details_passthrough pf w t body) = snd (getCaseDetailsProcess_part pf w d y)"
    and "snd (api_case_details_normalizing pf w t body) = snd (getCaseDetailsProcess_part pf w d y)"
  unfolding handlers_accept[OF assms]
  by (simp_all split: prod.splits sum.splits)

lemma validate_samples:
  "validate_diaryData (JStr ''2444/2023'') = Inr (''2444'', ''2023'')"
  "validate_diaryData JUndefined = Inl InvalidPayload"
  "validate_diaryData (JNum 2444) = Inl InvalidPayload"
  "validate_diaryData (JStr '''') = Inl InvalidPayload"
  "validate_diaryData (JStr ''24442023'') = Inl InvalidFormat"
  "validate_diaryData (JStr ''24a4/2023'') = Inl InvalidFormat"
  "validate_diaryData (JStr ''2444/202'') = Inl InvalidFormat"
  "validate_diaryData (JStr ''2444/20231'') = Inl InvalidFormat"
  "validate_diaryData (JStr ''2444/2023/1'') = Inl InvalidFormat"
  by (simp_all add: validate_diaryData_def is_string_def string_of_def test_digits_def
        test_four_digits_def is_digit_def)

text \<open>
  C5 on the code.  The request body \<open>{"diaryData": {"toString": null}}\<close> carries a value
  that is not a string, so the validator rejects it, and server.js answers 400.  The
  handlers of the other three files write \<open>diaryData\<close> into a template literal before
  they validate it (server1.js 450, the unnamed files 233 and 305); for this value the
  conversion to a string throws a \<open>TypeError\<close>, outside every \<open>try\<close>, and the handler ends
  without having sent a 400.
\<close>

theorem C5_input_validator:
  "api_case_details_server sample_platform failing_world 1 unprintable_body
       = (Inr (bad_request InvalidPayload (BTime 1)), [])
   \<and> api_case_details_server1 3 sample_platform failing_world ''1.00'' unprintable_body Map.empty
       = ((Inl (Thrown ''TypeError'' ''Cannot convert object to primitive value''), []), Map.empty)
   \<and> api_case_details_passthrough sample_platform failing_world 1 unprintable_body
       = (Inl (Thrown ''TypeError'' ''Cannot convert object to primitive value''), [])
   \<and> api_case_details_normalizing sample_platform failing_world 1 unprintable_body
       = (Inl (Thrown ''TypeError'' ''Cannot convert object to primitive value''), [])"
proof -
  have d: "destructure_diaryData unprintable_body = Inr (JObj [(''toString'', JNull)])"
    by (simp add: destructure_diaryData_def unprintable_body_def)
  have v: "validate_diaryData (JObj [(''toString'', JNull)]) = Inl InvalidPayload"
    by (simp add: validate_diaryData_def is_string_def)
  have l: "log_api_call_start (JObj [(''toString'', JNull)])
             = Inl (Thrown ''TypeError'' ''Cannot convert object to primitive value'')"
          "requestIdentifier_server1 (JObj [(''toString'', JNull)])
             = Inl (Thrown ''TypeError'' ''Cannot convert object to primitive value'')"
    by (simp_all add: log_api_call_start_def requestIdentifier_server1_def template_literal_def)
  have 2: "api_case_details_server sample_platform failing_world 1 unprintable_body
       = (Inr (bad_request InvalidPayload (BTime 1)), [])"
    by (simp add: api_case_details_server_def d v)
  have 3: "api_case_details_server1 3 sample_platform failing_world ''1.00'' unprintable_body Map.empty
       = ((Inl (Thrown ''TypeError'' ''Cannot convert object to primitive value''), []), Map.empty)"
    by (simp add: api_case_details_server1_def d l)
  have 4: "api_case_details_passthrough sample_platform failing_world 1 unprintable_body
       = (Inl (Thrown ''TypeError'' ''Cannot convert object to primitive value''), [])"
    by (simp add: api_case_details_passthrough_def d l)
  have 5: "api_case_details_normalizing sample_platform failing_world 1 unprintable_body
       = (Inl (Thrown ''TypeError'' ''Cannot convert object to primitive value''), [])"
    by (simp add: api_case_details_normalizing_def d l)
  show ?thesis by (intro conjI 2 3 4 5)
qed

section \<open>Properties of the request composer\<close>























section \<open>Properties of the token extractor\<close>

lemma select_in_single:
  assumes "\<And>i t a. p i t a = q t a"
  shows "select_in [p] i ns =
         filter (\<lambda>e. case e of Element t a cs \<Rightarrow> q t a | TextNode s \<Rightarrow> False) (elements ns)"
proof (induction "[p]" i ns rule: select_in.induct)
  case (1 i)
  then show ?case by simp
next
  case (2 i s ns)
  then show ?case by simp
next
  case (3 i t a cs ns)
  then show ?case by (simp add: assms)
qed

lemma select_token_inputs: "select_in [sel_token_input] i doc = token_inputs doc"
proof -
  have "select_in [sel_token_input] i doc =
         filter (\<lambda>e. case e of Element t a cs \<Rightarrow> sel_token_input 0 t a | TextNode s \<Rightarrow> False)
           (elements doc)"
    by (rule select_in_single) (simp add: sel_token_input_def)
  then show ?thesis by (simp add: token_inputs_def is_token_input_def[abs_def])
qed

lemma extractToken_first:
  "extractToken pf html =
     (case token_inputs (cheerio_load pf html) of
        [] \<Rightarrow> Inl TokenNotFound
      | e # rest \<Rightarrow>
          if has_name_and_value e
          then Inr \<lparr>tokenName = the (attr e ''name''), tokenValue = the (attr e ''value'')\<rparr>
          else Inl TokenNotFound)"
  by (simp add: extractToken_def select_token_inputs Let_def sel_attr_def has_name_and_value_def
        split: list.splits)

lemma token_input_name:
  "is_token_input e \<Longrightarrow> \<exists>n. attr e ''name'' = Some n \<and> prefix ''tok_'' n"
  by (cases e) (auto simp: is_token_input_def sel_token_input_def split: option.splits)

lemma token_input_name_truthy: "is_token_input e \<Longrightarrow> truthy_str (attr e ''name'')"
proof -
  assume "is_token_input e"
  then obtain n where n: "attr e ''name'' = Some n" "prefix ''tok_'' n"
    using token_input_name by blast
  then have "n \<noteq> []" by auto
  then show ?thesis using n by (simp add: truthy_str_def)
qed

lemma token_inputs_hd:
  "token_inputs doc = e # rest \<Longrightarrow> is_token_input e"
proof -
  assume "token_inputs doc = e # rest"
  then have "e \<in> set (filter is_token_input (elements doc))" by (simp add: token_inputs_def)
  then show ?thesis by simp
qed

lemma hidden_matches:
  "attr_equals_ignore_case ''hidden'' (Some ''hidden'')"
  "attr_equals_ignore_case ''hidden'' (Some ''HIDDEN'')"
  "\<not> attr_equals_ignore_case ''hidden'' (Some ''radio'')"
  "\<not> attr_equals_ignore_case ''hidden'' (Some ''checkbox'')"
  by code_simp+

lemma token_input_attrs:
  assumes "is_token_input e"
  shows "\<exists>t a cs. e = Element t a cs \<and> t = ''input''
           \<and> attr_equals_ignore_case ''hidden'' (map_of a ''type'')
           \<and> attr e ''name'' = map_of a ''name'' \<and> attr e ''value'' = map_of a ''value''"
proof (cases e)
  case (TextNode s)
  then show ?thesis using assms by (simp add: is_token_input_def)
next
  case (Element t a cs)
  from assms Element have t: "t = ''input''" and h: "attr_equals_ignore_case ''hidden'' (map_of a ''type'')"
    by (simp_all add: is_token_input_def sel_token_input_def)
  have nr: "map_of a ''type'' \<noteq> Some ''radio''" and nc: "map_of a ''type'' \<noteq> Some ''checkbox''"
    using h hidden_matches(3,4) by auto
  have "attr e ''name'' = map_of a ''name''"
    unfolding Element by (simp split: option.splits)
  moreover have "attr e ''value'' = map_of a ''value''"
    unfolding Element using t nr nc by (simp split: option.splits)
  ultimately show ?thesis using Element t h by simp
qed

lemma extractToken_inputs:
  "token_inputs (cheerio_load pf html) = token_inputs (cheerio_load pf' html') \<Longrightarrow>
   extractToken pf html = extractToken pf' html'"
  by (simp add: extractToken_first)

text \<open>
  C7, as amended.  \<open>extractToken\<close> depends on the page only through the hidden inputs of
  its document whose name begins with \<open>tok_\<close>: two pages with the same such inputs give
  the same outcome.  The pair it returns is the name and the value of the first of these
  inputs (their \<open>name\<close> and \<open>value\<close> attributes), and the name does begin with \<open>tok_\<close>.  It
  fails, always with the error \<open>TokenNotFound\<close>, exactly when there is no such input or
  the first one has no non-empty value; later inputs are not looked at.  An input is
  hidden when its \<open>type\<close> is \<open>hidden\<close> in any spelling of upper and lower case.
\<close>

theorem C7_extract_token:
  "(token_inputs (cheerio_load pf html) = token_inputs (cheerio_load pf' html') \<longrightarrow>
      extractToken pf html = extractToken pf' html')
   \<and> extractToken pf html =
       (case token_inputs (cheerio_load pf html) of
          [] \<Rightarrow> Inl TokenNotFound
        | e # rest \<Rightarrow>
            if has_name_and_value e
            then Inr \<lparr>tokenName = the (attr e ''name''), tokenValue = the (attr e ''value'')\<rparr>
            else Inl TokenNotFound)
   \<and> ((\<exists>err. extractToken pf html = Inl err) =
        (token_inputs (cheerio_load pf html) = []
         \<or> \<not> truthy_str (attr (hd (token_inputs (cheerio_load pf html))) ''value'')))
   \<and> (extractToken pf html = Inl err \<longrightarrow> err = TokenNotFound)
   \<and> (extractToken pf html = Inr tok \<longrightarrow> prefix ''tok_'' (tokenName tok) \<and> tokenValue tok \<noteq> [])
   \<and> (is_token_input e \<longrightarrow>
        (\<exists>t a cs. e = Element t a cs \<and> t = ''input''
           \<and> attr_equals_ignore_case ''hidden'' (map_of a ''type'')
           \<and> attr e ''name'' = map_of a ''name'' \<and> attr e ''value'' = map_of a ''value''))"
proof (intro conjI impI)
  assume "token_inputs (cheerio_load pf html) = token_inputs (cheerio_load pf' html')"
  then show "extractToken pf html = extractToken pf' html'"
    by (rule extractToken_inputs)
next
  show "extractToken pf html =
       (case token_inputs (cheerio_load pf html) of
          [] \<Rightarrow> Inl TokenNotFound
        | e # rest \<Rightarrow>
            if has_name_and_value e
            then Inr \<lparr>tokenName = the (attr e ''name''), tokenValue = the (attr e ''value'')\<rparr>
            else Inl TokenNotFound)"
    by (rule extractToken_first)
next
  show "(\<exists>err. extractToken pf html = Inl err) =
        (token_inputs (cheerio_load pf html) = []
         \<or> \<not> truthy_str (attr (hd (token_inputs (cheerio_load pf html))) ''value''))"
  proof (cases "token_inputs (cheerio_load pf html)")
    case Nil
    then show ?thesis by (simp add: extractToken_first)
  next
    case (Cons e rest)
    then have "truthy_str (attr e ''name'')"
      using token_inputs_hd token_input_name_truthy by blast
    then show ?thesis using Cons by (simp add: extractToken_first has_name_and_value_def)
  qed
next
  assume "extractToken pf html = Inl err"
  then show "err = TokenNotFound"
    by (auto simp: extractToken_first split: list.splits if_splits)
next
  assume a: "extractToken pf html = Inr tok"
  then obtain e rest where e: "token_inputs (cheerio_load pf html) = e # rest"
    and hv: "has_name_and_value e"
    and tok: "tok = \<lparr>tokenName = the (attr e ''name''), tokenValue = the (attr e ''value'')\<rparr>"
    by (auto simp: extractToken_first split: list.splits if_splits)
  from e obtain n where n: "attr e ''name'' = Some n" "prefix ''tok_'' n"
    using token_inputs_hd token_input_name by blast
  have "tokenValue tok \<noteq> []"
    using hv tok by (auto simp: has_name_and_value_def truthy_str_def split: option.splits)
  then show "tokenValue tok \<noteq> []" .
  show "prefix ''tok_'' (tokenName tok)"
    using n tok by simp
next
  assume "is_token_input e"
  then show "\<exists>t a cs. e = Element t a cs \<and> t = ''input''
           \<and> attr_equals_ignore_case ''hidden'' (map_of a ''type'')
           \<and> attr e ''name'' = map_of a ''name'' \<and> attr e ''value'' = map_of a ''value''"
    by (rule token_input_attrs)
qed

lemma token_inputs_token_page:
  "token_inputs token_page = [hidden_input ''tok_abc'' ''xyz'', hidden_input ''tok_def'' ''uvw'']"
  by (simp add: token_inputs_def token_page_def hidden_input_def is_token_input_def
        sel_token_input_def hidden_matches)

lemma token_inputs_two_token_page:
  "token_inputs two_token_page = [hidden_input ''tok_a'' '''', hidden_input ''tok_b'' ''v'']"
  by (simp add: token_inputs_def two_token_page_def hidden_input_def is_token_input_def
        sel_token_input_def hidden_matches)

lemma token_inputs_shouting_page:
  "token_inputs shouting_page =
     [Element ''input'' [(''type'', ''HIDDEN''), (''name'', ''tok_abc''), (''value'', ''xyz'')] []]"
  by (simp add: token_inputs_def shouting_page_def is_token_input_def sel_token_input_def hidden_matches)

theorem C7_extract_token_witness:
  "extractToken (page_platform token_page) ''<html>...</html>''
     = Inr \<lparr>tokenName = ''tok_abc'', tokenValue = ''xyz''\<rparr>
   \<and> extractToken (page_platform two_token_page) ''<html>...</html>'' = Inl TokenNotFound
   \<and> extractToken (page_platform []) ''<html>...</html>'' = Inl TokenNotFound
   \<and> extractToken (page_platform shouting_page) ''<input type=HIDDEN ...>''
     = Inr \<lparr>tokenName = ''tok_abc'', tokenValue = ''xyz''\<rparr>"
proof -
  have l: "\<And>doc s. cheerio_load (page_platform doc) s = doc"
    by (simp add: page_platform_def)
  have 1: "extractToken (page_platform token_page) ''<html>...</html>''
     = Inr \<lparr>tokenName = ''tok_abc'', tokenValue = ''xyz''\<rparr>"
    using C7_extract_token[of "page_platform token_page" "''<html>...</html>''",
            THEN conjunct2, THEN conjunct1]
    by (simp add: l token_inputs_token_page has_name_and_value_def hidden_input_def truthy_str_def)
  have 2: "extractToken (page_platform two_token_page) ''<html>...</html>'' = Inl TokenNotFound"
    using C7_extract_token[of "page_platform two_token_page" "''<html>...</html>''",
            THEN conjunct2, THEN conjunct1]
    by (simp add: l token_inputs_two_token_page has_name_and_value_def hidden_input_def truthy_str_def)
  have 3: "extractToken (page_platform []) ''<html>...</html>'' = Inl TokenNotFound"
    using C7_extract_token[of "page_platform []" "''<html>...</html>''",
            THEN conjunct2, THEN conjunct1]
    by (simp add: l token_inputs_def)
  have 4: "extractToken (page_platform shouting_page) ''<input type=HIDDEN ...>''
     = Inr \<lparr>tokenName = ''tok_abc'', tokenValue = ''xyz''\<rparr>"
    using C7_extract_token[of "page_platform shouting_page" "''<input type=HIDDEN ...>''",
            THEN conjunct2, THEN conjunct1]
    by (simp add: l token_inputs_shouting_page has_name_and_value_def truthy_str_def)
  show ?thesis by (intro conjI 1 2 3 4)
qed

text \<open>
  The claim as stated fails: on a page whose first token input has an empty value and
  whose second one is complete, some hidden \<open>tok_\<close> input has both a non-empty name and a
  non-empty value, and yet the extractor fails.
\<close>

theorem C7_extract_token_counterexample:
  "extractToken (page_platform two_token_page) ''<html>...</html>'' = Inl TokenNotFound
   \<and> list_ex has_name_and_value
        (token_inputs (cheerio_load (page_platform two_token_page) ''<html>...</html>''))"
proof -
  have l: "\<And>doc s. cheerio_load (page_platform doc) s = doc"
    by (simp add: page_platform_def)
  have 1: "extractToken (page_platform two_token_page) ''<html>...</html>'' = Inl TokenNotFound"
    by (simp add: extractToken_first l token_inputs_two_token_page has_name_and_value_def
          hidden_input_def truthy_str_def)
  have 2: "list_ex has_name_and_value
        (token_inputs (cheerio_load (page_platform two_token_page) ''<html>...</html>''))"
    by (simp add: l token_inputs_two_token_page has_name_and_value_def hidden_input_def truthy_str_def)
  show ?thesis by (rule conjI[OF 1 2])
qed

section \<open>Properties of the normalizing table parser\<close>

lemma match_registered_None: "(match_registered s = None) = (\<not> contains_registered_on s)"
proof (induction s)
  case Nil
  then show ?case by (simp add: contains_registered_on_def match_registered_at_def)
next
  case (Cons c cs)
  have "contains_registered_on (c # cs) =
          (match_registered_at (c # cs) \<noteq> None \<or> contains_registered_on cs)"
  proof
    assume "contains_registered_on (c # cs)"
    then obtain pre rest where p: "c # cs = pre @ rest" "match_registered_at rest \<noteq> None"
      unfolding contains_registered_on_def by blast
    show "match_registered_at (c # cs) \<noteq> None \<or> contains_registered_on cs"
    proof (cases pre)
      case Nil
      then show ?thesis using p by simp
    next
      case (Cons x xs)
      then have "cs = xs @ rest" using p(1) by simp
      then show ?thesis using p(2) unfolding contains_registered_on_def by blast
    qed
  next
    assume "match_registered_at (c # cs) \<noteq> None \<or> contains_registered_on cs"
    then show "contains_registered_on (c # cs)"
    proof
      assume "match_registered_at (c # cs) \<noteq> None"
      then have "c # cs = [] @ (c # cs) \<and> match_registered_at (c # cs) \<noteq> None" by simp
      then show ?thesis unfolding contains_registered_on_def by blast
    next
      assume "contains_registered_on cs"
      then obtain pre rest where "cs = pre @ rest" "match_registered_at rest \<noteq> None"
        unfolding contains_registered_on_def by blast
      then have "c # cs = (c # pre) @ rest \<and> match_registered_at rest \<noteq> None" by simp
      then show ?thesis unfolding contains_registered_on_def by blast
    qed
  qed
  then show ?case using Cons by (simp split: option.splits)
qed

lemma each_row_map:
  "each_row pf rows cases =
     cases @ map (parse_row pf)
               (filter (\<lambda>cells. 7 \<le> length cells) (map (\<lambda>row. find_in [row] [sel_tag ''td'']) rows))"
  by (induction rows arbitrary: cases) (simp_all add: Let_def)

lemma parseCaseDetailsHtml_map:
  "load_html pf htmlString = Inr doc \<Longrightarrow>
   parseCaseDetailsHtml pf htmlString =
     Inr (map (parse_row pf)
            (filter (\<lambda>cells. 7 \<le> length cells)
               (map (\<lambda>row. find_in [row] [sel_tag ''td'']) (select_in sel_case_rows 1 doc))))"
  by (simp add: parseCaseDetailsHtml_def each_row_map Let_def)

lemma sample_match:
  "match_registered ''W.P.(C) No. 123/2020 Registered on 05-01-2020''
     = Some (''Registered on 05-01-2020'', ''05-01-2020'')"
  by code_simp

lemma sample_case_number:
  "trim (collapse_ws (remove_first ''Registered on 05-01-2020''
       ''W.P.(C) No. 123/2020 Registered on 05-01-2020'')) = ''W.P.(C) No. 123/2020''"
  by code_simp

lemma parse_row_sample:
  assumes "trim (text_of (cells ! 2)) = ''W.P.(C) No. 123/2020 Registered on 05-01-2020''"
  shows "caseNumber (parse_row pf cells) = ''W.P.(C) No. 123/2020''"
    and "registeredOn (parse_row pf cells) = ''05-01-2020''"
  unfolding parse_row_def Let_def assms sample_match
  by (simp_all add: sample_case_number del: collapse_ws.simps remove_first.simps)

lemma parse_row_no_date:
  assumes "\<not> contains_registered_on (trim (text_of (cells ! 2)))"
  shows "caseNumber (parse_row pf cells) = trim (collapse_ws (trim (text_of (cells ! 2))))"
    and "registeredOn (parse_row pf cells) = ''''"
proof -
  have "match_registered (trim (text_of (cells ! 2))) = None"
    using assms by (simp add: match_registered_None)
  then show "caseNumber (parse_row pf cells) = trim (collapse_ws (trim (text_of (cells ! 2))))"
    and "registeredOn (parse_row pf cells) = ''''"
    by (simp_all add: parse_row_def Let_def)
qed

lemma dropWhile_last:
  "dropWhile P xs \<noteq> [] \<Longrightarrow> last (dropWhile P xs) = last xs"
  by (induction xs) (auto split: if_splits)

lemma trim_ends:
  "trim s = [] \<or> (\<not> is_space (hd (trim s)) \<and> \<not> is_space (last (trim s)))"
proof (cases "trim s = []")
  case True
  then show ?thesis by simp
next
  case False
  define u where "u = dropWhile is_space s"
  define v where "v = dropWhile is_space (rev u)"
  have t: "trim s = rev v" by (simp add: trim_def u_def v_def)
  have vne: "v \<noteq> []" using False t by simp
  then have hv: "\<not> is_space (hd v)" unfolding v_def using hd_dropWhile by blast
  have une: "u \<noteq> []" using vne unfolding v_def by auto
  then have hu: "\<not> is_space (hd u)" unfolding u_def using hd_dropWhile by blast
  have "last v = last (rev u)" using vne unfolding v_def by (rule dropWhile_last)
  then have lv: "last v = hd u" using une by (simp add: last_rev)
  have "hd (trim s) = last v" using vne by (simp add: t hd_rev)
  moreover have "last (trim s) = hd v" using vne by (simp add: t last_rev)
  ultimately show ?thesis using hv hu lv by simp
qed

lemma trim_id:
  "t = [] \<or> (\<not> is_space (hd t) \<and> \<not> is_space (last t)) \<Longrightarrow> trim t = t"
proof (cases t)
  case Nil
  then show ?thesis by (simp add: trim_def)
next
  case (Cons c cs)
  assume "t = [] \<or> (\<not> is_space (hd t) \<and> \<not> is_space (last t))"
  then have h: "\<not> is_space c" and l: "\<not> is_space (last t)" using Cons by auto
  have 1: "dropWhile is_space t = t" using h Cons by simp
  have rne: "rev t \<noteq> []" using Cons by simp
  have hr: "hd (rev t) = last t" using Cons by (simp add: hd_rev)
  obtain x xs where r: "rev t = x # xs" using rne by (cases "rev t") auto
  have "x = last t" using hr unfolding r by simp
  then have "\<not> is_space x" using l by simp
  then have 2: "dropWhile is_space (rev t) = rev t" unfolding r by simp
  show ?thesis by (simp add: trim_def 1 2)
qed

lemma collapse_ws_last:
  "t \<noteq> [] \<Longrightarrow> \<not> is_space (last t) \<Longrightarrow>
   collapse_ws t \<noteq> [] \<and> \<not> is_space (last (collapse_ws t))"
proof (induction t rule: collapse_ws.induct)
  case 1
  then show ?case by simp
next
  case (2 c cs)
  show ?case
  proof (cases "is_space c")
    case True
    then have cs: "cs \<noteq> []" using 2(4) by auto
    then have lc: "\<not> is_space (last cs)" using 2(4) by simp
    have dne: "dropWhile is_space cs \<noteq> []"
    proof
      assume "dropWhile is_space cs = []"
      then have "\<forall>x\<in>set cs. is_space x" by (simp add: dropWhile_eq_Nil_conv)
      then show False using cs lc last_in_set by blast
    qed
    then have "last (dropWhile is_space cs) = last cs" by (rule dropWhile_last)
    then show ?thesis using 2(1)[OF True dne] lc True by simp
  next
    case False
    show ?thesis
    proof (cases "cs = []")
      case True
      then show ?thesis using False by simp
    next
      case nonempty: False
      then have "\<not> is_space (last cs)" using 2(4) by simp
      then show ?thesis using 2(2)[OF False nonempty] False by simp
    qed
  qed
qed

lemma collapse_ws_hd: "t \<noteq> [] \<Longrightarrow> \<not> is_space (hd t) \<Longrightarrow> hd (collapse_ws t) = hd t"
  by (cases t) simp_all

lemma trim_collapse_trim: "trim (collapse_ws (trim s)) = collapse_ws (trim s)"
proof (cases "trim s = []")
  case True
  show ?thesis unfolding True by (simp add: trim_def)
next
  case False
  then have e: "\<not> is_space (hd (trim s))" "\<not> is_space (last (trim s))"
    using trim_ends[of s] by auto
  have "collapse_ws (trim s) \<noteq> [] \<and> \<not> is_space (last (collapse_ws (trim s)))"
    by (rule collapse_ws_last[OF False e(2)])
  moreover have "hd (collapse_ws (trim s)) = hd (trim s)"
    by (rule collapse_ws_hd[OF False e(1)])
  ultimately show ?thesis using e(1) by (intro trim_id) simp
qed

text \<open>
  C8, as amended.  For the normalizing parser: a row of at least 7 cells whose case-info
  cell reads \<open>W.P.(C) No. 123/2020 Registered on 05-01-2020\<close> gets the case number
  \<open>W.P.(C) No. 123/2020\<close> and the registration date \<open>05-01-2020\<close>; when the cell does not
  contain the pattern \<open>Registered on DD-MM-YYYY\<close>, the case number is the whole (trimmed)
  text with every run of whitespace collapsed to one space, and the date is empty; a
  fragment without matching rows parses to the empty sequence, not to an error; and the
  records are those of the rows with at least 7 cells, in order, so that a shorter row
  is skipped and the rows after it are still parsed.
\<close>

theorem C8_table_parser:
  "(7 \<le> length cells
      \<and> trim (text_of (cells ! 2)) = ''W.P.(C) No. 123/2020 Registered on 05-01-2020'' \<longrightarrow>
      caseNumber (parse_row pf cells) = ''W.P.(C) No. 123/2020''
      \<and> registeredOn (parse_row pf cells) = ''05-01-2020'')
   \<and> (7 \<le> length cells \<and> \<not> contains_registered_on (trim (text_of (cells ! 2))) \<longrightarrow>
      caseNumber (parse_row pf cells) = collapse_ws (trim (text_of (cells ! 2)))
      \<and> registeredOn (parse_row pf cells) = '''')
   \<and> (load_html pf htmlString = Inr doc \<and> select_in sel_case_rows 1 doc = [] \<longrightarrow>
      parseCaseDetailsHtml pf htmlString = Inr [])
   \<and> (load_html pf htmlString = Inr doc \<longrightarrow>
      parseCaseDetailsHtml pf htmlString =
        Inr (map (parse_row pf)
               (filter (\<lambda>cells. 7 \<le> length cells)
                  (map (\<lambda>row. find_in [row] [sel_tag ''td'']) (select_in sel_case_rows 1 doc)))))"
proof (intro conjI impI)
  assume a: "7 \<le> length cells
      \<and> trim (text_of (cells ! 2)) = ''W.P.(C) No. 123/2020 Registered on 05-01-2020''"
  show "caseNumber (parse_row pf cells) = ''W.P.(C) No. 123/2020''"
    by (rule parse_row_sample) (rule a[THEN conjunct2])
  show "registeredOn (parse_row pf cells) = ''05-01-2020''"
    by (rule parse_row_sample) (rule a[THEN conjunct2])
next
  assume a: "7 \<le> length cells \<and> \<not> contains_registered_on (trim (text_of (cells ! 2)))"
  show "caseNumber (parse_row pf cells) = collapse_ws (trim (text_of (cells ! 2)))"
    using parse_row_no_date(1)[OF a[THEN conjunct2]] by (simp only: trim_collapse_trim)
  show "registeredOn (parse_row pf cells) = ''''"
    by (rule parse_row_no_date(2)[OF a[THEN conjunct2]])
next
  assume "load_html pf htmlString = Inr doc \<and> select_in sel_case_rows 1 doc = []"
  then show "parseCaseDetailsHtml pf htmlString = Inr []"
    by (simp add: parseCaseDetailsHtml_def)
next
  assume "load_html pf htmlString = Inr doc"
  then show "parseCaseDetailsHtml pf htmlString =
        Inr (map (parse_row pf)
               (filter (\<lambda>cells. 7 \<le> length cells)
                  (map (\<lambda>row. find_in [row] [sel_tag ''td'']) (select_in sel_case_rows 1 doc))))"
    by (rule parseCaseDetailsHtml_map)
qed

lemma results_fragment_rows:
  "map (\<lambda>r. (caseNumber r, registeredOn r, viewDetailsLink r))
     (map (parse_row (page_platform results_fragment))
        (filter (\<lambda>cells. 7 \<le> length cells)
           (map (\<lambda>row. find_in [row] [sel_tag ''td''])
              (select_in sel_case_rows 1 results_fragment))))
   = [(''W.P.(C) No. 123/2020'', ''05-01-2020'', ''https://www.sci.gov.in/view/1''),
      (''SLP(C) No. 7/2021'', '''', '''')]"
  by code_simp

lemma nbsp_fragment_rows:
  "map (\<lambda>r. (diaryNumber r, caseNumber r, registeredOn r))
     (map (parse_row (page_platform nbsp_fragment))
        (filter (\<lambda>cells. 7 \<le> length cells)
           (map (\<lambda>row. find_in [row] [sel_tag ''td''])
              (select_in sel_case_rows 1 nbsp_fragment))))
   = [(''2444/2023'', ''W.P.(C) No. 123/2020'', '''')]"
  by code_simp

theorem C8_table_parser_witness:
  "map_sum id (map (\<lambda>r. (caseNumber r, registeredOn r, viewDetailsLink r)))
     (parseCaseDetailsHtml (page_platform results_fragment) (JStr ''<div>...</div>''))
   = Inr [(''W.P.(C) No. 123/2020'', ''05-01-2020'', ''https://www.sci.gov.in/view/1''),
          (''SLP(C) No. 7/2021'', '''', '''')]
   \<and> parseCaseDetailsHtml (page_platform []) (JStr ''<p>No record found</p>'') = Inr []
   \<and> map_sum id (map (\<lambda>r. (diaryNumber r, caseNumber r, registeredOn r)))
        (parseCaseDetailsHtml (page_platform nbsp_fragment) (JStr ''<div>...</div>''))
      = Inr [(''2444/2023'', ''W.P.(C) No. 123/2020'', '''')]"
proof -
  have l: "\<And>doc s. load_html (page_platform doc) (JStr s) = Inr doc"
    by (simp add: load_html_def page_platform_def)
  have 1: "parseCaseDetailsHtml (page_platform results_fragment) (JStr ''<div>...</div>'') =
        Inr (map (parse_row (page_platform results_fragment))
               (filter (\<lambda>cells. 7 \<le> length cells)
                  (map (\<lambda>row. find_in [row] [sel_tag ''td''])
                     (select_in sel_case_rows 1 results_fragment))))"
    by (rule C8_table_parser[THEN conjunct2, THEN conjunct2, THEN conjunct2, rule_format]) (rule l)
  have e: "select_in sel_case_rows 1 [] = []" by simp
  have 2: "parseCaseDetailsHtml (page_platform []) (JStr ''<p>No record found</p>'') = Inr []"
    by (rule C8_table_parser[THEN conjunct2, THEN conjunct2, THEN conjunct1, rule_format])
       (rule conjI[OF l e])
  have 3: "map_sum id (map (\<lambda>r. (caseNumber r, registeredOn r, viewDetailsLink r)))
     (parseCaseDetailsHtml (page_platform results_fragment) (JStr ''<div>...</div>''))
   = Inr [(''W.P.(C) No. 123/2020'', ''05-01-2020'', ''https://www.sci.gov.in/view/1''),
          (''SLP(C) No. 7/2021'', '''', '''')]"
    unfolding 1 by (simp only: map_sum.simps results_fragment_rows)
  have 4: "parseCaseDetailsHtml (page_platform nbsp_fragment) (JStr ''<div>...</div>'') =
        Inr (map (parse_row (page_platform nbsp_fragment))
               (filter (\<lambda>cells. 7 \<le> length cells)
                  (map (\<lambda>row. find_in [row] [sel_tag ''td''])
                     (select_in sel_case_rows 1 nbsp_fragment))))"
    by (rule C8_table_parser[THEN conjunct2, THEN conjunct2, THEN conjunct2, rule_format]) (rule l)
  have 5: "map_sum id (map (\<lambda>r. (diaryNumber r, caseNumber r, registeredOn r)))
        (parseCaseDetailsHtml (page_platform nbsp_fragment) (JStr ''<div>...</div>''))
      = Inr [(''2444/2023'', ''W.P.(C) No. 123/2020'', '''')]"
    unfolding 4 by (simp only: map_sum.simps nbsp_fragment_rows)
  show ?thesis by (intro conjI 3 2 5)
qed

text \<open>
  The claim as stated fails where it says that without the pattern the whole text
  becomes the case number: a cell reading \<open>SLP(C)  No. 7/2021\<close>, with two spaces, has no
  date, and its case number is \<open>SLP(C) No. 7/2021\<close>, with one.
\<close>

theorem C8_table_parser_counterexample:
  "7 \<le> length no_date_cells
   \<and> trim (text_of (no_date_cells ! 2)) = ''SLP(C)  No. 7/2021''
   \<and> \<not> contains_registered_on (trim (text_of (no_date_cells ! 2)))
   \<and> caseNumber (parse_row sample_platform no_date_cells) = ''SLP(C) No. 7/2021''
   \<and> caseNumber (parse_row sample_platform no_date_cells) \<noteq> trim (text_of (no_date_cells ! 2))"
proof -
  have 1: "7 \<le> length no_date_cells" by (simp add: no_date_cells_def)
  have 2: "trim (text_of (no_date_cells ! 2)) = ''SLP(C)  No. 7/2021''" by code_simp
  have m: "match_registered ''SLP(C)  No. 7/2021'' = None" by code_simp
  have 3: "\<not> contains_registered_on (trim (text_of (no_date_cells ! 2)))"
    unfolding 2 by (rule m[unfolded match_registered_None])
  have 4: "caseNumber (parse_row sample_platform no_date_cells) = ''SLP(C) No. 7/2021''"
    by code_simp
  have 5: "caseNumber (parse_row sample_platform no_date_cells) \<noteq> trim (text_of (no_date_cells ! 2))"
    unfolding 2 4 by simp
  show ?thesis by (intro conjI 1 2 3 4 5)
qed

section \<open>Runs against the sample site\<close>

lemma not_ajax_urls:
  "\<not> prefix AJAX_URL_BASE (INITIAL_PAGE_URL @ rest)"
  "\<not> prefix AJAX_URL_BASE (captchaImageUrl scid now)"
  by (simp_all add: AJAX_URL_BASE_def INITIAL_PAGE_URL_def CAPTCHA_IMAGE_BASE_URL_def
        captchaImageUrl_def)

lemma not_ajax_page: "\<not> prefix AJAX_URL_BASE INITIAL_PAGE_URL"
  using not_ajax_urls(1)[of "[]"] by simp

lemma ajax_final_url: "prefix AJAX_URL_BASE (buildFinalUrl d y scid tok answer)"
  by (simp add: buildFinalUrl_def)

lemma site_fetch_other:
  "\<not> prefix AJAX_URL_BASE url \<Longrightarrow>
   fetch (site_world reply) n url =
     Inr \<lparr>resp_ok = True, resp_status = 200, resp_text = ''(page or image)'',
          resp_json = Inl (Thrown ''SyntaxError'' ''Unexpected token'')\<rparr>"
  by (simp add: site_world_def)

lemma site_fetch_ajax:
  "prefix AJAX_URL_BASE url \<Longrightarrow>
   fetch (site_world reply) n url =
     Inr \<lparr>resp_ok = True, resp_status = 200, resp_text = ''(json)'', resp_json = Inr reply\<rparr>"
  by (simp add: site_world_def)

lemma site_fetchHtml:
  "fetchHtml (site_world reply) n INITIAL_PAGE_URL = (Inr ''(page or image)'', [EvFetchHtml INITIAL_PAGE_URL])"
  "fetchHtml (site_world reply) n (initialPageUrlWithCacheBuster now) =
     (Inr ''(page or image)'', [EvFetchHtml (initialPageUrlWithCacheBuster now)])"
  "fetchHtml1 (site_world reply) n (initialPageUrlWithCacheBuster now) =
     (Inr ''(page or image)'', [EvFetchHtml (initialPageUrlWithCacheBuster now)])"
  by (simp_all add: fetchHtml_def fetchHtml1_def initialPageUrlWithCacheBuster_def
        site_fetch_other not_ajax_urls not_ajax_page)

lemma site_fetchImageBuffer:
  "fetchImageBuffer (site_world reply) n (INITIAL_PAGE_URL @ rel) =
     (Inr ''(page or image)'', [EvFetchImageBuffer (INITIAL_PAGE_URL @ rel)])"
  "fetchImageBuffer (site_world reply) n (captchaImageUrl scid now) =
     (Inr ''(page or image)'', [EvFetchImageBuffer (captchaImageUrl scid now)])"
  "fetchImageBuffer1 (site_world reply) n (captchaImageUrl scid now) =
     (Inr ''(page or image)'', [EvFetchImageBuffer (captchaImageUrl scid now)])"
  by (simp_all add: fetchImageBuffer_def fetchImageBuffer1_def site_fetch_other not_ajax_urls)

lemma site_fetchAjax:
  "fetchAjax (site_world reply) n (buildFinalUrl d y scid tok answer) =
     (Inr \<lparr>resp_ok = True, resp_status = 200, resp_text = ''(json)'', resp_json = Inr reply\<rparr>,
      [EvFetchAjax (buildFinalUrl d y scid tok answer)])"
  by (simp add: fetchAjax_def site_fetch_ajax ajax_final_url)

lemma site_solve:
  "solveCaptchaWithGemini (site_world reply) n img = (Inr ''11'', [EvGenerateContent img])"
proof -
  have g: "generateContent (site_world reply) n img = Inr ''11''" by (simp add: site_world_def)
  have m: "match_signed_int (trim ''11'') = Some ''11''" by code_simp
  show ?thesis by (simp add: solveCaptchaWithGemini_def g m Let_def)
qed

lemma site_extractToken:
  "extractToken (page_platform token_page) html = Inr \<lparr>tokenName = ''tok_abc'', tokenValue = ''xyz''\<rparr>"
  by (simp add: extractToken_first page_platform_def token_inputs_token_page has_name_and_value_def
        hidden_input_def truthy_str_def)

lemma site_extractSCID: "extractSCID (page_platform token_page) html = Inr ''77''"
proof -
  have s: "select_in [sel_scid_input] 1 token_page =
      [Element ''input'' [(''type'', ''hidden''), (''id'', ''input_siwp_captcha_id_0''),
                          (''name'', ''scid''), (''value'', ''77'')] []]"
    by (simp add: token_page_def hidden_input_def sel_scid_input_def)
  have l: "cheerio_load (page_platform token_page) html = token_page"
    by (simp add: page_platform_def)
  show ?thesis unfolding extractSCID_def l s
    by (simp add: Let_def sel_attr_def truthy_str_def)
qed

lemma site_extractCaptchaInfo:
  "extractCaptchaInfo (page_platform token_page) html =
     Inr \<lparr>imageUrl = INITIAL_PAGE_URL @ ''?_siwp_captcha&id=77'', imgId = ''77''\<rparr>"
proof -
  have s: "select_in [sel_captcha_image] 1 token_page =
      [Element ''img'' [(''id'', ''siwp_captcha_image_0''), (''src'', ''?_siwp_captcha&id=77'')] []]"
    by (simp add: token_page_def hidden_input_def sel_captcha_image_def)
  have l: "cheerio_load (page_platform token_page) html = token_page"
    by (simp add: page_platform_def)
  show ?thesis unfolding extractCaptchaInfo_def l s
    by (simp add: page_platform_def Let_def sel_attr_def truthy_str_def)
qed

lemma site_fetchEnvelope_server:
  "fetchEnvelope_server (page_platform token_page) (site_world reply) d y n =
     (Inr reply,
      [EvFetchHtml INITIAL_PAGE_URL,
       EvFetchImageBuffer (INITIAL_PAGE_URL @ ''?_siwp_captcha&id=77''),
       EvGenerateContent ''(page or image)'',
       EvFetchAjax (buildFinalUrl d y ''77'' site_token ''11'')])"
  by (simp add: fetchEnvelope_server_def bind_eff_def pure_eff_def site_fetchHtml site_extractToken
        site_extractCaptchaInfo site_fetchImageBuffer site_solve site_fetchAjax site_token_def)

lemma site_attempt_part:
  "attempt_part (page_platform token_page) (site_world reply) d y n =
     (log_success reply,
      [EvFetchHtml (initialPageUrlWithCacheBuster ''1700000000000''),
       EvFetchImageBuffer (captchaImageUrl ''77'' ''1700000000000''),
       EvGenerateContent ''(page or image)'',
       EvFetchAjax (buildFinalUrl d y ''77'' site_token ''11'')])"
proof -
  have dn: "\<And>k. date_now (site_world reply) n k = ''1700000000000''" by (simp add: site_world_def)
  show ?thesis
    by (simp add: attempt_part_def bind_eff_def pure_eff_def dn site_fetchHtml site_extractToken
        site_extractSCID site_fetchImageBuffer site_solve site_fetchAjax site_token_def)
qed

lemma site_fetchAjaxResponse_server1:
  "fetchAjaxResponse_server1 (page_platform token_page) (site_world reply) d y n =
     (Inr \<lparr>resp_ok = True, resp_status = 200, resp_text = ''(json)'', resp_json = Inr reply\<rparr>,
      [EvFetchHtml (initialPageUrlWithCacheBuster ''1700000000000''),
       EvFetchImageBuffer (captchaImageUrl ''77'' ''1700000000000''),
       EvGenerateContent ''(page or image)'',
       EvFetchAjax (buildFinalUrl d y ''77'' site_token ''11'')])"
proof -
  have dn: "\<And>k. date_now (site_world reply) n k = ''1700000000000''" by (simp add: site_world_def)
  show ?thesis
    by (simp add: fetchAjaxResponse_server1_def bind_eff_def pure_eff_def dn site_fetchHtml
        site_extractToken site_extractSCID site_fetchImageBuffer site_solve site_fetchAjax site_token_def)
qed

lemma site_attempt_server1:
  "attempt_server1 (page_platform token_page) (site_world reply) d y k n c =
     ((map_sum (on_abort AjaxTimeout) id (read_success reply),
       [EvFetchHtml (initialPageUrlWithCacheBuster ''1700000000000''),
        EvFetchImageBuffer (captchaImageUrl ''77'' ''1700000000000''),
        EvGenerateContent ''(page or image)'',
        EvFetchAjax (buildFinalUrl d y ''77'' site_token ''11''),
        EvCacheSet k reply]),
      cache_set c k reply)"
  by (simp add: attempt_server1_def site_fetchAjaxResponse_server1)

section \<open>The cache of server1.js\<close>

text \<open>What does hold: a truthy cached entry is returned at once, and nothing is touched.\<close>

lemma cache_hit_truthy:
  "truthy (cache_get c (d @ ''/'' @ y)) \<Longrightarrow>
   getCaseDetailsProcess_server1 M pf w d y c = ((Inr (cache_get c (d @ ''/'' @ y)), []), c)"
  by (simp add: getCaseDetailsProcess_server1_def Let_def)

lemma cache_miss_loop:
  "\<not> truthy (cache_get c (d @ ''/'' @ y)) \<Longrightarrow>
   getCaseDetailsProcess_server1 M pf w d y c =
     retry_loop M (attempt_server1 pf w d y (d @ ''/'' @ y)) (exponentialBackoff w) 0
       ProcessNotAttempted c"
  by (simp add: getCaseDetailsProcess_server1_def Let_def)

lemma retry_loop_three_failures:
  assumes "\<And>n c. att n c = ((Inl E, evs), upd c)"
  shows "retry_loop 3 att delay 0 e c =
           ((Inl E, evs @ [EvSleep (delay 1)] @ evs @ [EvSleep (delay 2)] @ evs), upd (upd (upd c)))"
proof -
  let ?M = "Suc (Suc (Suc 0))"
  have 3: "retry_loop ?M att delay ?M E (upd (upd (upd c))) = ((Inl E, []), upd (upd (upd c)))"
    by (simp add: retry_loop_done)
  have 2: "retry_loop ?M att delay (Suc (Suc 0)) E (upd (upd c)) = ((Inl E, evs), upd (upd (upd c)))"
    using retry_loop_step_Inl[where attempt=att and attempts="Suc (Suc 0)" and s="upd (upd c)"
            and M="?M" and delay=delay and lastError=E, OF _ assms[of ?M "upd (upd c)"]]
    by (simp add: 3)
  have 1: "retry_loop ?M att delay (Suc 0) E (upd c) =
             ((Inl E, evs @ [EvSleep (delay (Suc (Suc 0)))] @ evs), upd (upd (upd c)))"
    using retry_loop_step_Inl[where attempt=att and attempts="Suc 0" and s="upd c" and M="?M"
            and delay=delay and lastError=E, OF _ assms[of "Suc (Suc 0)" "upd c"]]
    by (simp add: 2)
  have 0: "retry_loop ?M att delay 0 e c =
           ((Inl E, evs @ [EvSleep (delay (Suc 0))] @ evs @ [EvSleep (delay (Suc (Suc 0)))] @ evs),
            upd (upd (upd c)))"
    using retry_loop_step_Inl[where attempt=att and attempts=0 and s=c and M="?M"
            and delay=delay and lastError=e, OF _ assms[of "Suc 0" c]]
    by (simp add: 1)
  show ?thesis unfolding numeral_3_eq_3 numeral_2_eq_2 One_nat_def by (rule 0)
qed

text \<open>
  C3 on the code.  First run: the site answers the final request with the JSON text
  \<open>null\<close>.  Each of the three attempts stores \<open>null\<close> in the cache and then fails on
  reading \<open>responseData.success\<close>; the lookup ends in that failure, having written the
  cache three times, and the entry stays.  Second run: the site answers \<open>0\<close>.  The
  lookup succeeds and stores \<open>0\<close>; the next lookup for the same key finds the entry,
  takes it for a miss because \<open>0\<close> is falsy, and fetches the page again.
\<close>

theorem C3_cache_falsy_payloads:
  "fst (fst (getCaseDetailsProcess_server1 3 (page_platform token_page) (site_world JNull)
              ''2444'' ''2023'' Map.empty))
     = Inl (Thrown ''TypeError'' ''Cannot read properties of null (reading success)'')
   \<and> filter is_cache_set (snd (fst (getCaseDetailsProcess_server1 3 (page_platform token_page)
              (site_world JNull) ''2444'' ''2023'' Map.empty)))
     = [EvCacheSet ''2444/2023'' JNull, EvCacheSet ''2444/2023'' JNull, EvCacheSet ''2444/2023'' JNull]
   \<and> snd (getCaseDetailsProcess_server1 3 (page_platform token_page) (site_world JNull)
              ''2444'' ''2023'' Map.empty) ''2444/2023'' = Some JNull
   \<and> fst (fst (getCaseDetailsProcess_server1 3 (page_platform token_page) (site_world (JNum 0))
              ''2444'' ''2023'' Map.empty)) = Inr (JNum 0)
   \<and> snd (getCaseDetailsProcess_server1 3 (page_platform token_page) (site_world (JNum 0))
              ''2444'' ''2023'' Map.empty) ''2444/2023'' = Some (JNum 0)
   \<and> take 1 (snd (fst (getCaseDetailsProcess_server1 3 (page_platform token_page) (site_world (JNum 0))
              ''2444'' ''2023''
              (snd (getCaseDetailsProcess_server1 3 (page_platform token_page) (site_world (JNum 0))
                      ''2444'' ''2023'' Map.empty)))))
     = [EvFetchHtml (initialPageUrlWithCacheBuster ''1700000000000'')]"
proof -
  let ?pf = "page_platform token_page"
  let ?key = "''2444'' @ ''/'' @ ''2023''"
  let ?E = "Thrown ''TypeError'' ''Cannot read properties of null (reading success)''"
  let ?evs = "\<lambda>reply. [EvFetchHtml (initialPageUrlWithCacheBuster ''1700000000000''),
        EvFetchImageBuffer (captchaImageUrl ''77'' ''1700000000000''),
        EvGenerateContent ''(page or image)'',
        EvFetchAjax (buildFinalUrl ''2444'' ''2023'' ''77'' site_token ''11''),
        EvCacheSet ?key reply]"
  have miss: "\<not> truthy (cache_get Map.empty ?key)" by (simp add: cache_get_def)
  have att_null: "\<And>n c. attempt_server1 ?pf (site_world JNull) ''2444'' ''2023'' ?key n c =
        ((Inl ?E, ?evs JNull), cache_set c ?key JNull)"
    by (simp add: site_attempt_server1 read_success_def on_abort_def)
  have run_null: "getCaseDetailsProcess_server1 3 ?pf (site_world JNull) ''2444'' ''2023'' Map.empty =
        ((Inl ?E, ?evs JNull @ [EvSleep (exponentialBackoff (site_world JNull) 1)] @ ?evs JNull
                   @ [EvSleep (exponentialBackoff (site_world JNull) 2)] @ ?evs JNull),
         cache_set (cache_set (cache_set Map.empty ?key JNull) ?key JNull) ?key JNull)"
    unfolding cache_miss_loop[OF miss]
    by (rule retry_loop_three_failures) (rule att_null)
  have 1: "fst (fst (getCaseDetailsProcess_server1 3 ?pf (site_world JNull) ''2444'' ''2023'' Map.empty))
     = Inl ?E"
    unfolding run_null by simp
  have 2: "filter is_cache_set (snd (fst (getCaseDetailsProcess_server1 3 ?pf
              (site_world JNull) ''2444'' ''2023'' Map.empty)))
     = [EvCacheSet ''2444/2023'' JNull, EvCacheSet ''2444/2023'' JNull, EvCacheSet ''2444/2023'' JNull]"
    unfolding run_null by simp
  have 3: "snd (getCaseDetailsProcess_server1 3 ?pf (site_world JNull)
              ''2444'' ''2023'' Map.empty) ''2444/2023'' = Some JNull"
    unfolding run_null by (simp add: cache_set_def)
  have att_zero: "\<And>n c. attempt_server1 ?pf (site_world (JNum 0)) ''2444'' ''2023'' ?key n c =
        ((Inr (JNum 0), ?evs (JNum 0)), cache_set c ?key (JNum 0))"
    by (simp add: site_attempt_server1 read_success_def)
  have run_zero: "\<And>c. \<not> truthy (cache_get c ?key) \<Longrightarrow>
        getCaseDetailsProcess_server1 3 ?pf (site_world (JNum 0)) ''2444'' ''2023'' c =
        ((Inr (JNum 0), ?evs (JNum 0)), cache_set c ?key (JNum 0))"
  proof -
    fix c :: cache
    assume m: "\<not> truthy (cache_get c ?key)"
    show "getCaseDetailsProcess_server1 3 ?pf (site_world (JNum 0)) ''2444'' ''2023'' c =
        ((Inr (JNum 0), ?evs (JNum 0)), cache_set c ?key (JNum 0))"
      unfolding cache_miss_loop[OF m]
      by (rule retry_loop_step_Inr[where attempts=0 and M=3, OF _ att_zero]) simp
  qed
  have 4: "fst (fst (getCaseDetailsProcess_server1 3 ?pf (site_world (JNum 0))
              ''2444'' ''2023'' Map.empty)) = Inr (JNum 0)"
    unfolding run_zero[OF miss] by simp
  have 5: "snd (getCaseDetailsProcess_server1 3 ?pf (site_world (JNum 0))
              ''2444'' ''2023'' Map.empty) ''2444/2023'' = Some (JNum 0)"
    unfolding run_zero[OF miss] by (simp add: cache_set_def)
  have miss2: "\<not> truthy (cache_get (cache_set Map.empty ?key (JNum 0)) ?key)"
    by (simp add: cache_get_def cache_set_def)
  have 6: "take 1 (snd (fst (getCaseDetailsProcess_server1 3 ?pf (site_world (JNum 0))
              ''2444'' ''2023''
              (snd (getCaseDetailsProcess_server1 3 ?pf (site_world (JNum 0))
                      ''2444'' ''2023'' Map.empty)))))
     = [EvFetchHtml (initialPageUrlWithCacheBuster ''1700000000000'')]"
    unfolding run_zero[OF miss] snd_conv run_zero[OF miss2] by simp
  show ?thesis by (intro conjI 1 2 3 4 5 6)
qed

section \<open>Responses of the endpoint\<close>

lemma time_bad_request: "map_of (http_body (bad_request e tm)) ''timeTakenMs'' = Some tm"
  by (simp add: bad_request_def)

lemma time_server_error: "map_of (http_body (server_error e tm)) ''timeTakenMs'' = Some tm"
  by (simp add: server_error_def)

lemma time_respond_normalized:
  "map_of (http_body (respond_normalized pf t sr)) ''timeTakenMs'' = Some (BTime t)"
  by (simp add: respond_normalized_def time_server_error Let_def split: sum.splits)

lemma time_normalizing:
  "fst (api_case_details_normalizing pf w t body) = Inr resp \<Longrightarrow>
   map_of (http_body resp) ''timeTakenMs'' = Some (BTime t)"
  by (auto simp: api_case_details_normalizing_def time_bad_request time_server_error
        time_respond_normalized split: sum.splits prod.splits)

lemma time_passthrough:
  "fst (api_case_details_passthrough pf w t body) = Inr resp \<Longrightarrow>
   map_of (http_body resp) ''timeTakenMs'' = Some (BTime t)"
  by (auto simp: api_case_details_passthrough_def time_bad_request time_server_error
        split: sum.splits prod.splits)

lemma time_server:
  "fst (api_case_details_server pf w t body) = Inr resp \<Longrightarrow>
   map_of (http_body resp) ''timeTakenMs'' = Some (BTime t)"
  by (auto simp: api_case_details_server_def time_bad_request time_server_error
        split: sum.splits prod.splits)

lemma time_server1:
  "fst (fst (api_case_details_server1 M pf w ts body c)) = Inr resp \<Longrightarrow>
   map_of (http_body resp) ''timeTakenMs'' = Some (BTimeText ts)"
  by (auto simp: api_case_details_server1_def time_bad_request time_server_error
        split: sum.splits prod.splits)

lemma normalizing_lookup_failed:
  assumes "destructure_diaryData body = Inr v" and "validate_diaryData v = Inr (d, y)"
    and "fst (getCaseDetailsProcess_part pf w d y) = Inl e"
  shows "fst (api_case_details_normalizing pf w t body) = Inr (server_error (FailedToRetrieve e) (BTime t))"
  using assms(3) unfolding handlers_accept(4)[OF assms(1,2)]
  by (cases "getCaseDetailsProcess_part pf w d y") simp

lemma normalizing_lookup_returned:
  assumes "destructure_diaryData body = Inr v" and "validate_diaryData v = Inr (d, y)"
    and "fst (getCaseDetailsProcess_part pf w d y) = Inr sr"
  shows "fst (api_case_details_normalizing pf w t body) = Inr (respond_normalized pf t sr)"
  using assms(3) unfolding handlers_accept(4)[OF assms(1,2)]
  by (cases "getCaseDetailsProcess_part pf w d y") simp

lemma part_exhausted:
  assumes "\<forall>n. 1 \<le> n \<and> n \<le> 3 \<longrightarrow> fst (attempt_part pf w d y n) = Inl (err n)"
  shows "fst (getCaseDetailsProcess_part pf w d y) = Inl (err 3)"
proof -
  let ?att = "\<lambda>n (s::unit). (attempt_part pf w d y n, s)"
  have "fst (fst (retry_loop 3 ?att (exponentialBackoff w) 0 ProcessNotAttempted ()))
          = Inl (if 0 < (3::nat) then err 3 else ProcessNotAttempted)"
    by (rule retry_loop_all_fail_error) (use assms in simp)
  then show ?thesis by (simp add: getCaseDetailsProcess_part_def)
qed

text \<open>
  The log line of the 422 branch: when the error message of the envelope cannot be
  converted to a string, the template literal throws inside the \<open>try\<close> block and the
  \<open>catch\<close> answers 500.
\<close>

lemma respond_normalized_log_throws:
  assumes "truthy sr" and "js_get sr ''success'' = JBool False"
    and "to_string_throws (source_error_message sr)"
  shows "respond_normalized pf t sr =
           server_error (FailedToRetrieve (Thrown ''TypeError'' ''Cannot convert object to primitive value''))
             (BTime t)"
  using assms by (simp add: respond_normalized_def template_literal_def Let_def)

text \<open>
  C9, as amended.  In the normalizing handler: an envelope with \<open>success === false\<close>
  whose error message is written to the log is answered with 422 and that message; an
  envelope with \<open>success === true\<close> that carries a non-empty \<open>data.resultsHtml\<close> which the
  parser accepts is answered with 200, \<open>success: true\<close> and the parsed records; every
  other envelope (success neither \<open>true\<close> nor \<open>false\<close>, or \<open>true\<close> without a results
  fragment), a parser exception and a failed lookup, exhausted retries included, are
  answered with 500; and every response that this handler and the other three send
  carries \<open>timeTakenMs\<close>.
\<close>

theorem C9_normalizing_responses:
  "(truthy sr \<and> js_get sr ''success'' = JBool False \<and> \<not> to_string_throws (source_error_message sr) \<longrightarrow>
      http_status (respond_normalized pf t sr) = 422
      \<and> map_of (http_body (respond_normalized pf t sr)) ''success'' = Some (BBool False)
      \<and> map_of (http_body (respond_normalized pf t sr)) ''error''
          = Some (BError (SourceReported (source_error_message sr))))
   \<and> (truthy sr \<and> js_get sr ''success'' = JBool True \<and> truthy (js_get sr ''data'')
       \<and> truthy (js_get (js_get sr ''data'') ''resultsHtml'')
       \<and> parseCaseDetailsHtml pf (js_get (js_get sr ''data'') ''resultsHtml'') = Inr records \<longrightarrow>
      http_status (respond_normalized pf t sr) = 200
      \<and> map_of (http_body (respond_normalized pf t sr)) ''success'' = Some (BBool True)
      \<and> map_of (http_body (respond_normalized pf t sr)) ''data'' = Some (BCases records))
   \<and> (truthy sr \<and> js_get sr ''success'' = JBool True \<and> truthy (js_get sr ''data'')
       \<and> truthy (js_get (js_get sr ''data'') ''resultsHtml'')
       \<and> parseCaseDetailsHtml pf (js_get (js_get sr ''data'') ''resultsHtml'') = Inl e \<longrightarrow>
      http_status (respond_normalized pf t sr) = 500)
   \<and> (\<not> (truthy sr \<and> js_get sr ''success'' = JBool False)
       \<and> \<not> (truthy sr \<and> js_get sr ''success'' = JBool True \<and> truthy (js_get sr ''data'')
             \<and> truthy (js_get (js_get sr ''data'') ''resultsHtml'')) \<longrightarrow>
      http_status (respond_normalized pf t sr) = 500)
   \<and> (destructure_diaryData body = Inr v \<and> validate_diaryData v = Inr (d, y)
       \<and> fst (getCaseDetailsProcess_part pf w d y) = Inr sr \<longrightarrow>
      fst (api_case_details_normalizing pf w t body) = Inr (respond_normalized pf t sr))
   \<and> (destructure_diaryData body = Inr v \<and> validate_diaryData v = Inr (d, y)
       \<and> fst (getCaseDetailsProcess_part pf w d y) = Inl e \<longrightarrow>
      fst (api_case_details_normalizing pf w t body) = Inr (server_error (FailedToRetrieve e) (BTime t))
      \<and> http_status (server_error (FailedToRetrieve e) (BTime t)) = 500)
   \<and> (destructure_diaryData body = Inr v \<and> validate_diaryData v = Inr (d, y)
       \<and> (\<forall>n. 1 \<le> n \<and> n \<le> 3 \<longrightarrow> fst (attempt_part pf w d y n) = Inl (err n)) \<longrightarrow>
      fst (api_case_details_normalizing pf w t body)
        = Inr (server_error (FailedToRetrieve (err 3)) (BTime t)))
   \<and> (fst (api_case_details_normalizing pf w t body) = Inr resp \<longrightarrow>
        map_of (http_body resp) ''timeTakenMs'' = Some (BTime t))
   \<and> (fst (fst (api_case_details_server1 M pf w ts body c)) = Inr resp \<longrightarrow>
        map_of (http_body resp) ''timeTakenMs'' = Some (BTimeText ts))
   \<and> (fst (api_case_details_passthrough pf w t body) = Inr resp \<longrightarrow>
        map_of (http_body resp) ''timeTakenMs'' = Some (BTime t))
   \<and> (fst (api_case_details_server pf w t body) = Inr resp \<longrightarrow>
        map_of (http_body resp) ''timeTakenMs'' = Some (BTime t))"
proof (intro conjI impI)
  assume "truthy sr \<and> js_get sr ''success'' = JBool False \<and> \<not> to_string_throws (source_error_message sr)"
  then show "http_status (respond_normalized pf t sr) = 422"
    and "map_of (http_body (respond_normalized pf t sr)) ''success'' = Some (BBool False)"
    and "map_of (http_body (respond_normalized pf t sr)) ''error''
          = Some (BError (SourceReported (source_error_message sr)))"
    by (simp_all add: respond_normalized_def template_literal_def Let_def)
next
  assume a: "truthy sr \<and> js_get sr ''success'' = JBool True \<and> truthy (js_get sr ''data'')
       \<and> truthy (js_get (js_get sr ''data'') ''resultsHtml'')
       \<and> parseCaseDetailsHtml pf (js_get (js_get sr ''data'') ''resultsHtml'') = Inr records"
  then show "http_status (respond_normalized pf t sr) = 200"
    and "map_of (http_body (respond_normalized pf t sr)) ''success'' = Some (BBool True)"
    and "map_of (http_body (respond_normalized pf t sr)) ''data'' = Some (BCases records)"
    by (simp_all add: respond_normalized_def)
next
  assume "truthy sr \<and> js_get sr ''success'' = JBool True \<and> truthy (js_get sr ''data'')
       \<and> truthy (js_get (js_get sr ''data'') ''resultsHtml'')
       \<and> parseCaseDetailsHtml pf (js_get (js_get sr ''data'') ''resultsHtml'') = Inl e"
  then show "http_status (respond_normalized pf t sr) = 500"
    by (simp add: respond_normalized_def server_error_def)
next
  assume "\<not> (truthy sr \<and> js_get sr ''success'' = JBool False)
       \<and> \<not> (truthy sr \<and> js_get sr ''success'' = JBool True \<and> truthy (js_get sr ''data'')
             \<and> truthy (js_get (js_get sr ''data'') ''resultsHtml''))"
  then show "http_status (respond_normalized pf t sr) = 500"
    by (auto simp: respond_normalized_def server_error_def)
next
  assume "destructure_diaryData body = Inr v \<and> validate_diaryData v = Inr (d, y)
       \<and> fst (getCaseDetailsProcess_part pf w d y) = Inr sr"
  then show "fst (api_case_details_normalizing pf w t body) = Inr (respond_normalized pf t sr)"
    using normalizing_lookup_returned by blast
next
  assume "destructure_diaryData body = Inr v \<and> validate_diaryData v = Inr (d, y)
       \<and> fst (getCaseDetailsProcess_part pf w d y) = Inl e"
  then show "fst (api_case_details_normalizing pf w t body) = Inr (server_error (FailedToRetrieve e) (BTime t))"
    using normalizing_lookup_failed by blast
  show "http_status (server_error (FailedToRetrieve e) (BTime t)) = 500"
    by (simp add: server_error_def)
next
  assume a: "destructure_diaryData body = Inr v \<and> validate_diaryData v = Inr (d, y)
       \<and> (\<forall>n. 1 \<le> n \<and> n \<le> 3 \<longrightarrow> fst (attempt_part pf w d y n) = Inl (err n))"
  then have "fst (getCaseDetailsProcess_part pf w d y) = Inl (err 3)"
    using part_exhausted by blast
  then show "fst (api_case_details_normalizing pf w t body)
        = Inr (server_error (FailedToRetrieve (err 3)) (BTime t))"
    using a normalizing_lookup_failed by blast
next
  assume "fst (api_case_details_normalizing pf w t body) = Inr resp"
  then show "map_of (http_body resp) ''timeTakenMs'' = Some (BTime t)" by (rule time_normalizing)
next
  assume "fst (fst (api_case_details_server1 M pf w ts body c)) = Inr resp"
  then show "map_of (http_body resp) ''timeTakenMs'' = Some (BTimeText ts)" by (rule time_server1)
next
  assume "fst (api_case_details_passthrough pf w t body) = Inr resp"
  then show "map_of (http_body resp) ''timeTakenMs'' = Some (BTime t)" by (rule time_passthrough)
next
  assume "fst (api_case_details_server pf w t body) = Inr resp"
  then show "map_of (http_body resp) ''timeTakenMs'' = Some (BTime t)" by (rule time_server)
qed

lemma site_lookup_part:
  assumes "log_success reply = Inr reply"
  shows "fst (getCaseDetailsProcess_part (page_platform token_page) (site_world reply) d y) = Inr reply"
proof -
  let ?att = "\<lambda>n (s::unit). (attempt_part (page_platform token_page) (site_world reply) d y n, s)"
  have "?att (Suc 0) () = ((Inr reply,
      [EvFetchHtml (initialPageUrlWithCacheBuster ''1700000000000''),
       EvFetchImageBuffer (captchaImageUrl ''77'' ''1700000000000''),
       EvGenerateContent ''(page or image)'',
       EvFetchAjax (buildFinalUrl d y ''77'' site_token ''11'')]), ())"
    using assms by (simp add: site_attempt_part)
  then have "fst (fst (retry_loop 3 ?att (exponentialBackoff (site_world reply)) 0 ProcessNotAttempted ()))
      = Inr reply"
    using retry_loop_step_Inr[where attempt="?att" and attempts=0 and M=3 and s="()"] by simp
  then show ?thesis by (simp add: getCaseDetailsProcess_part_def)
qed

lemma attempt_part_failing_world:
  "fst (attempt_part pf failing_world d y n) =
     Inl (FetchHtmlHttp (500 + n) (initialPageUrlWithCacheBuster ''1700000000000''))"
  by (simp add: snd_attempt_part_failing_world)

theorem C9_normalizing_responses_witness:
  "fst (api_case_details_normalizing (page_platform token_page)
       (site_world rejected_envelope) 12 (diary_body ''2444/2023''))
     = Inr \<lparr>http_status = 422,
            http_body = [(''success'', BBool False),
                         (''error'', BError (SourceReported (JStr ''The captcha is incorrect''))),
                         (''timeTakenMs'', BTime 12)]\<rparr>
   \<and> fst (api_case_details_normalizing (page_platform token_page)
       failing_world 12 (diary_body ''2444/2023''))
     = Inr (server_error (FailedToRetrieve
              (FetchHtmlHttp 503 (initialPageUrlWithCacheBuster ''1700000000000''))) (BTime 12))
   \<and> http_status (respond_normalized (page_platform results_fragment) 12 results_envelope) = 200
   \<and> map_of (http_body (respond_normalized (page_platform results_fragment) 12 results_envelope)) ''timeTakenMs''
       = Some (BTime 12)"
proof -
  let ?pf = "page_platform token_page"
  let ?b = "diary_body ''2444/2023''"
  let ?err = "\<lambda>n. FetchHtmlHttp (500 + n) (initialPageUrlWithCacheBuster ''1700000000000'')"
  note T = C9_normalizing_responses
  note db = destructure_diary_body[of "''2444/2023''"]
  have look: "fst (getCaseDetailsProcess_part ?pf (site_world rejected_envelope) ''2444'' ''2023'')
      = Inr rejected_envelope"
    by (rule site_lookup_part)
       (simp add: rejected_envelope_def log_success_def read_success_def template_literal_def)
  have h: "fst (api_case_details_normalizing ?pf (site_world rejected_envelope) 12 ?b)
      = Inr (respond_normalized ?pf 12 rejected_envelope)"
    by (rule T[of rejected_envelope ?pf 12 _ _ ?b "JStr ''2444/2023''" "''2444''" "''2023''"
               "site_world rejected_envelope",
          THEN conjunct2, THEN conjunct2, THEN conjunct2, THEN conjunct2, THEN conjunct1, rule_format])
       (intro conjI db validate_samples(1) look)
  have m: "source_error_message rejected_envelope = JStr ''The captcha is incorrect''"
    by (simp add: source_error_message_def rejected_envelope_def)
  have r: "truthy rejected_envelope \<and> js_get rejected_envelope ''success'' = JBool False
           \<and> \<not> to_string_throws (source_error_message rejected_envelope)"
    unfolding m by (simp add: rejected_envelope_def)
  note r422 = T[of rejected_envelope ?pf 12, THEN conjunct1, rule_format, OF r]
  have t12: "map_of (http_body (respond_normalized ?pf 12 rejected_envelope)) ''timeTakenMs'' = Some (BTime 12)"
    by (rule T[THEN conjunct2, THEN conjunct2, THEN conjunct2, THEN conjunct2, THEN conjunct2,
               THEN conjunct2, THEN conjunct2, THEN conjunct1, rule_format, OF h])
  have 1: "fst (api_case_details_normalizing ?pf (site_world rejected_envelope) 12 ?b)
     = Inr \<lparr>http_status = 422,
            http_body = [(''success'', BBool False),
                         (''error'', BError (SourceReported (JStr ''The captcha is incorrect''))),
                         (''timeTakenMs'', BTime 12)]\<rparr>"
    unfolding h using r422[THEN conjunct1] r
    by (simp add: respond_normalized_def Let_def template_literal_def m)
  have f: "destructure_diaryData ?b = Inr (JStr ''2444/2023'')
       \<and> validate_diaryData (JStr ''2444/2023'') = Inr (''2444'', ''2023'')
       \<and> (\<forall>n. 1 \<le> n \<and> n \<le> 3 \<longrightarrow> fst (attempt_part ?pf failing_world ''2444'' ''2023'' n) = Inl (?err n))"
    by (simp add: db validate_samples(1) attempt_part_failing_world)
  have 2: "fst (api_case_details_normalizing ?pf failing_world 12 ?b)
        = Inr (server_error (FailedToRetrieve (?err 3)) (BTime 12))"
    by (rule T[of _ ?pf 12 _ _ ?b "JStr ''2444/2023''" "''2444''" "''2023''" failing_world ?err,
          THEN conjunct2, THEN conjunct2, THEN conjunct2, THEN conjunct2, THEN conjunct2,
          THEN conjunct2, THEN conjunct1, rule_format])
       (rule f)
  let ?pr = "page_platform results_fragment"
  have l: "load_html ?pr (JStr ''<div class=distTableContent>...</div>'') = Inr results_fragment"
    by (simp add: load_html_def page_platform_def)
  have e: "truthy results_envelope \<and> js_get results_envelope ''success'' = JBool True
       \<and> truthy (js_get results_envelope ''data'')
       \<and> truthy (js_get (js_get results_envelope ''data'') ''resultsHtml'')
       \<and> parseCaseDetailsHtml ?pr (js_get (js_get results_envelope ''data'') ''resultsHtml'')
          = Inr (map (parse_row ?pr)
            (filter (\<lambda>cells. 7 \<le> length cells)
               (map (\<lambda>row. find_in [row] [sel_tag ''td'']) (select_in sel_case_rows 1 results_fragment))))"
    by (simp add: results_envelope_def parseCaseDetailsHtml_map[OF l])
  have 4: "http_status (respond_normalized ?pr 12 results_envelope) = 200"
    by (rule T[of results_envelope ?pr, THEN conjunct2, THEN conjunct1, rule_format, THEN conjunct1])
       (rule e)
  have 5: "map_of (http_body (respond_normalized ?pr 12 results_envelope)) ''timeTakenMs'' = Some (BTime 12)"
    by (rule time_respond_normalized)
  have "FetchHtmlHttp (500 + 3) (initialPageUrlWithCacheBuster ''1700000000000'')
          = FetchHtmlHttp 503 (initialPageUrlWithCacheBuster ''1700000000000'')" by simp
  then show ?thesis using 1 2 4 5 by simp
qed

text \<open>
  The claim as stated fails where it promises a 200 whenever the envelope reports
  success: an envelope \<open>{success: true, data: {}}\<close> is answered with 500.
\<close>

theorem C9_normalizing_responses_counterexample:
  "js_get bare_success_envelope ''success'' = JBool True
   \<and> fst (getCaseDetailsProcess_part (page_platform token_page) (site_world bare_success_envelope)
            ''2444'' ''2023'') = Inr bare_success_envelope
   \<and> fst (api_case_details_normalizing (page_platform token_page)
        (site_world bare_success_envelope) 12 (diary_body ''2444/2023''))
       = Inr (server_error UnexpectedStructure (BTime 12))
   \<and> http_status (server_error UnexpectedStructure (BTime 12)) = 500"
proof -
  have 1: "js_get bare_success_envelope ''success'' = JBool True"
    by (simp add: bare_success_envelope_def)
  have 2: "fst (getCaseDetailsProcess_part (page_platform token_page) (site_world bare_success_envelope)
            ''2444'' ''2023'') = Inr bare_success_envelope"
    by (rule site_lookup_part)
       (simp add: bare_success_envelope_def log_success_def read_success_def template_literal_def)
  have h: "fst (api_case_details_normalizing (page_platform token_page)
        (site_world bare_success_envelope) 12 (diary_body ''2444/2023''))
      = Inr (respond_normalized (page_platform token_page) 12 bare_success_envelope)"
    by (rule normalizing_lookup_returned[OF destructure_diary_body validate_samples(1) 2])
  have 3: "fst (api_case_details_normalizing (page_platform token_page)
        (site_world bare_success_envelope) 12 (diary_body ''2444/2023''))
       = Inr (server_error UnexpectedStructure (BTime 12))"
    unfolding h by (simp add: respond_normalized_def bare_success_envelope_def)
  have 4: "http_status (server_error UnexpectedStructure (BTime 12)) = 500"
    by (simp add: server_error_def)
  show ?thesis by (intro conjI 1 2 3 4)
qed

section \<open>The single-record variant\<close>

lemma retry_loop_Inr:
  "fst (fst (retry_loop M attempt delay a e s)) = Inr v \<Longrightarrow>
   \<exists>n s'. a < n \<and> n \<le> M \<and> fst (fst (attempt n s')) = Inr v"
proof (induction "M - a" arbitrary: a e s)
  case 0
  then show ?case by (simp add: retry_loop_done)
next
  case (Suc k)
  then have lt: "a < M" by simp
  obtain r evs s' where att: "attempt (Suc a) s = ((r, evs), s')"
    by (metis surj_pair)
  show ?case
  proof (cases r)
    case (Inr x)
    have "retry_loop M attempt delay a e s = ((Inr x, evs), s')"
      by (rule retry_loop_step_Inr[where attempt=attempt and attempts=a and s=s, OF lt att[unfolded Inr]])
    then have "x = v" using Suc.prems by simp
    then have "fst (fst (attempt (Suc a) s)) = Inr v" using att Inr by simp
    then show ?thesis using lt by (intro exI[of _ "Suc a"] exI[of _ s]) simp
  next
    case (Inl x)
    have k: "k = M - Suc a" using Suc.hyps(2) by simp
    have "fst (fst (retry_loop M attempt delay (Suc a) x s')) = Inr v"
      using Suc.prems
      by (simp add: retry_loop_step_Inl[where attempt=attempt and attempts=a and s=s, OF lt att[unfolded Inl]]
            split: prod.splits)
    from Suc.hyps(1)[OF k this] obtain n s'' where
      "Suc a < n" "n \<le> M" "fst (fst (attempt n s'')) = Inr v" by blast
    then show ?thesis by (intro exI[of _ n] exI[of _ s'']) simp
  qed
qed

lemma parse_single_no_rows:
  "load_html pf h = Inr doc \<Longrightarrow> select_in sel_case_rows 1 doc = [] \<Longrightarrow>
   parseCaseDetailsFromHtml pf h = Inl CaseDetailsParseError"
  by (simp add: parseCaseDetailsFromHtml_def)

lemma parse_single_diary:
  "parseCaseDetailsFromHtml pf h = Inr r \<Longrightarrow>
   \<exists>doc. load_html pf h = Inr doc \<and> select_in sel_case_rows 1 doc \<noteq> []
     \<and> diaryNumber r = trim (sel_text (find_in (take 1 (select_in sel_case_rows 1 doc)) [sel_td_nth_child 2]))
     \<and> diaryNumber r \<noteq> []"
  by (auto simp: parseCaseDetailsFromHtml_def Let_def split: sum.splits if_splits)

lemma parse_single_no_record:
  assumes "load_html pf h = Inr doc" and "no_record doc"
  shows "\<exists>e. parseCaseDetailsFromHtml pf h = Inl e"
proof (cases "parseCaseDetailsFromHtml pf h")
  case (Inl e)
  then show ?thesis by blast
next
  case (Inr r)
  from parse_single_diary[OF Inr] assms show ?thesis by (auto simp: no_record_def)
qed

lemma parse_single_first_row:
  assumes "load_html pf h = Inr doc" and "load_html pf h' = Inr doc'"
    and "take 1 (select_in sel_case_rows 1 doc) = take 1 (select_in sel_case_rows 1 doc')"
  shows "parseCaseDetailsFromHtml pf h = parseCaseDetailsFromHtml pf h'"
  using assms by (simp add: parseCaseDetailsFromHtml_def)

lemma attempt_server_Inr:
  "fst (attempt_server pf w d y n) = Inr r \<Longrightarrow> \<exists>h. parseCaseDetailsFromHtml pf h = Inr r"
  by (auto simp: attempt_server_def fst_bind_eff pure_eff_def split: sum.splits if_splits)

lemma attempt_server_no_record:
  assumes "fst (fetchEnvelope_server pf w d y n) = Inr j" and "envelope_ok j"
    and "load_html pf (js_get (js_get j ''data'') ''resultsHtml'') = Inr doc" and "no_record doc"
  shows "\<exists>e. fst (attempt_server pf w d y n) = Inl e"
  using parse_single_no_record[OF assms(3,4)] assms(1,2)
  by (auto simp: attempt_server_def fst_bind_eff pure_eff_def)

lemma lookup_server_diary:
  assumes "fst (getCaseDetailsProcess_server pf w d y) = Inr r"
  shows "diaryNumber r \<noteq> []"
proof -
  let ?att = "\<lambda>n (s::unit). (attempt_server pf w d y n, s)"
  have "fst (fst (retry_loop 5 ?att delaySeconds_server 0 ProcessNotAttempted ())) = Inr r"
    using assms by (simp add: getCaseDetailsProcess_server_def)
  from retry_loop_Inr[where attempt="?att", OF this]
  obtain n where "fst (attempt_server pf w d y n) = Inr r" by auto
  then obtain h where "parseCaseDetailsFromHtml pf h = Inr r" using attempt_server_Inr by blast
  then show ?thesis using parse_single_diary by blast
qed

lemma server_all_fail:
  assumes "\<forall>n. 1 \<le> n \<and> n \<le> 5 \<longrightarrow> (\<exists>e. fst (attempt_server pf w d y n) = Inl e)"
  shows "\<exists>e. fst (getCaseDetailsProcess_server pf w d y) = Inl e"
    and "skeleton (snd (getCaseDetailsProcess_server pf w d y))
          = exhausted_skeleton 5 (\<lambda>n. INITIAL_PAGE_URL) delaySeconds_server"
proof -
  let ?att = "\<lambda>n (s::unit). (attempt_server pf w d y n, s)"
  let ?err = "\<lambda>n. projl (fst (attempt_server pf w d y n))"
  have e: "\<And>n. 1 \<le> n \<Longrightarrow> n \<le> 5 \<Longrightarrow> fst (attempt_server pf w d y n) = Inl (?err n)"
    using assms by force
  have "fst (fst (retry_loop 5 ?att delaySeconds_server 0 ProcessNotAttempted ()))
          = Inl (if 0 < (5::nat) then ?err 5 else ProcessNotAttempted)"
    by (rule retry_loop_all_fail_error) (use e in simp)
  then show "\<exists>e. fst (getCaseDetailsProcess_server pf w d y) = Inl e"
    by (simp add: getCaseDetailsProcess_server_def)
  have "skeleton (snd (fst (retry_loop 5 ?att delaySeconds_server 0 ProcessNotAttempted ()))) =
         concat (map (\<lambda>n. EvFetchHtml ((\<lambda>n. INITIAL_PAGE_URL) n) #
                       (if n < 5 then [EvSleep (delaySeconds_server n)] else [])) [Suc 0..<Suc 5])"
  proof (rule retry_loop_all_fail_skeleton)
    fix n :: nat and s :: unit
    assume "0 < n" "n \<le> 5"
    then have "\<exists>e. fst (attempt_server pf w d y n) = Inl e" using assms by (simp add: Suc_le_eq)
    then show "(\<exists>e. fst (fst (attempt_server pf w d y n, s)) = Inl e) \<and>
          skeleton (snd (fst (attempt_server pf w d y n, s))) = [EvFetchHtml INITIAL_PAGE_URL]"
      by (simp add: skeleton_attempt_server)
  qed
  then show "skeleton (snd (getCaseDetailsProcess_server pf w d y))
          = exhausted_skeleton 5 (\<lambda>n. INITIAL_PAGE_URL) delaySeconds_server"
    by (simp add: getCaseDetailsProcess_server_def exhausted_skeleton_def)
qed

lemma parse_single_record:
  assumes "load_html pf h = Inr doc" and "\<not> no_record doc"
    and "(let viewLink = sel_attr (find_in (take 1 (select_in sel_case_rows 1 doc))
                                      [sel_td_nth_child 7, sel_tag_class ''a'' ''viewCnrDetails'']) ''href''
          in if truthy_str viewLink then map_sum id Some (url_href pf (the viewLink) INITIAL_PAGE_URL)
             else Inr None) = Inr link"
  shows "\<exists>r. parseCaseDetailsFromHtml pf h = Inr r
           \<and> diaryNumber r
               = trim (sel_text (find_in (take 1 (select_in sel_case_rows 1 doc)) [sel_td_nth_child 2]))
           \<and> serialNumber r
               = trim (sel_text (find_in (take 1 (select_in sel_case_rows 1 doc)) [sel_td_nth_child 1]))
           \<and> actionViewLink r = link"
  using assms by (simp add: parseCaseDetailsFromHtml_def no_record_def Let_def)

lemma server_handler_data:
  assumes "fst (api_case_details_server pf w t body) = Inr resp"
    and "map_of (http_body resp) ''data'' = Some (BCaseData r)"
  shows "diaryNumber r \<noteq> []"
proof (cases "destructure_diaryData body")
  case (Inl e)
  then show ?thesis using assms by (simp add: api_case_details_server_def)
next
  case dv: (Inr v)
  show ?thesis
  proof (cases "validate_diaryData v")
    case (Inl e)
    then show ?thesis using assms dv by (auto simp: api_case_details_server_def bad_request_def)
  next
    case (Inr p)
    obtain d y where p: "p = (d, y)" by (cases p)
    obtain res evs where g: "getCaseDetailsProcess_server pf w d y = (res, evs)" by (metis surj_pair)
    show ?thesis
    proof (cases res)
      case (Inl e)
      then show ?thesis using assms dv Inr p g
        by (auto simp: api_case_details_server_def server_error_def)
    next
      case res: (Inr r')
      then have "r' = r" using assms dv Inr p g by (auto simp: api_case_details_server_def)
      then have "fst (getCaseDetailsProcess_server pf w d y) = Inr r" using g res by simp
      then show ?thesis by (rule lookup_server_diary)
    qed
  qed
qed

text \<open>
  C10.  In server.js, a fragment whose results table has no rows, or whose first row
  has an empty diary-number cell, makes \<open>parseCaseDetailsFromHtml\<close> fail (with the parse
  error when there are no rows), so the attempt that received it fails; any other
  fragment gives the record of its first row, unless the link of that row is not a URL.  When each of
  the five attempts receives a successful envelope with such a fragment, the endpoint
  answers 500 after five attempt cycles with the sleeps in between.  A lookup that
  succeeds returns a record with a non-empty diary number, and so does every response
  that carries a record: no empty result is ever returned.  The parser reads the first
  row only: two fragments with the same first row give the same outcome.
\<close>

theorem C10_single_record_no_rows:
  "(load_html pf h = Inr doc \<and> no_record doc \<longrightarrow> (\<exists>e. parseCaseDetailsFromHtml pf h = Inl e))
   \<and> (load_html pf h = Inr doc \<and> select_in sel_case_rows 1 doc = [] \<longrightarrow>
        parseCaseDetailsFromHtml pf h = Inl CaseDetailsParseError)
   \<and> (fst (fetchEnvelope_server pf w d y n) = Inr j \<and> envelope_ok j
        \<and> load_html pf (js_get (js_get j ''data'') ''resultsHtml'') = Inr doc \<and> no_record doc \<longrightarrow>
        (\<exists>e. fst (attempt_server pf w d y n) = Inl e))
   \<and> (destructure_diaryData body = Inr v \<and> validate_diaryData v = Inr (d, y)
        \<and> (\<forall>n. 1 \<le> n \<and> n \<le> 5 \<longrightarrow>
              (\<exists>j doc. fst (fetchEnvelope_server pf w d y n) = Inr j \<and> envelope_ok j
                 \<and> load_html pf (js_get (js_get j ''data'') ''resultsHtml'') = Inr doc
                 \<and> no_record doc)) \<longrightarrow>
        (\<exists>e. fst (api_case_details_server pf w t body)
                = Inr \<lparr>http_status = 500,
                       http_body = [(''success'', BBool False), (''error'', BError (FailedToRetrieve e)),
                                    (''timeTakenMs'', BTime t)]\<rparr>)
        \<and> skeleton (snd (api_case_details_server pf w t body))
            = exhausted_skeleton 5 (\<lambda>n. INITIAL_PAGE_URL) delaySeconds_server)
   \<and> (fst (getCaseDetailsProcess_server pf w d y) = Inr r \<longrightarrow> diaryNumber r \<noteq> [])
   \<and> (fst (api_case_details_server pf w t body) = Inr resp
        \<and> map_of (http_body resp) ''data'' = Some (BCaseData r) \<longrightarrow>
        diaryNumber r \<noteq> [])
   \<and> (load_html pf h = Inr doc \<and> load_html pf h' = Inr doc'
        \<and> take 1 (select_in sel_case_rows 1 doc) = take 1 (select_in sel_case_rows 1 doc') \<longrightarrow>
        parseCaseDetailsFromHtml pf h = parseCaseDetailsFromHtml pf h')
   \<and> (load_html pf h = Inr doc \<and> \<not> no_record doc
        \<and> (let viewLink = sel_attr (find_in (take 1 (select_in sel_case_rows 1 doc))
                                      [sel_td_nth_child 7, sel_tag_class ''a'' ''viewCnrDetails'']) ''href''
            in if truthy_str viewLink then map_sum id Some (url_href pf (the viewLink) INITIAL_PAGE_URL)
               else Inr None) = Inr link \<longrightarrow>
        (\<exists>r. parseCaseDetailsFromHtml pf h = Inr r
           \<and> diaryNumber r
               = trim (sel_text (find_in (take 1 (select_in sel_case_rows 1 doc)) [sel_td_nth_child 2]))
           \<and> serialNumber r
               = trim (sel_text (find_in (take 1 (select_in sel_case_rows 1 doc)) [sel_td_nth_child 1]))
           \<and> actionViewLink r = link))"
proof (intro conjI impI)
  assume "load_html pf h = Inr doc \<and> no_record doc"
  then show "\<exists>e. parseCaseDetailsFromHtml pf h = Inl e"
    using parse_single_no_record by blast
next
  assume "load_html pf h = Inr doc \<and> select_in sel_case_rows 1 doc = []"
  then show "parseCaseDetailsFromHtml pf h = Inl CaseDetailsParseError"
    using parse_single_no_rows by blast
next
  assume "fst (fetchEnvelope_server pf w d y n) = Inr j \<and> envelope_ok j
        \<and> load_html pf (js_get (js_get j ''data'') ''resultsHtml'') = Inr doc \<and> no_record doc"
  then show "\<exists>e. fst (attempt_server pf w d y n) = Inl e"
    using attempt_server_no_record by blast
next
  assume a: "destructure_diaryData body = Inr v \<and> validate_diaryData v = Inr (d, y)
        \<and> (\<forall>n. 1 \<le> n \<and> n \<le> 5 \<longrightarrow>
              (\<exists>j doc. fst (fetchEnvelope_server pf w d y n) = Inr j \<and> envelope_ok j
                 \<and> load_html pf (js_get (js_get j ''data'') ''resultsHtml'') = Inr doc
                 \<and> no_record doc))"
  then have f: "\<forall>n. 1 \<le> n \<and> n \<le> 5 \<longrightarrow> (\<exists>e. fst (attempt_server pf w d y n) = Inl e)"
    using attempt_server_no_record by blast
  from server_all_fail(1)[OF f] obtain e where e: "fst (getCaseDetailsProcess_server pf w d y) = Inl e"
    by blast
  have dv: "destructure_diaryData body = Inr v" and v: "validate_diaryData v = Inr (d, y)"
    using a by simp_all
  have "fst (api_case_details_server pf w t body)
                = Inr \<lparr>http_status = 500,
                       http_body = [(''success'', BBool False), (''error'', BError (FailedToRetrieve e)),
                                    (''timeTakenMs'', BTime t)]\<rparr>"
    unfolding handlers_accept(1)[OF dv v] using e
    by (cases "getCaseDetailsProcess_server pf w d y") (simp add: server_error_def)
  then show "\<exists>e. fst (api_case_details_server pf w t body)
                = Inr \<lparr>http_status = 500,
                       http_body = [(''success'', BBool False), (''error'', BError (FailedToRetrieve e)),
                                    (''timeTakenMs'', BTime t)]\<rparr>"
    by blast
  show "skeleton (snd (api_case_details_server pf w t body))
            = exhausted_skeleton 5 (\<lambda>n. INITIAL_PAGE_URL) delaySeconds_server"
    by (simp only: handlers_accept_trace(1)[OF dv v] server_all_fail(2)[OF f])
next
  assume "fst (getCaseDetailsProcess_server pf w d y) = Inr r"
  then show "diaryNumber r \<noteq> []" by (rule lookup_server_diary)
next
  assume "fst (api_case_details_server pf w t body) = Inr resp
        \<and> map_of (http_body resp) ''data'' = Some (BCaseData r)"
  then show "diaryNumber r \<noteq> []" using server_handler_data by blast
next
  assume "load_html pf h = Inr doc \<and> load_html pf h' = Inr doc'
        \<and> take 1 (select_in sel_case_rows 1 doc) = take 1 (select_in sel_case_rows 1 doc')"
  then show "parseCaseDetailsFromHtml pf h = parseCaseDetailsFromHtml pf h'"
    using parse_single_first_row by blast
next
  assume "load_html pf h = Inr doc \<and> \<not> no_record doc
        \<and> (let viewLink = sel_attr (find_in (take 1 (select_in sel_case_rows 1 doc))
                                      [sel_td_nth_child 7, sel_tag_class ''a'' ''viewCnrDetails'']) ''href''
            in if truthy_str viewLink then map_sum id Some (url_href pf (the viewLink) INITIAL_PAGE_URL)
               else Inr None) = Inr link"
  then show "\<exists>r. parseCaseDetailsFromHtml pf h = Inr r
           \<and> diaryNumber r
               = trim (sel_text (find_in (take 1 (select_in sel_case_rows 1 doc)) [sel_td_nth_child 2]))
           \<and> serialNumber r
               = trim (sel_text (find_in (take 1 (select_in sel_case_rows 1 doc)) [sel_td_nth_child 1]))
           \<and> actionViewLink r = link"
    using parse_single_record by blast
qed

theorem C10_single_record_no_rows_witness:
  "(\<exists>e. fst (api_case_details_server (page_platform token_page)
            (site_world no_records_envelope) 12 (diary_body ''2444/2023''))
         = Inr \<lparr>http_status = 500,
                http_body = [(''success'', BBool False), (''error'', BError (FailedToRetrieve e)),
                             (''timeTakenMs'', BTime 12)]\<rparr>)
   \<and> skeleton (snd (api_case_details_server (page_platform token_page)
       (site_world no_records_envelope) 12 (diary_body ''2444/2023'')))
       = [EvFetchHtml INITIAL_PAGE_URL, EvSleep 3, EvFetchHtml INITIAL_PAGE_URL, EvSleep 4,
          EvFetchHtml INITIAL_PAGE_URL, EvSleep 5, EvFetchHtml INITIAL_PAGE_URL, EvSleep 6,
          EvFetchHtml INITIAL_PAGE_URL]
   \<and> (\<exists>r. parseCaseDetailsFromHtml (page_platform results_fragment) (JStr ''<div>...</div>'') = Inr r
          \<and> diaryNumber r = ''2444/2023'' \<and> serialNumber r = ''1''
          \<and> actionViewLink r = Some ''https://www.sci.gov.in/case-status-diary-no/view/1'')"
proof -
  let ?pf = "page_platform token_page"
  let ?w = "site_world no_records_envelope"
  let ?b = "diary_body ''2444/2023''"
  have env: "\<And>n. fst (fetchEnvelope_server ?pf ?w ''2444'' ''2023'' n) = Inr no_records_envelope"
    by (simp add: site_fetchEnvelope_server)
  have ok: "envelope_ok no_records_envelope"
    by (simp add: envelope_ok_def no_records_envelope_def)
  have ld: "load_html ?pf (js_get (js_get no_records_envelope ''data'') ''resultsHtml'') = Inr token_page"
    by (simp add: no_records_envelope_def load_html_def page_platform_def)
  have rows: "select_in sel_case_rows 1 token_page = []"
    by (simp add: token_page_def hidden_input_def sel_case_rows_def sel_tag_class_def sel_tag_def)
  have nr: "no_record token_page" unfolding no_record_def rows by simp
  have h: "destructure_diaryData ?b = Inr (JStr ''2444/2023'')
        \<and> validate_diaryData (JStr ''2444/2023'') = Inr (''2444'', ''2023'')
        \<and> (\<forall>n. 1 \<le> n \<and> n \<le> 5 \<longrightarrow>
              (\<exists>j doc. fst (fetchEnvelope_server ?pf ?w ''2444'' ''2023'' n) = Inr j \<and> envelope_ok j
                 \<and> load_html ?pf (js_get (js_get j ''data'') ''resultsHtml'') = Inr doc
                 \<and> no_record doc))"
    using env ok ld nr validate_samples(1) destructure_diary_body[of "''2444/2023''"] by blast
  have r: "(\<exists>e. fst (api_case_details_server ?pf ?w 12 ?b)
                = Inr \<lparr>http_status = 500,
                       http_body = [(''success'', BBool False), (''error'', BError (FailedToRetrieve e)),
                                    (''timeTakenMs'', BTime 12)]\<rparr>)
        \<and> skeleton (snd (api_case_details_server ?pf ?w 12 ?b))
            = exhausted_skeleton 5 (\<lambda>n. INITIAL_PAGE_URL) delaySeconds_server"
    by (rule C10_single_record_no_rows[of ?pf _ _ ?w "''2444''" "''2023''" _ _ ?b "JStr ''2444/2023''" 12,
          THEN conjunct2, THEN conjunct2, THEN conjunct2, THEN conjunct1, rule_format])
       (rule h)
  have e5: "exhausted_skeleton 5 (\<lambda>n. INITIAL_PAGE_URL) delaySeconds_server =
     [EvFetchHtml INITIAL_PAGE_URL, EvSleep 3, EvFetchHtml INITIAL_PAGE_URL, EvSleep 4,
        EvFetchHtml INITIAL_PAGE_URL, EvSleep 5, EvFetchHtml INITIAL_PAGE_URL, EvSleep 6,
        EvFetchHtml INITIAL_PAGE_URL]"
    by (simp add: exhausted_skeleton_def delaySeconds_server_def upt_conv_Cons)
  let ?pr = "page_platform results_fragment"
  let ?row = "take 1 (select_in sel_case_rows 1 results_fragment)"
  have l: "load_html ?pr (JStr ''<div>...</div>'') = Inr results_fragment"
    by (simp add: load_html_def page_platform_def)
  have rec: "\<not> no_record results_fragment" by code_simp
  have link: "(let viewLink = sel_attr (find_in ?row [sel_td_nth_child 7, sel_tag_class ''a'' ''viewCnrDetails'']) ''href''
          in if truthy_str viewLink then map_sum id Some (url_href ?pr (the viewLink) INITIAL_PAGE_URL)
             else Inr None) = Inr (Some ''https://www.sci.gov.in/case-status-diary-no/view/1'')"
    by code_simp
  have d2: "trim (sel_text (find_in ?row [sel_td_nth_child 2])) = ''2444/2023''" by code_simp
  have d1: "trim (sel_text (find_in ?row [sel_td_nth_child 1])) = ''1''" by code_simp
  have p: "\<exists>r. parseCaseDetailsFromHtml ?pr (JStr ''<div>...</div>'') = Inr r
          \<and> diaryNumber r = trim (sel_text (find_in ?row [sel_td_nth_child 2]))
          \<and> serialNumber r = trim (sel_text (find_in ?row [sel_td_nth_child 1]))
          \<and> actionViewLink r = Some ''https://www.sci.gov.in/case-status-diary-no/view/1''"
    by (rule C10_single_record_no_rows[of ?pr "JStr ''<div>...</div>''" results_fragment,
          THEN conjunct2, THEN conjunct2, THEN conjunct2, THEN conjunct2, THEN conjunct2,
          THEN conjunct2, THEN conjunct2, rule_format])
       (intro conjI l rec link)
  show ?thesis using r p unfolding d1 d2 by (simp only: e5) 
qed


end
